(* ===== verification/Prelude.thy ===== *)
theory Prelude
  imports Main "HOL-Library.Word"
begin

text \<open>
  What every component of the development shares: the sum-typed results that model aborts,
  undefined behaviour and early returns, a fold over such steps, and the rules that carry an
  invariant through them.
  \<^item> \<open>bindR\<close> sequences two steps, the second of which is skipped when the first one failed.
  \<^item> \<open>foldR\<close> is a \<^verbatim>\<open>for\<close> loop over a list of such steps.
  \<^item> \<open>outcome Q Er r\<close> says that the result \<open>r\<close> is either a value satisfying \<open>Q\<close> or an error
  allowed by \<open>Er\<close>; \<open>outcome_rules\<close> collects its syntax-directed rules.
\<close>

named_theorems outcome_rules "rules that push an outcome judgement through the result monad"

section \<open>Results with errors\<close>

definition bindR :: "'e + 'a \<Rightarrow> ('a \<Rightarrow> 'e + 'b) \<Rightarrow> 'e + 'b" where
  "bindR m k = (case m of Inl e \<Rightarrow> Inl e | Inr x \<Rightarrow> k x)"

lemma bindR_Inl [simp]: "bindR (Inl e) k = Inl e"
  by (simp add: bindR_def)

lemma bindR_Inr [simp]: "bindR (Inr x) k = k x"
  by (simp add: bindR_def)

lemma bindR_assoc: "bindR (bindR m f) g = bindR m (\<lambda>x. bindR (f x) g)"
  by (simp add: bindR_def split: sum.splits)

lemma bindR_eq_Inr: "bindR m k = Inr y \<longleftrightarrow> (\<exists>x. m = Inr x \<and> k x = Inr y)"
  by (auto simp: bindR_def split: sum.splits)

lemma bindR_eq_Inl: "bindR m k = Inl e \<longleftrightarrow> m = Inl e \<or> (\<exists>x. m = Inr x \<and> k x = Inl e)"
  by (auto simp: bindR_def split: sum.splits)

primrec foldR :: "('x \<Rightarrow> 's \<Rightarrow> 'e + 's) \<Rightarrow> 'x list \<Rightarrow> 's \<Rightarrow> 'e + 's" where
  "foldR f [] s = Inr s"
| "foldR f (x # xs) s = bindR (f x s) (foldR f xs)"

lemma bindR_unit [simp]: "bindR m Inr = m" "bindR m (foldR f []) = m"
  by (cases m; simp)+

lemma foldR_append: "foldR f (xs @ ys) s = bindR (foldR f xs s) (foldR f ys)"
  by (induction xs arbitrary: s) (simp_all add: bindR_def split: sum.splits)

lemma foldR_cong [fundef_cong]:
  "xs = ys \<Longrightarrow> s = t \<Longrightarrow> (\<And>x u. x \<in> set ys \<Longrightarrow> f x u = g x u) \<Longrightarrow> foldR f xs s = foldR g ys t"
proof (induction ys arbitrary: xs s t)
  case (Cons y ys)
  then show ?case by (auto simp: bindR_def split: sum.splits)
qed simp

section \<open>The outcome judgement\<close>

definition outcome :: "('a \<Rightarrow> bool) \<Rightarrow> ('e \<Rightarrow> bool) \<Rightarrow> 'e + 'a \<Rightarrow> bool" where
  "outcome Q Er r = (case r of Inl e \<Rightarrow> Er e | Inr x \<Rightarrow> Q x)"

abbreviation any_error :: "'e \<Rightarrow> bool" where
  "any_error \<equiv> (\<lambda>_. True)"

lemma outcome_Inr [simp]: "outcome Q Er (Inr x) = Q x"
  by (simp add: outcome_def)

lemma outcome_Inl [simp]: "outcome Q Er (Inl e) = Er e"
  by (simp add: outcome_def)

lemma outcome_bind [outcome_rules]:
  "outcome R Er m \<Longrightarrow> (\<And>x. R x \<Longrightarrow> outcome Q Er (k x)) \<Longrightarrow> outcome Q Er (bindR m k)"
  by (cases m) auto

lemma outcome_bindI:
  "(\<And>x. m = Inr x \<Longrightarrow> outcome Q Er (k x)) \<Longrightarrow> (\<And>e. m = Inl e \<Longrightarrow> Er e) \<Longrightarrow> outcome Q Er (bindR m k)"
  by (cases m) auto

lemma outcome_bind_eq:
  "outcome Q Er (bindR m k) = outcome (\<lambda>x. outcome Q Er (k x)) Er m"
  by (cases m) auto

lemma outcome_fold [outcome_rules]:
  assumes "I s" and "\<And>x s. x \<in> set xs \<Longrightarrow> I s \<Longrightarrow> outcome I Er (f x s)"
  shows "outcome I Er (foldR f xs s)"
  using assms
proof (induction xs arbitrary: s)
  case (Cons x xs)
  have "outcome I Er (f x s)" using Cons.prems by simp
  then show ?case using Cons by (auto intro: outcome_bind)
qed simp

lemma outcome_mono:
  "outcome Q Er r \<Longrightarrow> (\<And>x. Q x \<Longrightarrow> Q' x) \<Longrightarrow> (\<And>e. Er e \<Longrightarrow> Er' e) \<Longrightarrow> outcome Q' Er' r"
  by (cases r) auto

lemma outcome_conj:
  "outcome Q Er r \<Longrightarrow> outcome Q' Er r \<Longrightarrow> outcome (\<lambda>x. Q x \<and> Q' x) Er r"
  by (cases r) auto

lemma outcome_InrD: "outcome Q Er r \<Longrightarrow> r = Inr x \<Longrightarrow> Q x"
  by simp

lemma outcome_InlD: "outcome Q Er r \<Longrightarrow> r = Inl e \<Longrightarrow> Er e"
  by simp

lemma outcome_if [outcome_rules]:
  "(b \<Longrightarrow> outcome Q Er x) \<Longrightarrow> (\<not> b \<Longrightarrow> outcome Q Er y) \<Longrightarrow> outcome Q Er (if b then x else y)"
  by simp

lemma outcome_option [outcome_rules]:
  "(x = None \<Longrightarrow> outcome Q Er n) \<Longrightarrow> (\<And>y. x = Some y \<Longrightarrow> outcome Q Er (s y))
   \<Longrightarrow> outcome Q Er (case x of None \<Rightarrow> n | Some y \<Rightarrow> s y)"
  by (cases x) auto

lemma outcome_fst_snd [outcome_rules]:
  "(\<And>x y. p = (x, y) \<Longrightarrow> outcome Q Er (f x y)) \<Longrightarrow> outcome Q Er (case p of (x, y) \<Rightarrow> f x y)"
  by (cases p) auto

section \<open>Words and lists\<close>

type_synonym byte = "8 word"
type_synonym bytes = "byte list"

lemma take_eq_length_append [simp]: "length xs = n \<Longrightarrow> take n (xs @ ys) = xs"
  by simp

lemma drop_eq_length_append [simp]: "length xs = n \<Longrightarrow> drop n (xs @ ys) = ys"
  by simp

lemma length_Suc_conv_nth: "length xs = Suc n \<Longrightarrow> \<exists>y ys. xs = y # ys \<and> length ys = n"
  by (cases xs) auto

section \<open>Sorted sets\<close>

text \<open>
  \<^verbatim>\<open>std::set\<close> as the list of its elements in order; \<^verbatim>\<open>insert\<close> keeps an element that is equivalent to the
  new one.
\<close>

fun set_insert :: "('a \<Rightarrow> 'a \<Rightarrow> bool) \<Rightarrow> 'a \<Rightarrow> 'a list \<Rightarrow> 'a list" where
  "set_insert lt x [] = [x]"
| "set_insert lt x (a # xs) = (if lt x a then x # a # xs else if lt a x then a # set_insert lt x xs else a # xs)"

lemma set_insert_subset: "set (set_insert lt x xs) \<subseteq> insert x (set xs)"
  by (induction xs) auto

lemma set_insert_superset: "set xs \<subseteq> set (set_insert lt x xs)"
  by (induction xs) auto

definition key_less :: "('a \<Rightarrow> 'k::linorder) \<Rightarrow> 'a \<Rightarrow> 'a \<Rightarrow> bool" where
  "key_less key a b \<longleftrightarrow> key a < key b"

lemma set_insert_keys: "key ` set (set_insert (key_less key) x xs) = insert (key x) (key ` set xs)"
proof (induction xs)
  case (Cons a xs)
  then show ?case by (cases "key x" "key a" rule: linorder_cases) (auto simp: key_less_def)
qed simp

lemma set_insert_sorted:
  "sorted_wrt (key_less key) xs \<Longrightarrow> sorted_wrt (key_less key) (set_insert (key_less key) x xs)"
proof (induction xs)
  case (Cons a xs)
  let ?lt = "key_less key"
  have IH: "sorted_wrt ?lt (set_insert ?lt x xs)" using Cons by simp
  consider "key x < key a" | "key x = key a" | "key a < key x" by (rule linorder_cases)
  then show ?case
  proof cases
    case 1
    then show ?thesis using Cons.prems by (auto simp: key_less_def)
  next
    case 2
    then show ?thesis using Cons.prems by (simp add: key_less_def)
  next
    case 3
    then have "\<forall>b\<in>set (set_insert ?lt x xs). ?lt a b" and "?lt a x" "\<not> ?lt x a"
      using Cons.prems set_insert_subset [of ?lt x xs] by (auto simp: key_less_def)
    with IH show ?thesis by simp
  qed
qed simp

lemma sorted_keys_distinct: "sorted_wrt (key_less key) xs \<Longrightarrow> distinct (map key xs)"
  by (induction xs) (auto simp: key_less_def)

end
