(* ===== verification/Types.thy ===== *)
theory Types
  imports Prelude
begin

text \<open>
  The plain data of \<^verbatim>\<open>msgrpc/core\<close>: \<^verbatim>\<open>RpcResult\<close>, the request and response headers of
  \<^verbatim>\<open>types.h\<close>, their layout in memory (the code casts message buffers to header pointers), and
  the endpoints that \<^verbatim>\<open>typedefs.h\<close> uses as service identifiers.
\<close>

section \<open>RpcResult\<close>

text \<open>
  \<^verbatim>\<open>enum class RpcResult : unsigned short\<close>: five named values; a peer may put any other 16-bit
  value on the wire and the cast keeps it, which is \<open>OtherResult\<close>.
\<close>

datatype rpc_result =
    Succeeded
  | Failed
  | TimedOut
  | IfaceNotFound
  | MethodNotFound
  | OtherResult "16 word"

fun word_of_result :: "rpc_result \<Rightarrow> 16 word" where
  "word_of_result Succeeded = 0"
| "word_of_result Failed = 1"
| "word_of_result TimedOut = 2"
| "word_of_result IfaceNotFound = 3"
| "word_of_result MethodNotFound = 4"
| "word_of_result (OtherResult w) = w"

definition result_of_word :: "16 word \<Rightarrow> rpc_result" where
  "result_of_word w =
     (if w = 0 then Succeeded else if w = 1 then Failed else if w = 2 then TimedOut
      else if w = 3 then IfaceNotFound else if w = 4 then MethodNotFound else OtherResult w)"

fun listed_result :: "rpc_result \<Rightarrow> bool" where
  "listed_result (OtherResult w) = (w \<notin> {0, 1, 2, 3, 4})"
| "listed_result _ = True"

lemma word_of_result_of_word [simp]: "word_of_result (result_of_word w) = w"
  by (simp add: result_of_word_def)

lemma result_of_word_of_result [simp]: "listed_result r \<Longrightarrow> result_of_word (word_of_result r) = r"
  by (cases r) (simp_all add: result_of_word_def)

lemma listed_result_of_word [simp]: "listed_result (result_of_word w)"
  by (simp add: result_of_word_def)

section \<open>Faults\<close>

text \<open>
  How an operation can go wrong: a failed \<^verbatim>\<open>assert\<close>, an access to or a second deletion of an
  object that was deleted, a dereferenced null pointer.  \<open>OutOfFuel\<close> is not a fault of the code
  but of the model: the bound on the depth of nested virtual calls was too small.
\<close>

datatype fault =
    OutOfFuel
  | UseAfterFree nat
  | DoubleFree nat
  | NullDeref
  | AssertFailed string

section \<open>Little-endian scalars\<close>

definition le16 :: "16 word \<Rightarrow> bytes" where
  "le16 w = [ucast w, ucast (drop_bit 8 w)]"

definition un16 :: "byte \<Rightarrow> byte \<Rightarrow> 16 word" where
  "un16 b0 b1 = or (ucast b0) (push_bit 8 (ucast b1))"

definition le32 :: "32 word \<Rightarrow> bytes" where
  "le32 w = [ucast w, ucast (drop_bit 8 w), ucast (drop_bit 16 w), ucast (drop_bit 24 w)]"

definition un32 :: "byte \<Rightarrow> byte \<Rightarrow> byte \<Rightarrow> byte \<Rightarrow> 32 word" where
  "un32 b0 b1 b2 b3 =
     or (or (ucast b0) (push_bit 8 (ucast b1))) (or (push_bit 16 (ucast b2)) (push_bit 24 (ucast b3)))"

definition le64 :: "64 word \<Rightarrow> bytes" where
  "le64 w = le32 (ucast w) @ le32 (ucast (drop_bit 32 w))"

definition un64 :: "bytes \<Rightarrow> 64 word" where
  "un64 bs = or (ucast (un32 (bs ! 0) (bs ! 1) (bs ! 2) (bs ! 3)))
                (push_bit 32 (ucast (un32 (bs ! 4) (bs ! 5) (bs ! 6) (bs ! 7))))"

lemma byte_bit_high [simp]: "8 \<le> n \<Longrightarrow> \<not> bit (b :: byte) n"
  by (auto dest: bit_imp_le_length)

lemma un16_le16 [simp]: "un16 (ucast w) (ucast (drop_bit 8 w)) = w"
  unfolding un16_def by (rule bit_word_eqI) (auto simp: bit_simps)

lemma un32_le32 [simp]:
  "un32 (ucast w) (ucast (drop_bit 8 w)) (ucast (drop_bit 16 w)) (ucast (drop_bit 24 w)) = w"
  unfolding un32_def
proof (rule bit_word_eqI)
  fix n assume "n < LENGTH(32)"
  then consider "n < 8" | "8 \<le> n" "n < 16" | "16 \<le> n" "n < 24" | "24 \<le> n" "n < 32"
    by fastforce
  then show "bit (or (or (ucast (ucast w :: byte)) (push_bit 8 (ucast (ucast (drop_bit 8 w) :: byte))))
      (or (push_bit 16 (ucast (ucast (drop_bit 16 w) :: byte)))
        (push_bit 24 (ucast (ucast (drop_bit 24 w) :: byte)))) :: 32 word) n = bit w n"
    by cases (auto simp: bit_simps)
qed

lemma le16_un16 [simp]: "le16 (un16 b0 b1) = [b0, b1]"
  unfolding le16_def un16_def
  by (auto intro!: bit_word_eqI simp: bit_simps)

lemma le32_un32 [simp]: "le32 (un32 b0 b1 b2 b3) = [b0, b1, b2, b3]"
  unfolding le32_def un32_def
  by (auto intro!: bit_word_eqI simp: bit_simps)

lemma length_le16 [simp]: "length (le16 w) = 2"
  by (simp add: le16_def)

lemma length_le32 [simp]: "length (le32 w) = 4"
  by (simp add: le32_def)

lemma length_le64 [simp]: "length (le64 w) = 8"
  by (simp add: le64_def)

lemma un64_le64 [simp]: "un64 (le64 w) = w"
proof -
  have "un64 (le64 w) = or (ucast (ucast w :: 32 word)) (push_bit 32 (ucast (ucast (drop_bit 32 w) :: 32 word)))"
    by (simp add: un64_def le64_def le32_def)
  also have "\<dots> = w"
    by (rule bit_word_eqI) (auto simp: bit_simps)
  finally show ?thesis .
qed

section \<open>Message headers\<close>

record msg_header =
  msgrpc_version :: "8 word"
  method_index_in_interface :: "8 word"
  iface_index_in_service :: "16 word"
  sequence_id :: "32 word"

type_synonym req_msg_header = msg_header

record rsp_msg_header = msg_header +
  rpc_result_of :: rpc_result

definition sizeof_req_header :: nat where
  "sizeof_req_header = 8"

definition sizeof_rsp_header :: nat where
  "sizeof_rsp_header = 12"

text \<open>
  The bytes of a header on the little-endian platform the code is built for.  A response header
  is 4-aligned, so two padding bytes follow the 16-bit result; their content is whatever the
  sender's stack held, which is the argument \<open>pad\<close>.
\<close>

definition msg_header_bytes :: "'a msg_header_scheme \<Rightarrow> bytes" where
  "msg_header_bytes h =
     [msgrpc_version h, method_index_in_interface h] @ le16 (iface_index_in_service h)
       @ le32 (sequence_id h)"

definition rsp_header_bytes :: "byte \<times> byte \<Rightarrow> rsp_msg_header \<Rightarrow> bytes" where
  "rsp_header_bytes pad h =
     msg_header_bytes h @ le16 (word_of_result (rpc_result_of h)) @ [fst pad, snd pad]"

text \<open>
  The pointer casts \<^verbatim>\<open>(ReqMsgHeader *) msg\<close> and \<^verbatim>\<open>(RspMsgHeader *) msg\<close>; \<open>None\<close> when fewer
  bytes than the header are there, where the C++ would read past the buffer.
\<close>

fun cast_req_header :: "bytes \<Rightarrow> req_msg_header option" where
  "cast_req_header (v # m # i0 # i1 # s0 # s1 # s2 # s3 # _) =
     Some \<lparr>msgrpc_version = v, method_index_in_interface = m,
           iface_index_in_service = un16 i0 i1, sequence_id = un32 s0 s1 s2 s3\<rparr>"
| "cast_req_header _ = None"

fun cast_rsp_header :: "bytes \<Rightarrow> rsp_msg_header option" where
  "cast_rsp_header (v # m # i0 # i1 # s0 # s1 # s2 # s3 # r0 # r1 # _ # _ # _) =
     Some \<lparr>msgrpc_version = v, method_index_in_interface = m,
           iface_index_in_service = un16 i0 i1, sequence_id = un32 s0 s1 s2 s3,
           rpc_result_of = result_of_word (un16 r0 r1)\<rparr>"
| "cast_rsp_header _ = None"

lemma length_msg_header_bytes [simp]: "length (msg_header_bytes h) = sizeof_req_header"
  by (simp add: msg_header_bytes_def sizeof_req_header_def)

lemma length_rsp_header_bytes [simp]: "length (rsp_header_bytes pad h) = sizeof_rsp_header"
  by (simp add: rsp_header_bytes_def sizeof_rsp_header_def sizeof_req_header_def)

lemma cast_req_header_bytes [simp]: "cast_req_header (msg_header_bytes h @ payload) = Some h"
  for h :: req_msg_header
  by (cases h) (simp add: msg_header_bytes_def le16_def le32_def)

lemma cast_rsp_header_bytes [simp]:
  "listed_result (rpc_result_of h) \<Longrightarrow> cast_rsp_header (rsp_header_bytes pad h @ payload) = Some h"
  by (cases h) (simp add: rsp_header_bytes_def msg_header_bytes_def le16_def le32_def)

lemma cast_rsp_header_bytes_alone [simp]:
  "listed_result (rpc_result_of h) \<Longrightarrow> cast_rsp_header (rsp_header_bytes pad h) = Some h"
  using cast_rsp_header_bytes [of h pad "[]"] by simp

lemma cast_req_header_defined:
  "cast_req_header bs \<noteq> None \<longleftrightarrow> sizeof_req_header \<le> length bs"
  by (cases bs rule: cast_req_header.cases) (auto simp: sizeof_req_header_def)

lemma cast_rsp_header_defined:
  "cast_rsp_header bs \<noteq> None \<longleftrightarrow> sizeof_rsp_header \<le> length bs"
  by (cases bs rule: cast_rsp_header.cases) (auto simp: sizeof_rsp_header_def)

lemma cast_rsp_header_listed: "cast_rsp_header bs = Some h \<Longrightarrow> listed_result (rpc_result_of h)"
  by (cases bs rule: cast_rsp_header.cases) auto

section \<open>Service identifiers\<close>

text \<open>
  \<^verbatim>\<open>typedef boost::asio::ip::udp::endpoint service_id_t\<close>: an address and a port, compared by
  address first.  Boost's address is a number here, which keeps its equality and its order.
\<close>

datatype service_id = Endpoint (ep_address: int) (ep_port: "16 word")

instantiation service_id :: linorder
begin

definition less_eq_service_id :: "service_id \<Rightarrow> service_id \<Rightarrow> bool" where
  "less_eq_service_id a b =
     (ep_address a < ep_address b \<or> ep_address a = ep_address b \<and> ep_port a \<le> ep_port b)"

definition less_service_id :: "service_id \<Rightarrow> service_id \<Rightarrow> bool" where
  "less_service_id a b =
     (ep_address a < ep_address b \<or> ep_address a = ep_address b \<and> ep_port a < ep_port b)"

instance
  by standard (auto simp: less_eq_service_id_def less_service_id_def intro: service_id.expand)

end

end
