(* ===== verification/SeqId.thy ===== *)
theory SeqId
  imports Prelude
begin

text \<open>
  \<^verbatim>\<open>rpc_sequence_id.cpp\<close>: the process-wide counter that numbers outgoing requests.  The first
  part is one caller at a time; the second part lets several threads run \<^verbatim>\<open>get\<close> interleaved at
  the granularity of the atomic operations it is made of.
\<close>

type_synonym rpc_sequence_id = "32 word"

definition k_invalid_rpc_sequence_id :: rpc_sequence_id where
  "k_invalid_rpc_sequence_id = 0"

section \<open>One caller\<close>

text \<open>The state is the counter; \<open>get\<close> returns the id and the new counter.\<close>

definition get :: "rpc_sequence_id \<Rightarrow> rpc_sequence_id \<times> rpc_sequence_id" where
  "get s =
     (let s = s + 1;
          s = (if s = k_invalid_rpc_sequence_id then s + 1 else s)
      in (s, s))"

definition reset :: "rpc_sequence_id \<Rightarrow> rpc_sequence_id" where
  "reset s = k_invalid_rpc_sequence_id"

fun get_many :: "nat \<Rightarrow> rpc_sequence_id \<Rightarrow> rpc_sequence_id list" where
  "get_many 0 s = []"
| "get_many (Suc n) s = (case get s of (i, s') \<Rightarrow> i # get_many n s')"

lemma get_pair: "get s = (fst (get s), fst (get s))"
  by (simp add: get_def Let_def)

lemma fst_get_nonzero [simp]: "fst (get s) \<noteq> k_invalid_rpc_sequence_id"
  by (simp add: get_def Let_def k_invalid_rpc_sequence_id_def)

definition seq_period :: nat where
  "seq_period = 2 ^ 32 - 1"

text \<open>As numbers, \<open>get\<close> counts 1, 2, ..., \<open>2\<^sup>3\<^sup>2 - 1\<close>, 1, 2, ...\<close>

lemma unat_get: "unat (fst (get s)) = unat s mod seq_period + 1"
proof -
  have bound: "unat s < 2 ^ 32" using unsigned_less [of s] by simp
  have inc: "unat (s + 1) = (unat s + 1) mod 2 ^ 32" by (simp add: unat_word_ariths)
  show ?thesis
  proof (cases "unat s = 2 ^ 32 - 1")
    case True
    with inc have "s + 1 = 0" by (simp add: unat_eq_zero)
    with True show ?thesis by (simp add: get_def Let_def k_invalid_rpc_sequence_id_def seq_period_def)
  next
    case False
    with bound have lt: "unat s + 1 < 2 ^ 32" by simp
    with inc have "unat (s + 1) = unat s + 1" by simp
    moreover from this have "s + 1 \<noteq> 0" by (metis Suc_eq_plus1 nat.distinct(1) unat_0)
    ultimately show ?thesis using lt by (simp add: get_def Let_def k_invalid_rpc_sequence_id_def seq_period_def)
  qed
qed

lemma length_get_many [simp]: "length (get_many n s) = n"
  by (induction n arbitrary: s) (auto split: prod.splits)

lemma get_many_nth:
  "k < n \<Longrightarrow> unat (get_many n s ! k) = (unat s + k) mod seq_period + 1"
proof (induction n arbitrary: s k)
  case (Suc n)
  define s' where "s' = fst (get s)"
  have step: "get s = (s', s')" by (metis get_pair s'_def)
  have s': "unat s' = unat s mod seq_period + 1" by (simp add: s'_def unat_get)
  show ?case
  proof (cases k)
    case 0
    then show ?thesis by (simp add: step s')
  next
    case (Suc j)
    then have "unat (get_many n s' ! j) = (unat s mod seq_period + (1 + j)) mod seq_period + 1"
      using Suc.IH [of j s'] Suc.prems s' by (simp add: add.assoc)
    also have "\<dots> = (unat s + k) mod seq_period + 1"
      using Suc by (simp only: mod_add_left_eq) simp
    finally show ?thesis using step Suc by simp
  qed
qed simp

lemma mod_shift_inj:
  fixes m :: nat
  assumes "i \<le> j" and "j < m" and "(a + i) mod m = (a + j) mod m"
  shows "i = j"
proof -
  have "(a + j) mod m = (a + i) mod m" using assms by simp
  then have "m dvd (a + j) - (a + i)" using assms(1) mod_eq_dvd_iff_nat [of "a + i" "a + j" m] by simp
  then have "m dvd j - i" by simp
  with assms show ?thesis by (auto dest: dvd_imp_le)
qed

lemma get_many_apart:
  assumes "n \<le> seq_period"
  shows "distinct (get_many n s) \<and> k_invalid_rpc_sequence_id \<notin> set (get_many n s)"
proof
  have "i = j" if "i < n" "j < n" "get_many n s ! i = get_many n s ! j" for i j
  proof -
    have "(unat s + i) mod seq_period = (unat s + j) mod seq_period"
      using that get_many_nth [of i n s] get_many_nth [of j n s] by simp
    then show ?thesis
      using that assms mod_shift_inj [of i j seq_period "unat s"]
        mod_shift_inj [of j i seq_period "unat s"] by (cases "i \<le> j") auto
  qed
  then show "distinct (get_many n s)" by (auto simp: distinct_conv_nth)
  have "unat i \<noteq> 0" if "i \<in> set (get_many n s)" for i
    using that get_many_nth by (auto simp: in_set_conv_nth)
  then show "k_invalid_rpc_sequence_id \<notin> set (get_many n s)"
    by (metis k_invalid_rpc_sequence_id_def unat_0)
qed

text \<open>
  C29: a caller gets \<open>2\<^sup>3\<^sup>2 - 1\<close> ids before one repeats, also across the wrap-around of the
  counter, and none of them is the invalid id.
\<close>

theorem get_many_distinct:
  assumes "n \<le> seq_period"
  shows "distinct (get_many n s) \<and> k_invalid_rpc_sequence_id \<notin> set (get_many n s)"
  using assms by (rule get_many_apart)

theorem get_many_distinct_witness:
  "get_many 3 (2 ^ 32 - 2) = [2 ^ 32 - 1, 1, 2]
   \<and> distinct (get_many 3 (2 ^ 32 - 2))
   \<and> k_invalid_rpc_sequence_id \<notin> set (get_many 3 (2 ^ 32 - 2))"
proof -
  have "get_many 3 (2 ^ 32 - 2) = [2 ^ 32 - 1, 1, 2]"
    by (simp add: numeral_3_eq_3 get_def k_invalid_rpc_sequence_id_def)
  moreover have "(3 :: nat) \<le> seq_period" by (simp add: seq_period_def)
  ultimately show ?thesis using get_many_distinct [of 3 "2 ^ 32 - 2"] by simp
qed

section \<open>Several threads\<close>

text \<open>
  \<^verbatim>\<open>get\<close> is not one atomic step: it is an increment, a test of a second load of the counter, a
  second increment when that load was the invalid id, and a third load that is returned.  A
  thread is at one of the four points in between; \<open>returned\<close> is the history of the ids handed
  out, newest first.
\<close>

datatype point = Outside | Incremented | Invalid | Returning

record counter_state =
  counter :: rpc_sequence_id
  points :: "nat \<Rightarrow> point"
  returned :: "(nat \<times> rpc_sequence_id) list"

definition init_counter :: counter_state where
  "init_counter = \<lparr>counter = k_invalid_rpc_sequence_id, points = (\<lambda>_. Outside), returned = []\<rparr>"

inductive get_step :: "counter_state \<Rightarrow> counter_state \<Rightarrow> bool" where
  increment: "points s t = Outside \<Longrightarrow>
     get_step s (s\<lparr>counter := counter s + 1, points := (points s)(t := Incremented)\<rparr>)"
| test_valid: "points s t = Incremented \<Longrightarrow> counter s \<noteq> k_invalid_rpc_sequence_id \<Longrightarrow>
     get_step s (s\<lparr>points := (points s)(t := Returning)\<rparr>)"
| test_invalid: "points s t = Incremented \<Longrightarrow> counter s = k_invalid_rpc_sequence_id \<Longrightarrow>
     get_step s (s\<lparr>points := (points s)(t := Invalid)\<rparr>)"
| skip_invalid: "points s t = Invalid \<Longrightarrow>
     get_step s (s\<lparr>counter := counter s + 1, points := (points s)(t := Returning)\<rparr>)"
| hand_out: "points s t = Returning \<Longrightarrow>
     get_step s (s\<lparr>points := (points s)(t := Outside), returned := (t, counter s) # returned s\<rparr>)"

text \<open>Runs, with the number of increments made so far.\<close>

inductive get_run :: "nat \<Rightarrow> counter_state \<Rightarrow> bool" where
  run_start: "get_run 0 init_counter"
| run_step: "get_run n s \<Longrightarrow> get_step s s' \<Longrightarrow> counter s' = counter s + 1 \<Longrightarrow> get_run (Suc n) s'"
| run_idle: "get_run n s \<Longrightarrow> get_step s s' \<Longrightarrow> counter s' = counter s \<Longrightarrow> get_run n s'"

definition ids_of :: "nat \<Rightarrow> counter_state \<Rightarrow> rpc_sequence_id list" where
  "ids_of t s = map snd (filter (\<lambda>(t', _). t' = t) (returned s))"


definition thread_ok :: "nat \<Rightarrow> point \<Rightarrow> rpc_sequence_id list \<Rightarrow> bool" where
  "thread_ok n p ids \<longleftrightarrow>
     p \<noteq> Invalid \<and> (p \<noteq> Outside \<longrightarrow> 0 < n \<and> (\<forall>i \<in> set ids. unat i < n))
     \<and> (\<forall>i \<in> set ids. 0 < unat i \<and> unat i \<le> n) \<and> sorted_wrt (\<lambda>i j. unat j < unat i) ids"

definition counter_inv :: "nat \<Rightarrow> counter_state \<Rightarrow> bool" where
  "counter_inv n s \<longleftrightarrow> unat (counter s) = n \<and> (\<forall>t. thread_ok n (points s t) (ids_of t s))"

lemma thread_ok_later: "thread_ok n p ids \<Longrightarrow> thread_ok (Suc n) p ids"
  by (auto simp: thread_ok_def intro: less_SucI le_SucI)

lemma thread_ok_increment: "thread_ok n Outside ids \<Longrightarrow> thread_ok (Suc n) Incremented ids"
  by (auto simp: thread_ok_def less_Suc_eq_le intro: le_SucI)

lemma thread_ok_tested: "thread_ok n Incremented ids \<Longrightarrow> thread_ok n Returning ids"
  by (simp add: thread_ok_def)

lemma thread_ok_hand_out: "thread_ok (unat c) Returning ids \<Longrightarrow> thread_ok (unat c) Outside (c # ids)"
  by (simp add: thread_ok_def)

lemma counter_inv_init: "counter_inv 0 init_counter"
  by (simp add: counter_inv_def init_counter_def ids_of_def thread_ok_def k_invalid_rpc_sequence_id_def)

lemma ids_of_update [simp]:
  "ids_of t (s\<lparr>points := p\<rparr>) = ids_of t s"
  "ids_of t (s\<lparr>counter := c\<rparr>) = ids_of t s"
  "ids_of t (s\<lparr>points := p, returned := (u, c) # returned s\<rparr>) = (if t = u then c # ids_of t s else ids_of t s)"
  by (simp_all add: ids_of_def)

lemma unat_suc: "Suc (unat w) < 2 ^ 32 \<Longrightarrow> unat (w + 1) = Suc (unat w)" for w :: "32 word"
  by (simp add: unat_word_ariths)

lemma counter_inv_moved:
  assumes "get_step s s'" and "counter s' = counter s + 1" and inv: "counter_inv n s"
    and "Suc n < 2 ^ 32"
  shows "counter_inv (Suc n) s'"
  using assms(1)
proof (cases rule: get_step.cases)
  case (increment t)
  then show ?thesis using inv assms(4) unat_suc [of "counter s"] thread_ok_increment
    by (auto simp: counter_inv_def thread_ok_later) metis
next
  case (skip_invalid t)
  then show ?thesis using inv by (auto simp: counter_inv_def thread_ok_def)
qed (use assms(2) in auto)

lemma counter_inv_still:
  assumes "get_step s s'" and "counter s' = counter s" and inv: "counter_inv n s"
  shows "counter_inv n s'"
  using assms(1)
proof (cases rule: get_step.cases)
  case (test_valid t)
  then show ?thesis using inv thread_ok_tested by (auto simp: counter_inv_def) metis
next
  case (test_invalid t)
  then show ?thesis using inv
    by (auto simp: counter_inv_def thread_ok_def k_invalid_rpc_sequence_id_def dest!: spec [of _ t])
next
  case (hand_out t)
  then show ?thesis using inv thread_ok_hand_out by (auto simp: counter_inv_def) metis
qed (use assms(2) in auto)

lemma get_run_inv: "get_run n s \<Longrightarrow> n < 2 ^ 32 \<Longrightarrow> counter_inv n s"
proof (induction rule: get_run.induct)
  case run_start
  show ?case by (rule counter_inv_init)
next
  case (run_step n s s')
  then show ?case by (auto intro: counter_inv_moved)
next
  case (run_idle n s s')
  then show ?case by (auto intro: counter_inv_still)
qed

lemma sorted_unat_distinct: "sorted_wrt (\<lambda>i j. unat j < unat i) xs \<Longrightarrow> distinct xs"
  for xs :: "'a::len word list"
  by (induction xs) auto

text \<open>
  C30: whatever the interleaving, as long as the counter has not wrapped around, each thread is
  handed strictly increasing valid ids, which is what its thread-local table of response
  handlers needs.
\<close>

theorem thread_ids_increase:
  assumes "get_run n s" and "n < 2 ^ 32"
  shows "distinct (ids_of t s) \<and> k_invalid_rpc_sequence_id \<notin> set (ids_of t s)
    \<and> sorted_wrt (\<lambda>i j. unat j < unat i) (ids_of t s)"
proof -
  have sorted: "sorted_wrt (\<lambda>i j. unat j < unat i) (ids_of t s)"
    and "\<forall>i \<in> set (ids_of t s). 0 < unat i"
    using get_run_inv [OF assms] by (simp_all add: counter_inv_def thread_ok_def)
  then show ?thesis
    using sorted_unat_distinct [OF sorted] by (force simp: k_invalid_rpc_sequence_id_def)
qed

theorem thread_ids_increase_witness:
  "\<exists>s. get_run 1 s \<and> ids_of 0 s = [1] \<and> distinct (ids_of 0 s)"
proof -
  define s1 where "s1 = init_counter\<lparr>counter := counter init_counter + 1,
    points := (points init_counter)(0 := Incremented)\<rparr>"
  define s2 where "s2 = s1\<lparr>points := (points s1)(0 := Returning)\<rparr>"
  define s3 where "s3 = s2\<lparr>points := (points s2)(0 := Outside), returned := (0, counter s2) # returned s2\<rparr>"
  have "get_run 1 s1"
    unfolding One_nat_def s1_def
    by (rule run_step [OF run_start]) (rule increment, simp_all add: init_counter_def)
  then have "get_run 1 s2"
    unfolding s2_def
    by (rule run_idle) (rule test_valid, simp_all add: s1_def init_counter_def k_invalid_rpc_sequence_id_def)
  then have run: "get_run 1 s3"
    unfolding s3_def by (rule run_idle) (rule hand_out, simp_all add: s2_def s1_def)
  have "ids_of 0 s3 = [1]"
    by (simp add: s3_def s2_def s1_def init_counter_def ids_of_def k_invalid_rpc_sequence_id_def)
  with run thread_ids_increase [OF run, of 0] show ?thesis by auto
qed

text \<open>
  C36: ids are not unique across threads.  When a second thread increments the counter between
  the first thread's increment and its final load, both are handed the same id.
\<close>

theorem threads_share_an_id:
  "\<exists>n s i. get_run n s \<and> i \<in> set (ids_of 0 s) \<and> i \<in> set (ids_of 1 s)"
proof -
  define upd where "upd t p s = s\<lparr>points := (points s)(t := p)\<rparr>" for t p and s :: counter_state
  define inc where "inc t s = (upd t Incremented s)\<lparr>counter := counter s + 1\<rparr>"
    for t and s :: counter_state
  define out where "out t s = (upd t Outside s)\<lparr>returned := (t, counter s) # returned s\<rparr>"
    for t and s :: counter_state
  note defs = upd_def inc_def out_def init_counter_def k_invalid_rpc_sequence_id_def
  let ?s1 = "inc 0 init_counter"
  let ?s2 = "inc 1 ?s1"
  let ?s3 = "upd 0 Returning ?s2"
  let ?s4 = "upd 1 Returning ?s3"
  let ?s5 = "out 0 ?s4"
  let ?s6 = "out 1 ?s5"
  have "get_step init_counter ?s1" using increment [of init_counter 0] by (simp add: defs)
  then have "get_run (Suc 0) ?s1" by (rule run_step [OF run_start]) (simp add: defs)
  moreover have "get_step ?s1 ?s2" using increment [of ?s1 1] by (simp add: defs)
  ultimately have "get_run (Suc (Suc 0)) ?s2" by (rule run_step) (simp add: defs)
  moreover have "get_step ?s2 ?s3" using test_valid [of ?s2 0] by (simp add: defs)
  ultimately have "get_run (Suc (Suc 0)) ?s3" by (rule run_idle) (simp add: defs)
  moreover have "get_step ?s3 ?s4" using test_valid [of ?s3 1] by (simp add: defs)
  ultimately have "get_run (Suc (Suc 0)) ?s4" by (rule run_idle) (simp add: defs)
  moreover have "get_step ?s4 ?s5" using hand_out [of ?s4 0] by (simp add: defs)
  ultimately have "get_run (Suc (Suc 0)) ?s5" by (rule run_idle) (simp add: defs)
  moreover have "get_step ?s5 ?s6" using hand_out [of ?s5 1] by (simp add: defs)
  ultimately have "get_run (Suc (Suc 0)) ?s6" by (rule run_idle) (simp add: defs)
  moreover have "2 \<in> set (ids_of 0 ?s6)" and "2 \<in> set (ids_of 1 ?s6)"
    by (simp_all add: defs ids_of_def)
  ultimately show ?thesis by blast
qed

end
