(* ===== verification/Config.thy ===== *)
theory Config
  imports Types
begin

text \<open>
  \<^verbatim>\<open>adapter/config.h\<close> and \<^verbatim>\<open>config.cpp\<close>: the adapters and message ids a thread works with, and
  the switch between one configuration for the process and one per thread.
\<close>

section \<open>The configuration\<close>

text \<open>Adapters are pointers to objects of the embedding program; \<open>None\<close> is the null pointer.\<close>

record config =
  msg_channel :: "nat option"
  timer_adapter :: "nat option"
  service_register :: "nat option"
  logger :: "nat option"
  request_msg_id :: "16 word"
  response_msg_id :: "16 word"
  set_timer_msg_id :: "16 word"
  timeout_msg_id :: "16 word"
  schedule_task_on_main_thread_msg_id :: "16 word"

definition default_config :: config where
  "default_config =
     \<lparr>msg_channel = None, timer_adapter = None, service_register = None, logger = None,
      request_msg_id = 0, response_msg_id = 0, set_timer_msg_id = 0, timeout_msg_id = 0,
      schedule_task_on_main_thread_msg_id = 0\<rparr>"

record config_store =
  thread_local_mode :: bool
  global_instance :: config
  thread_local_instance :: "nat \<Rightarrow> config"

definition initial_configs :: config_store where
  "initial_configs =
     \<lparr>thread_local_mode = False, global_instance = default_config,
      thread_local_instance = (\<lambda>_. default_config)\<rparr>"

definition switch_into_thread_local_mode :: "config_store \<Rightarrow> config_store" where
  "switch_into_thread_local_mode s = s\<lparr>thread_local_mode := True\<rparr>"

definition is_thread_local_mode :: "config_store \<Rightarrow> bool" where
  "is_thread_local_mode s = thread_local_mode s"

definition config_instance :: "nat \<Rightarrow> config_store \<Rightarrow> config" where
  "config_instance t s =
     (if thread_local_mode s then thread_local_instance s t else global_instance s)"

text \<open>Writing through the reference \<^verbatim>\<open>Config::instance()\<close> of thread \<open>t\<close>.\<close>

definition set_instance :: "nat \<Rightarrow> config \<Rightarrow> config_store \<Rightarrow> config_store" where
  "set_instance t c s =
     (if thread_local_mode s
      then s\<lparr>thread_local_instance := (thread_local_instance s)(t := c)\<rparr>
      else s\<lparr>global_instance := c\<rparr>)"

definition init_with ::
  "nat option \<Rightarrow> nat option \<Rightarrow> nat option \<Rightarrow> nat option \<Rightarrow> 16 word \<Rightarrow> 16 word \<Rightarrow> 16 word \<Rightarrow> 16 word
   \<Rightarrow> 16 word \<Rightarrow> config \<Rightarrow> fault + config" where
  "init_with channel timer register log request response set_timer timeout schedule c =
     (if channel \<noteq> None \<and> timer \<noteq> None \<and> register \<noteq> None
      then Inr (c\<lparr>msg_channel := channel, timer_adapter := timer, service_register := register,
                  logger := log, request_msg_id := request, response_msg_id := response,
                  set_timer_msg_id := set_timer, timeout_msg_id := timeout,
                  schedule_task_on_main_thread_msg_id := schedule\<rparr>)
      else Inl (AssertFailed ''msg_channel != nullptr && timer != nullptr && service_register != nullptr''))"

definition init_instance ::
  "nat \<Rightarrow> nat option \<Rightarrow> nat option \<Rightarrow> nat option \<Rightarrow> nat option \<Rightarrow> 16 word \<Rightarrow> 16 word \<Rightarrow> 16 word \<Rightarrow> 16 word
   \<Rightarrow> 16 word \<Rightarrow> config_store \<Rightarrow> fault + config_store" where
  "init_instance t channel timer register log request response set_timer timeout schedule s =
     bindR (init_with channel timer register log request response set_timer timeout schedule
              (config_instance t s))
       (\<lambda>c. Inr (set_instance t c s))"

section \<open>Lemmas\<close>

lemma config_instance_set [simp]: "config_instance t (set_instance t c s) = c"
  by (simp add: config_instance_def set_instance_def)

lemma config_instance_set_other:
  "t \<noteq> u \<Longrightarrow> config_instance u (set_instance t c s)
     = (if is_thread_local_mode s then config_instance u s else c)"
  by (simp add: config_instance_def set_instance_def is_thread_local_mode_def)

lemma init_with_ok:
  "init_with channel timer register log request response set_timer timeout schedule c = Inr c' \<Longrightarrow>
   msg_channel c' = channel \<and> timer_adapter c' = timer \<and> service_register c' = register
   \<and> channel \<noteq> None \<and> timer \<noteq> None \<and> register \<noteq> None
   \<and> request_msg_id c' = request \<and> response_msg_id c' = response \<and> timeout_msg_id c' = timeout
   \<and> set_timer_msg_id c' = set_timer \<and> schedule_task_on_main_thread_msg_id c' = schedule"
  by (auto simp: init_with_def split: if_splits)

text \<open>
  Initialising a thread's configuration succeeds exactly when the three mandatory adapters are
  given; it is then what that thread sees, and another thread sees it too exactly when the process
  is not in thread-local mode.
\<close>

lemma init_instance_scope:
  assumes "channel \<noteq> None" and "timer \<noteq> None" and "register \<noteq> None"
  shows "\<exists>s'. init_instance t channel timer register log a b c d e s = Inr s'
    \<and> msg_channel (config_instance t s') = channel
    \<and> request_msg_id (config_instance t s') = a \<and> response_msg_id (config_instance t s') = b
    \<and> (\<forall>u. u \<noteq> t \<longrightarrow> config_instance u s'
         = (if is_thread_local_mode s then config_instance u s else config_instance t s'))"
  using assms
  by (auto simp: init_instance_def init_with_def config_instance_set_other)

end
