(* ===== verification/Runtime.thy ===== *)
theory Runtime
  imports Types SeqId Config
begin

text \<open>
  The state one msgrpc thread works on: a heap of cells and actions (\<^verbatim>\<open>cell/*.h\<close>), the
  contexts that own them, the table of response handlers, the id counter, and what was sent to
  the outside.  The code reaches its objects through raw pointers, so objects live in an explicit
  store and touching one that was deleted is a fault.

  User code enters as functions: the logic of a derived cell and the function that starts an rpc
  read the states of the cells they depend on and say what to do.
\<close>

section \<open>Cells\<close>

type_synonym addr = nat
type_synonym ctx_id = nat

text \<open>A cell holds a response of some message type, or a \<^verbatim>\<open>bool\<close> (\<^verbatim>\<open>CellBase<bool>\<close>).\<close>

datatype 'v cval = Rsp 'v | Flag bool

text \<open>
  \<^verbatim>\<open>CellStatus\<close>: \<open>cell_value\<close> is \<open>None\<close> until \<^verbatim>\<open>has_value_\<close> is set, together with the value, for good.
\<close>

record 'v cell_state =
  cell_value :: "'v cval option"
  cell_status :: rpc_result

definition empty_state :: "'v cell_state" where
  "empty_state = \<lparr>cell_value = None, cell_status = Succeeded\<rparr>"

definition failed_reason :: "'v cell_state \<Rightarrow> rpc_result" where
  "failed_reason c = cell_status c"

definition is_timeout :: "'v cell_state \<Rightarrow> bool" where
  "is_timeout c \<longleftrightarrow> cell_status c = TimedOut"

definition has_error :: "'v cell_state \<Rightarrow> bool" where
  "has_error c \<longleftrightarrow> cell_status c \<noteq> Succeeded"

definition has_value :: "'v cell_state \<Rightarrow> bool" where
  "has_value c \<longleftrightarrow> cell_value c \<noteq> None"

definition has_value_or_error :: "'v cell_state \<Rightarrow> bool" where
  "has_value_or_error c \<longleftrightarrow> has_value c \<or> has_error c"

definition is_empty_cell :: "'v cell_state \<Rightarrow> bool" where
  "is_empty_cell c \<longleftrightarrow> \<not> has_value_or_error c"

text \<open>
  What the logic of a derived cell asks for: at most one of \<^verbatim>\<open>set_value\<close>, \<^verbatim>\<open>set_failed_reason\<close>
  and \<^verbatim>\<open>set_cell_value\<close> (the state copied is that of one of the cells it was given).
\<close>

datatype 'v outcome_request =
    SetValue "'v cval"
  | SetFailedReason rpc_result
  | SetCellValue "'v cell_state"

type_synonym 'v logic = "'v cell_state list \<Rightarrow> 'v outcome_request option"

text \<open>
  What the function given to \<^verbatim>\<open>___rpc\<close> and \<^verbatim>\<open>___rpcex\<close> does: return no cell yet, return
  \<^verbatim>\<open>failed_cell_with_reason\<close>, or call a stub method, that is \<^verbatim>\<open>encode_request_and_send\<close> with a
  service name, interface, method, response type and request.
\<close>

datatype 'v rpc_start =
    Deferred
  | FailedCell rpc_result
  | CallRpc string "16 word" "8 word" string 'v

type_synonym 'v rpc_fun = "'v cell_state list \<Rightarrow> 'v rpc_start"

record 'v timeout_info =
  ti_ctxt :: ctx_id
  timeout_ms :: int
  retry_times :: nat
  rpc_fun :: "'v rpc_fun"
  rpc_args :: "addr list"
  is_rpc_started :: bool
  timeout_cell :: "addr option"

datatype 'v kind =
    PlainCell
  | FlagCell
  | DerivedCell "'v logic" "addr list"
  | TimeoutCell "'v timeout_info"
  | AsyncCell ctx_id "'v rpc_fun" "addr list"

text \<open>
  One record for \<^verbatim>\<open>Cell<T>\<close> and its subclasses: the parts \<^verbatim>\<open>CellStatus\<close>, \<^verbatim>\<open>CellContextBase\<close> and
  \<^verbatim>\<open>RspCellBase\<close>, the name of the response type \<open>T\<close> and what the subclass adds.
\<close>

record 'v cell =
  cstate :: "'v cell_state"
  updatables :: "addr list"
  bound_context :: "ctx_id option"
  has_seq_id :: bool
  seq_id :: rpc_sequence_id
  cell_type :: string
  kind :: "'v kind"

definition new_cell :: "string \<Rightarrow> 'v kind \<Rightarrow> 'v cell" where
  "new_cell ty k =
     \<lparr>cstate = empty_state, updatables = [], bound_context = None, has_seq_id = False, seq_id = 0,
      cell_type = ty, kind = k\<rparr>"

section \<open>Actions\<close>

text \<open>
  \<^verbatim>\<open>DerivedAction\<close>.  Its logic is the user's (recorded by a number), the lambda that
  \<^verbatim>\<open>TimeoutCell::bind_timeout_cell\<close> or \<^verbatim>\<open>DerivedAsyncCell::update\<close> passes, or the lambda of
  \<^verbatim>\<open>invoke_templated_method\<close> that sends the response.
\<close>

datatype action_logic =
    UserAction nat
  | BindTimeout addr
  | BindAsync addr
  | SendRsp service_id rsp_msg_header

record action =
  is_final_action :: bool
  act_cell :: "addr option"
  act_logic :: action_logic
  act_args :: "addr list"

datatype 'v obj = CellObj "'v cell" | ActionObj action

record ctx =
  release_list :: "addr list"
  ctx_resolver :: "nat option"

section \<open>The environment and the runtime state\<close>

text \<open>What the process did to the outside, oldest first; the flag is the result of the send.\<close>

datatype 'v event =
    Sent service_id "16 word" bytes bool
  | SentToSelf "16 word" bytes bool
  | TimerSet int "16 word" rpc_sequence_id
  | TimerCancelled "16 word" rpc_sequence_id
  | ActionRun nat "'v cell_state list"

text \<open>
  What the code gets from outside: its configuration, the thrift library behind
  \<^verbatim>\<open>read\<close> and \<^verbatim>\<open>write\<close> of a struct (with the number of bytes the library counts), the resolvers
  with the state they keep, the channel's and the allocator's answers, the padding bytes, and the
  layout of \<^verbatim>\<open>timer_info\<close>, which holds a Boost endpoint: \<open>cast_timer_info\<close> reads its \<^verbatim>\<open>user_data_\<close>
  when the length is right.
\<close>

record ('v, 'r) env =
  env_config :: config
  thrift_write :: "'v \<Rightarrow> bytes option"
  thrift_read :: "string \<Rightarrow> bytes \<Rightarrow> ('v \<times> nat) option"
  resolve :: "nat \<Rightarrow> string \<Rightarrow> bytes \<Rightarrow> 'r \<Rightarrow> service_id option \<times> 'r"
  thrift_default_size :: nat
  malloc_ok :: "nat \<Rightarrow> bool"
  channel_ok :: "service_id \<Rightarrow> 16 word \<Rightarrow> bytes \<Rightarrow> bool"
  self_channel_ok :: "16 word \<Rightarrow> bytes \<Rightarrow> bool"
  stack_pad :: "byte \<times> byte"
  cast_timer_info :: "bytes \<Rightarrow> 64 word option"

record ('v, 'r) rt =
  heap :: "addr \<rightharpoonup> 'v obj"
  next_addr :: addr
  ctxs :: "ctx_id \<rightharpoonup> ctx"
  next_ctx :: ctx_id
  seq_counter :: rpc_sequence_id
  id_func_map :: "rpc_sequence_id \<rightharpoonup> addr"
  register_state :: 'r
  should_reset_to_default_size :: bool
  tasks :: "64 word \<rightharpoonup> nat"
  next_task :: "64 word"
  trace :: "'v event list"

definition initial_rt :: "'r \<Rightarrow> ('v, 'r) rt" where
  "initial_rt r =
     \<lparr>heap = Map.empty, next_addr = 0, ctxs = Map.empty, next_ctx = 0,
      seq_counter = k_invalid_rpc_sequence_id, id_func_map = Map.empty, register_state = r,
      should_reset_to_default_size = False, tasks = Map.empty, next_task = 0, trace = []\<rparr>"

type_synonym ('v, 'r) res = "fault + ('v, 'r) rt"

section \<open>Access to the store\<close>

definition emit :: "'v event \<Rightarrow> ('v, 'r) rt \<Rightarrow> ('v, 'r) rt" where
  "emit e rt = rt\<lparr>trace := trace rt @ [e]\<rparr>"

definition with_cell :: "addr \<Rightarrow> ('v, 'r) rt \<Rightarrow> ('v cell \<Rightarrow> fault + 'b) \<Rightarrow> fault + 'b" where
  "with_cell a rt k = (case heap rt a of Some (CellObj c) \<Rightarrow> k c | _ \<Rightarrow> Inl (UseAfterFree a))"

definition with_timeout_cell ::
  "addr \<Rightarrow> ('v, 'r) rt \<Rightarrow> ('v cell \<Rightarrow> 'v timeout_info \<Rightarrow> fault + 'b) \<Rightarrow> fault + 'b" where
  "with_timeout_cell a rt k =
     with_cell a rt (\<lambda>c. case kind c of TimeoutCell ti \<Rightarrow> k c ti | _ \<Rightarrow> Inl (UseAfterFree a))"

definition put_cell :: "addr \<Rightarrow> 'v cell \<Rightarrow> ('v, 'r) rt \<Rightarrow> ('v, 'r) rt" where
  "put_cell a c rt = rt\<lparr>heap := (heap rt)(a \<mapsto> CellObj c)\<rparr>"

definition put_action :: "addr \<Rightarrow> action \<Rightarrow> ('v, 'r) rt \<Rightarrow> ('v, 'r) rt" where
  "put_action a x rt = rt\<lparr>heap := (heap rt)(a \<mapsto> ActionObj x)\<rparr>"

text \<open>\<^verbatim>\<open>new\<close>: addresses are handed out in order and never again.\<close>

definition alloc :: "'v obj \<Rightarrow> ('v, 'r) rt \<Rightarrow> addr \<times> ('v, 'r) rt" where
  "alloc ob rt = (next_addr rt, rt\<lparr>heap := (heap rt)(next_addr rt \<mapsto> ob), next_addr := Suc (next_addr rt)\<rparr>)"

definition free_obj :: "addr \<Rightarrow> ('v, 'r) rt \<Rightarrow> ('v, 'r) rt" where
  "free_obj a rt = rt\<lparr>heap := (heap rt)(a := None)\<rparr>"

definition new_ctx :: "nat option \<Rightarrow> ('v, 'r) rt \<Rightarrow> ctx_id \<times> ('v, 'r) rt" where
  "new_ctx r rt =
     (next_ctx rt, rt\<lparr>ctxs := (ctxs rt)(next_ctx rt \<mapsto> \<lparr>release_list = [], ctx_resolver = r\<rparr>),
                      next_ctx := Suc (next_ctx rt)\<rparr>)"

text \<open>\<^verbatim>\<open>RpcContext::track\<close>; a context that was deleted is reported by its number.\<close>

definition track :: "ctx_id \<Rightarrow> addr \<Rightarrow> ('v, 'r) rt \<Rightarrow> ('v, 'r) res" where
  "track k a rt =
     (case ctxs rt k of
        None \<Rightarrow> Inl (UseAfterFree k)
      | Some x \<Rightarrow> Inr (rt\<lparr>ctxs := (ctxs rt)(k \<mapsto> x\<lparr>release_list := release_list x @ [a]\<rparr>)\<rparr>))"

text \<open>The states of the cells a callback is given by reference.\<close>

fun read_args :: "addr list \<Rightarrow> ('v, 'r) rt \<Rightarrow> fault + 'v cell_state list" where
  "read_args [] rt = Inr []"
| "read_args (a # as) rt =
     with_cell a rt (\<lambda>c. bindR (read_args as rt) (\<lambda>ss. Inr (cstate c # ss)))"

definition update_timeout_info ::
  "addr \<Rightarrow> ('v timeout_info \<Rightarrow> 'v timeout_info) \<Rightarrow> ('v, 'r) rt \<Rightarrow> ('v, 'r) res" where
  "update_timeout_info a f rt =
     with_timeout_cell a rt (\<lambda>c ti. Inr (put_cell a (c\<lparr>kind := TimeoutCell (f ti)\<rparr>) rt))"

section \<open>A concrete environment\<close>

text \<open>
  Used by the examples only: messages are byte strings that thrift copies, one service is known at
  a fixed endpoint, and nothing fails.
\<close>

definition sample_config :: config where
  "sample_config =
     \<lparr>msg_channel = Some 1, timer_adapter = Some 2, service_register = Some 3, logger = Some 4,
      request_msg_id = 101, response_msg_id = 102, set_timer_msg_id = 103, timeout_msg_id = 104,
      schedule_task_on_main_thread_msg_id = 105\<rparr>"

definition sample_env :: "(bytes, unit) env" where
  "sample_env =
     \<lparr>env_config = sample_config, thrift_write = Some, thrift_read = (\<lambda>ty bs. Some (bs, length bs)),
      resolve = (\<lambda>r name mem s. (if name = ''service_y'' then Some (Endpoint 1 7777) else None, s)),
      thrift_default_size = 1024, malloc_ok = (\<lambda>n. True), channel_ok = (\<lambda>sid m bs. True),
      self_channel_ok = (\<lambda>m bs. True), stack_pad = (0, 0),
      cast_timer_info = (\<lambda>bs. if length bs = 4 then Some (ucast (un32 (bs ! 0) (bs ! 1) (bs ! 2) (bs ! 3))) else None)\<rparr>"

end
