(* ===== verification/Registry.thy ===== *)
theory Registry
  imports Runtime
begin

text \<open>
  The table of pending responses of \<^verbatim>\<open>RspMsgHandler\<close> (\<^verbatim>\<open>id_func_map_\<close>), the id a cell carries
  while it is in the table (\<^verbatim>\<open>RspCellBase\<close>), and the invariant that ties the two together.  Also
  the log macro, whose only effect in the model is that it dereferences the configured logger.
\<close>

section \<open>Logging\<close>

definition msgrpc_log :: "('v, 'r) env \<Rightarrow> ('v, 'r) rt \<Rightarrow> ('v, 'r) res" where
  "msgrpc_log E rt = (case logger (env_config E) of None \<Rightarrow> Inl NullDeref | Some _ \<Rightarrow> Inr rt)"

lemma outcome_log [outcome_rules]: "I rt \<Longrightarrow> Er NullDeref \<Longrightarrow> outcome I Er (msgrpc_log E rt)"
  by (simp add: msgrpc_log_def split: option.split)

section \<open>RspCellBase\<close>

definition reset_sequential_id :: "addr \<Rightarrow> ('v, 'r) rt \<Rightarrow> ('v, 'r) res" where
  "reset_sequential_id a rt = with_cell a rt (\<lambda>c. Inr (put_cell a (c\<lparr>has_seq_id := False\<rparr>) rt))"

definition set_sequential_id :: "addr \<Rightarrow> rpc_sequence_id \<Rightarrow> ('v, 'r) rt \<Rightarrow> ('v, 'r) res" where
  "set_sequential_id a s rt =
     with_cell a rt (\<lambda>c. Inr (put_cell a (c\<lparr>seq_id := s, has_seq_id := True\<rparr>) rt))"

section \<open>The table of RspMsgHandler\<close>

definition erase_handler :: "rpc_sequence_id \<Rightarrow> ('v, 'r) rt \<Rightarrow> ('v, 'r) rt" where
  "erase_handler s rt = rt\<lparr>id_func_map := (id_func_map rt)(s := None)\<rparr>"

definition remove_rsp_handler ::
  "('v, 'r) env \<Rightarrow> rpc_sequence_id \<Rightarrow> ('v, 'r) rt \<Rightarrow> ('v, 'r) res" where
  "remove_rsp_handler E s rt =
     (case id_func_map rt s of
        None \<Rightarrow> msgrpc_log E rt
      | Some _ \<Rightarrow> Inr (erase_handler s rt))"

definition register_rsp_Handler ::
  "rpc_sequence_id \<Rightarrow> addr \<Rightarrow> ('v, 'r) rt \<Rightarrow> ('v, 'r) res" where
  "register_rsp_Handler s sink rt =
     (if id_func_map rt s = None
      then set_sequential_id sink s (rt\<lparr>id_func_map := (id_func_map rt)(s \<mapsto> sink)\<rparr>)
      else Inl (AssertFailed ''should register with unique id.''))"

definition delete_rsp_handler_if_exist ::
  "rpc_sequence_id \<Rightarrow> ('v, 'r) rt \<Rightarrow> ('v, 'r) res" where
  "delete_rsp_handler_if_exist s rt =
     (case id_func_map rt s of
        None \<Rightarrow> Inr rt
      | Some a \<Rightarrow> bindR (reset_sequential_id a rt) (\<lambda>rt. Inr (erase_handler s rt)))"

section \<open>The table and the cells agree\<close>

text \<open>
  An id is in the table with a cell exactly when that cell is alive and carries the id.  The
  set \<open>X\<close> holds the entries whose cell is being deleted and that its destructor is about to
  remove; outside a destructor it is empty.
\<close>

fun carried_id :: "'v obj option \<Rightarrow> rpc_sequence_id option" where
  "carried_id (Some (CellObj c)) = (if has_seq_id c then Some (seq_id c) else None)"
| "carried_id _ = None"

definition handlers_ok_but :: "(rpc_sequence_id \<times> addr) set \<Rightarrow> ('v, 'r) rt \<Rightarrow> bool" where
  "handlers_ok_but X rt \<longleftrightarrow>
     (\<forall>s a. id_func_map rt s = Some a \<longleftrightarrow> carried_id (heap rt a) = Some s \<or> (s, a) \<in> X)
     \<and> (\<forall>(s, a) \<in> X. heap rt a = None)"

abbreviation handlers_ok :: "('v, 'r) rt \<Rightarrow> bool" where
  "handlers_ok \<equiv> handlers_ok_but {}"

text \<open>No object at an address not yet handed out, and only plain cells wait for a response.\<close>

definition id_only_plain :: "'v cell \<Rightarrow> bool" where
  "id_only_plain c \<longleftrightarrow> (has_seq_id c \<longrightarrow> (case kind c of PlainCell \<Rightarrow> True | _ \<Rightarrow> False))"

definition heap_ok :: "('v, 'r) rt \<Rightarrow> bool" where
  "heap_ok rt \<longleftrightarrow>
     (\<forall>a. next_addr rt \<le> a \<longrightarrow> heap rt a = None)
     \<and> (\<forall>a c. heap rt a = Some (CellObj c) \<longrightarrow> id_only_plain c)"

definition rt_ok :: "('v, 'r) rt \<Rightarrow> bool" where
  "rt_ok rt \<longleftrightarrow> handlers_ok rt \<and> heap_ok rt"

lemma object_cases [case_names dead cell action]:
  obtains "x = None" | c where "x = Some (CellObj c)" | y where "x = Some (ActionObj y)"
  by (cases x rule: carried_id.cases) auto

lemma carried_id_Some:
  "carried_id x = Some s \<longleftrightarrow> (\<exists>c. x = Some (CellObj c) \<and> has_seq_id c \<and> seq_id c = s)"
  by (cases x rule: carried_id.cases) auto

lemma handlers_ok_iff: "handlers_ok rt \<longleftrightarrow> (\<forall>s a. id_func_map rt s = Some a \<longleftrightarrow> carried_id (heap rt a) = Some s)"
  by (simp add: handlers_ok_but_def)

lemma handlers_okI:
  "(\<And>s a. id_func_map rt s = Some a \<longleftrightarrow> carried_id (heap rt a) = Some s) \<Longrightarrow> handlers_ok rt"
  by (simp add: handlers_ok_but_def)

lemma handlers_okI_via:
  "(\<And>b t. carried_id (heap rt b) = Some t \<longleftrightarrow> P b t) \<Longrightarrow> (\<And>b t. id_func_map rt t = Some b \<longleftrightarrow> P b t)
   \<Longrightarrow> handlers_ok rt"
  by (simp add: handlers_ok_but_def)

lemma handlers_ok_lookup:
  "handlers_ok rt \<Longrightarrow> id_func_map rt s = Some a \<longleftrightarrow> carried_id (heap rt a) = Some s"
  by (simp add: handlers_ok_but_def)

lemma handlers_okD: "handlers_ok rt \<Longrightarrow> id_func_map rt s = Some a \<Longrightarrow>
    \<exists>c. heap rt a = Some (CellObj c) \<and> has_seq_id c \<and> seq_id c = s"
  by (simp add: handlers_ok_iff carried_id_Some)

lemma handlers_ok_registered: "handlers_ok rt \<Longrightarrow> heap rt a = Some (CellObj c) \<Longrightarrow> has_seq_id c
    \<Longrightarrow> id_func_map rt (seq_id c) = Some a"
  by (simp add: handlers_ok_iff)

lemma handlers_ok_unique:
  "handlers_ok_but X rt \<Longrightarrow> carried_id (heap rt a) = Some s \<Longrightarrow> carried_id (heap rt b) = Some s \<Longrightarrow> a = b"
  by (metis handlers_ok_but_def option.inject)

text \<open>The runtime fields the invariant does not look at.\<close>

lemma handlers_ok_but_frame:
  "heap rt' = heap rt \<Longrightarrow> id_func_map rt' = id_func_map rt \<Longrightarrow> handlers_ok_but X rt' = handlers_ok_but X rt"
  by (simp add: handlers_ok_but_def)

lemma handlers_ok_but_ctxs [simp]: "handlers_ok_but X (rt\<lparr>ctxs := c\<rparr>) = handlers_ok_but X rt"
  by (simp add: handlers_ok_but_def)

lemma heap_ok_frame:
  "heap rt' = heap rt \<Longrightarrow> next_addr rt' = next_addr rt \<Longrightarrow> heap_ok rt' = heap_ok rt"
  by (simp add: heap_ok_def)

text \<open>Changing a live object without touching the id it carries.\<close>

lemma handlers_ok_put_cell:
  assumes "handlers_ok_but X rt" and "heap rt a = Some (CellObj c)" and "has_seq_id c' = has_seq_id c"
    and "seq_id c' = seq_id c"
  shows "handlers_ok_but X (put_cell a c' rt)"
proof -
  have "carried_id (heap (put_cell a c' rt) b) = carried_id (heap rt b)" for b
    using assms by (simp add: put_cell_def)
  moreover have "heap (put_cell a c' rt) b = None \<longleftrightarrow> heap rt b = None" for b
    using assms by (simp add: put_cell_def)
  ultimately show ?thesis using assms(1) by (simp add: handlers_ok_but_def put_cell_def)
qed

lemma heap_ok_put_cell:
  "heap_ok rt \<Longrightarrow> heap rt a = Some ob \<Longrightarrow> id_only_plain c \<Longrightarrow> heap_ok (put_cell a c rt)"
  by (force simp: heap_ok_def put_cell_def)

lemma heap_ok_plain: "heap_ok rt \<Longrightarrow> heap rt a = Some (CellObj c) \<Longrightarrow> id_only_plain c"
  by (simp add: heap_ok_def)

lemma handlers_ok_alloc:
  assumes "handlers_ok rt" and "heap_ok rt" and "carried_id (Some ob) = None"
  shows "handlers_ok (snd (alloc ob rt))"
proof -
  have "heap rt (next_addr rt) = None" using assms(2) by (simp add: heap_ok_def)
  then have "carried_id (heap (snd (alloc ob rt)) b) = carried_id (heap rt b)" for b
    using assms(3) by (simp add: alloc_def)
  then show ?thesis using assms(1) by (simp add: handlers_ok_iff alloc_def)
qed

lemma heap_ok_alloc: "heap_ok rt \<Longrightarrow> carried_id (Some ob) = None \<Longrightarrow> heap_ok (snd (alloc ob rt))"
  by (auto simp: heap_ok_def alloc_def id_only_plain_def split: if_splits)

text \<open>The four operations of the table keep the invariant.\<close>

lemma handlers_ok_reset_erase:
  assumes ok: "handlers_ok rt" and s: "id_func_map rt s = Some a"
  shows "outcome (\<lambda>rt'. handlers_ok (erase_handler s rt')) any_error (reset_sequential_id a rt)"
proof -
  from handlers_okD [OF assms] obtain c where
    c: "heap rt a = Some (CellObj c)" "has_seq_id c" "seq_id c = s" by blast
  let ?rt = "erase_handler s (put_cell a (c\<lparr>has_seq_id := False\<rparr>) rt)"
  have a: "carried_id (heap rt a) = Some s" using c by simp
  have "carried_id (heap ?rt b) = Some t \<longleftrightarrow> t \<noteq> s \<and> carried_id (heap rt b) = Some t" for b t
  proof (cases "b = a")
    case True
    then show ?thesis using a by (auto simp: erase_handler_def put_cell_def)
  next
    case False
    then have "carried_id (heap rt b) \<noteq> Some s" using handlers_ok_unique [OF ok a] by blast
    then show ?thesis using False by (auto simp: erase_handler_def put_cell_def)
  qed
  moreover have "id_func_map ?rt t = Some b \<longleftrightarrow> t \<noteq> s \<and> carried_id (heap rt b) = Some t" for b t
    using handlers_ok_lookup [OF ok, of t b] by (simp add: erase_handler_def put_cell_def)
  ultimately have "handlers_ok ?rt" by (rule handlers_okI_via)
  then show ?thesis using c by (simp add: reset_sequential_id_def with_cell_def)
qed

lemma delete_rsp_handler_if_exist_ok:
  "handlers_ok rt \<Longrightarrow> outcome handlers_ok any_error (delete_rsp_handler_if_exist s rt)"
  using handlers_ok_reset_erase
  by (auto simp: delete_rsp_handler_if_exist_def outcome_bind_eq split: option.split)

lemma register_rsp_Handler_ok:
  assumes ok: "handlers_ok rt" and c: "heap rt a = Some (CellObj c)" "\<not> has_seq_id c"
  shows "outcome handlers_ok any_error (register_rsp_Handler s a rt)"
proof (cases "id_func_map rt s")
  case None
  let ?rt = "put_cell a (c\<lparr>seq_id := s, has_seq_id := True\<rparr>)
          (rt\<lparr>id_func_map := (id_func_map rt)(s \<mapsto> a)\<rparr>)"
  have free: "carried_id (heap rt b) \<noteq> Some s" for b
    using ok None by (metis handlers_ok_iff option.distinct(1))
  have "carried_id (heap ?rt b) = Some t \<longleftrightarrow> (if b = a then t = s else carried_id (heap rt b) = Some t)"
    for b t by (auto simp: put_cell_def)
  moreover have "id_func_map ?rt t = Some b \<longleftrightarrow> (if b = a then t = s else carried_id (heap rt b) = Some t)"
    for b t
    using free [of b] c handlers_ok_lookup [OF ok, of t b] by (auto simp: put_cell_def)
  ultimately have "handlers_ok ?rt" by (rule handlers_okI_via)
  with None c show ?thesis
    by (simp add: register_rsp_Handler_def set_sequential_id_def with_cell_def)
qed (simp add: register_rsp_Handler_def)

text \<open>Inside a destructor: the object is gone, its entry goes next.\<close>

lemma handlers_ok_free:
  assumes ok: "handlers_ok_but X rt" and s: "carried_id (heap rt a) = Some s"
  shows "handlers_ok_but (insert (s, a) X) (free_obj a rt) \<and> (s, a) \<notin> X"
proof
  have a: "heap rt a \<noteq> None" using s by (auto simp: carried_id_Some)
  then show new: "(s, a) \<notin> X" using ok by (auto simp: handlers_ok_but_def)
  have "id_func_map rt t = Some b
      \<longleftrightarrow> carried_id (heap (free_obj a rt) b) = Some t \<or> (t, b) \<in> insert (s, a) X" for t b
    using ok s by (auto simp: handlers_ok_but_def free_obj_def)
  moreover have "\<forall>(t, b) \<in> insert (s, a) X. heap (free_obj a rt) b = None"
    using ok by (auto simp: handlers_ok_but_def free_obj_def)
  ultimately show "handlers_ok_but (insert (s, a) X) (free_obj a rt)"
    by (simp add: handlers_ok_but_def free_obj_def)
qed

lemma handlers_ok_free_unregistered:
  assumes "handlers_ok_but X rt" and "carried_id (heap rt a) = None"
  shows "handlers_ok_but X (free_obj a rt)"
proof -
  have "carried_id (heap (free_obj a rt) b) = carried_id (heap rt b)" for b
    using assms(2) by (simp add: free_obj_def)
  then show ?thesis using assms(1) by (auto simp: handlers_ok_but_def free_obj_def)
qed

lemma remove_rsp_handler_pending:
  assumes ok: "handlers_ok_but (insert (s, a) X) rt" and new: "(s, a) \<notin> X"
  shows "outcome (handlers_ok_but X) any_error (remove_rsp_handler E s rt)"
proof -
  have s: "id_func_map rt s = Some a" using ok by (simp add: handlers_ok_but_def)
  have a: "heap rt a = None" using ok by (simp add: handlers_ok_but_def)
  have "id_func_map (erase_handler s rt) t = Some b
      \<longleftrightarrow> carried_id (heap (erase_handler s rt) b) = Some t \<or> (t, b) \<in> X" for t b
  proof (cases "t = s")
    case True
    have "b = a" if "carried_id (heap rt b) = Some s \<or> (s, b) \<in> X"
      using that ok s by (metis handlers_ok_but_def insertCI option.inject)
    then show ?thesis using True a new by (auto simp: erase_handler_def)
  next
    case False
    then show ?thesis using ok by (simp add: handlers_ok_but_def erase_handler_def)
  qed
  then have "handlers_ok_but X (erase_handler s rt)"
    using ok by (simp add: handlers_ok_but_def erase_handler_def)
  then show ?thesis by (simp add: remove_rsp_handler_def s)
qed

lemma rt_ok_initial [simp]: "rt_ok (initial_rt r)"
  by (simp add: rt_ok_def handlers_ok_iff initial_rt_def heap_ok_def)

end
