(* ===== verification/Lifetime.thy ===== *)
theory Lifetime
  imports Registry
begin

text \<open>
  Deletion: the virtual destructors of cells and actions, and \<^verbatim>\<open>~RpcContext\<close>, which deletes
  everything a context tracks.  Destructors call each other through \<open>delete\<close>, so they take the
  virtual \<open>delete\<close> as an argument; \<open>delete_f\<close> ties the knot with a bound on the nesting, and
  \<open>delete_obj\<close> gives it a bound that is always enough.
\<close>

section \<open>Destructors\<close>

definition rsp_cell_base_dtor :: "('v, 'r) env \<Rightarrow> 'v cell \<Rightarrow> ('v, 'r) rt \<Rightarrow> ('v, 'r) res" where
  "rsp_cell_base_dtor E c rt =
     (if has_seq_id c then remove_rsp_handler E (seq_id c) rt else Inr rt)"

definition rpc_context_dtor ::
  "(addr \<Rightarrow> ('v, 'r) rt \<Rightarrow> ('v, 'r) res) \<Rightarrow> ctx_id \<Rightarrow> ('v, 'r) rt \<Rightarrow> ('v, 'r) res" where
  "rpc_context_dtor del k rt =
     (case ctxs rt k of
        None \<Rightarrow> Inl (DoubleFree k)
      | Some x \<Rightarrow> foldR del (release_list x) (rt\<lparr>ctxs := (ctxs rt)(k := None)\<rparr>))"

definition cell_context_base_dtor ::
  "(addr \<Rightarrow> ('v, 'r) rt \<Rightarrow> ('v, 'r) res) \<Rightarrow> 'v cell \<Rightarrow> ('v, 'r) rt \<Rightarrow> ('v, 'r) res" where
  "cell_context_base_dtor del c rt =
     (case bound_context c of None \<Rightarrow> Inr rt | Some k \<Rightarrow> rpc_context_dtor del k rt)"

definition timeout_cell_dtor ::
  "(addr \<Rightarrow> ('v, 'r) rt \<Rightarrow> ('v, 'r) res) \<Rightarrow> 'v cell \<Rightarrow> ('v, 'r) rt \<Rightarrow> ('v, 'r) res" where
  "timeout_cell_dtor del c rt =
     (case kind c of
        TimeoutCell ti \<Rightarrow> (case timeout_cell ti of None \<Rightarrow> Inr rt | Some tc \<Rightarrow> del tc rt)
      | _ \<Rightarrow> Inr rt)"

text \<open>
  \<^verbatim>\<open>delete\<close> of a cell runs the destructors from the subclass to the bases.  The object counts
  as gone from the start, so that a second \<^verbatim>\<open>delete\<close> of it from inside is seen.
\<close>

definition delete_body ::
  "('v, 'r) env \<Rightarrow> (addr \<Rightarrow> ('v, 'r) rt \<Rightarrow> ('v, 'r) res) \<Rightarrow> addr \<Rightarrow> ('v, 'r) rt \<Rightarrow> ('v, 'r) res" where
  "delete_body E del a rt =
     (case heap rt a of
        None \<Rightarrow> Inl (DoubleFree a)
      | Some (ActionObj _) \<Rightarrow> Inr (free_obj a rt)
      | Some (CellObj c) \<Rightarrow>
          bindR (timeout_cell_dtor del c (free_obj a rt)) (\<lambda>rt.
          bindR (rsp_cell_base_dtor E c rt) (\<lambda>rt.
          cell_context_base_dtor del c rt)))"

fun delete_f :: "nat \<Rightarrow> ('v, 'r) env \<Rightarrow> addr \<Rightarrow> ('v, 'r) rt \<Rightarrow> ('v, 'r) res" where
  "delete_f 0 E a rt = Inl OutOfFuel"
| "delete_f (Suc n) E a rt = delete_body E (delete_f n E) a rt"

definition delete_obj :: "('v, 'r) env \<Rightarrow> addr \<Rightarrow> ('v, 'r) rt \<Rightarrow> ('v, 'r) res" where
  "delete_obj E a rt = delete_f (Suc (next_addr rt)) E a rt"

section \<open>What deletion preserves\<close>

text \<open>
  A property that survives losing an object, an entry of the table and a context survives
  deletion.
\<close>

lemma delete_f_preserves:
  assumes free: "\<And>a rt. I rt \<Longrightarrow> I (free_obj a rt)"
    and erase: "\<And>s rt. I rt \<Longrightarrow> I (erase_handler s rt)"
    and drop: "\<And>k rt. I rt \<Longrightarrow> I (rt\<lparr>ctxs := (ctxs rt)(k := None)\<rparr>)"
  shows "I rt \<Longrightarrow> outcome I any_error (delete_f n E a rt)"
proof (induction n arbitrary: a rt)
  case (Suc n)
  have tc: "outcome I any_error (timeout_cell_dtor (delete_f n E) c rt)" if "I rt" for c rt
    using that Suc.IH by (simp add: timeout_cell_dtor_def split: kind.split option.split)
  have rsp: "outcome I any_error (rsp_cell_base_dtor E c rt)" if "I rt" for c rt
    using that erase
    by (simp add: rsp_cell_base_dtor_def remove_rsp_handler_def msgrpc_log_def split: option.split)
  have ctx: "outcome I any_error (cell_context_base_dtor (delete_f n E) c rt)" if "I rt" for c rt
    using that drop Suc.IH
    by (simp add: cell_context_base_dtor_def rpc_context_dtor_def outcome_fold split: option.split)
  show ?case
  proof (cases "heap rt a")
    case (Some ob)
    then show ?thesis
      using Suc.prems free [of rt a] tc rsp ctx
      by (cases ob) (auto simp: delete_body_def intro!: outcome_bind)
  qed (simp add: delete_body_def)
qed simp

text \<open>Deletion only ever removes; the rest of the state is as it was.\<close>

definition only_deleted :: "('v, 'r) rt \<Rightarrow> ('v, 'r) rt \<Rightarrow> bool" where
  "only_deleted rt rt' \<longleftrightarrow>
     heap rt' \<subseteq>\<^sub>m heap rt \<and> ctxs rt' \<subseteq>\<^sub>m ctxs rt \<and> id_func_map rt' \<subseteq>\<^sub>m id_func_map rt
     \<and> next_addr rt' = next_addr rt \<and> next_ctx rt' = next_ctx rt \<and> seq_counter rt' = seq_counter rt
     \<and> register_state rt' = register_state rt
     \<and> should_reset_to_default_size rt' = should_reset_to_default_size rt \<and> tasks rt' = tasks rt
     \<and> next_task rt' = next_task rt \<and> trace rt' = trace rt"

lemma map_le_drop: "m \<subseteq>\<^sub>m n \<Longrightarrow> m(x := None) \<subseteq>\<^sub>m n"
  by (auto simp: map_le_def dom_def)

lemma only_deleted_refl [simp]: "only_deleted rt rt"
  by (simp add: only_deleted_def)

lemma only_deleted_dom: "only_deleted rt rt' \<Longrightarrow> dom (heap rt') \<subseteq> dom (heap rt)"
  by (auto simp: only_deleted_def dest: map_le_implies_dom_le)

lemma delete_f_only_deleted: "outcome (only_deleted rt) any_error (delete_f n E a rt)"
  by (rule delete_f_preserves)
    (auto simp: only_deleted_def free_obj_def erase_handler_def intro: map_le_drop)

lemma delete_obj_only_deleted: "outcome (only_deleted rt) any_error (delete_obj E a rt)"
  by (simp add: delete_obj_def delete_f_only_deleted del: delete_f.simps)

text \<open>The table of handlers never keeps an id of a deleted cell.\<close>

lemma delete_f_handlers_ok:
  "handlers_ok_but X rt \<Longrightarrow> outcome (handlers_ok_but X) any_error (delete_f n E a rt)"
proof (induction n arbitrary: X a rt)
  case (Suc n)
  note IH = Suc.IH
  have tc: "outcome (handlers_ok_but Y) any_error (timeout_cell_dtor (delete_f n E) c rt)"
    if "handlers_ok_but Y rt" for Y c rt
    using that IH by (simp add: timeout_cell_dtor_def split: kind.split option.split)
  have ctx: "outcome (handlers_ok_but Y) any_error (cell_context_base_dtor (delete_f n E) c rt)"
    if "handlers_ok_but Y rt" for Y c rt
    using that IH
    by (auto simp: cell_context_base_dtor_def rpc_context_dtor_def handlers_ok_but_ctxs
        split: option.split intro!: outcome_fold)
  show ?case
  proof (cases "heap rt a" rule: carried_id.cases)
    case (1 c)
    show ?thesis
    proof (cases "has_seq_id c")
      case True
      then have "carried_id (heap rt a) = Some (seq_id c)" using 1 by simp
      with handlers_ok_free [OF Suc.prems this] True show ?thesis
        by (auto simp: 1 delete_body_def rsp_cell_base_dtor_def
            intro!: outcome_bind tc ctx remove_rsp_handler_pending)
    next
      case False
      then have "handlers_ok_but X (free_obj a rt)"
        using 1 by (intro handlers_ok_free_unregistered Suc.prems) simp
      with False show ?thesis
        by (auto simp: 1 delete_body_def rsp_cell_base_dtor_def intro!: outcome_bind [OF tc] ctx)
    qed
  qed (use Suc.prems in \<open>auto simp: delete_body_def intro: handlers_ok_free_unregistered\<close>)
qed simp

lemma heap_ok_only_deleted: "heap_ok rt \<Longrightarrow> only_deleted rt rt' \<Longrightarrow> heap_ok rt'"
  by (auto simp: heap_ok_def only_deleted_def map_le_def dom_def)

lemma delete_obj_rt_ok: "rt_ok rt \<Longrightarrow> outcome rt_ok any_error (delete_obj E a rt)"
proof -
  assume ok: "rt_ok rt"
  then have "outcome handlers_ok any_error (delete_obj E a rt)"
    by (simp add: rt_ok_def delete_obj_def delete_f_handlers_ok del: delete_f.simps)
  with delete_obj_only_deleted [of rt E a] have
    "outcome (\<lambda>rt'. only_deleted rt rt' \<and> handlers_ok rt') any_error (delete_obj E a rt)"
    by (rule outcome_conj)
  then show ?thesis
    by (rule outcome_mono) (use ok heap_ok_only_deleted in \<open>auto simp: rt_ok_def\<close>)
qed

section \<open>The nesting bound is enough\<close>

lemma delete_f_enough:
  "finite (dom (heap rt)) \<Longrightarrow> card (dom (heap rt)) < n \<Longrightarrow>
   outcome (\<lambda>_. True) (\<lambda>e. e \<noteq> OutOfFuel) (delete_f n E a rt)"
proof (induction n arbitrary: a rt)
  case (Suc n)
  define small where "small rt' \<longleftrightarrow> dom (heap rt') \<subseteq> dom (heap rt) - {a}" for rt' :: "('a, 'b) rt"
  show ?case
  proof (cases "heap rt a")
    case None
    then show ?thesis by (simp add: delete_body_def)
  next
    case (Some ob)
    have step: "outcome small (\<lambda>e. e \<noteq> OutOfFuel) (delete_f n E b rt')" if "small rt'" for b rt'
    proof -
      have "a \<in> dom (heap rt)" using Some by auto
      then have "dom (heap rt') \<subset> dom (heap rt)" using that unfolding small_def by blast
      then have "finite (dom (heap rt'))" "card (dom (heap rt')) < card (dom (heap rt))"
        using Suc.prems(1) by (blast intro: finite_subset psubset_card_mono)+
      then have "outcome (\<lambda>_. True) (\<lambda>e. e \<noteq> OutOfFuel) (delete_f n E b rt')"
        using Suc.prems(2) by (intro Suc.IH) auto
      moreover have "outcome small any_error (delete_f n E b rt')"
        using delete_f_only_deleted [of rt' n E b]
        by (rule outcome_mono) (use that only_deleted_dom in \<open>unfold small_def, blast+\<close>)
      ultimately show ?thesis by (cases "delete_f n E b rt'") auto
    qed
    have "small (free_obj a rt)" by (auto simp: small_def free_obj_def)
    moreover have "outcome small (\<lambda>e. e \<noteq> OutOfFuel) (timeout_cell_dtor (delete_f n E) c rt')"
      if "small rt'" for c rt'
      using that step by (simp add: timeout_cell_dtor_def split: kind.split option.split)
    moreover have "outcome small (\<lambda>e. e \<noteq> OutOfFuel) (rsp_cell_base_dtor E c rt')"
      if "small rt'" for c rt'
      using that by (simp add: rsp_cell_base_dtor_def remove_rsp_handler_def msgrpc_log_def
          small_def erase_handler_def split: option.split)
    moreover have "outcome small (\<lambda>e. e \<noteq> OutOfFuel) (cell_context_base_dtor (delete_f n E) c rt')"
      if "small rt'" for c rt'
      using that step by (auto simp: cell_context_base_dtor_def rpc_context_dtor_def small_def
          split: option.split intro!: outcome_fold)
    ultimately have "outcome small (\<lambda>e. e \<noteq> OutOfFuel) (delete_f (Suc n) E a rt)"
      using Some by (cases ob) (auto simp: delete_body_def intro!: outcome_bind)
    then show ?thesis by (rule outcome_mono) auto
  qed
qed simp

lemma heap_ok_dom: "heap_ok rt \<Longrightarrow> dom (heap rt) \<subseteq> {..<next_addr rt}"
  by (auto simp: heap_ok_def dom_def) (metis not_le option.distinct(1))

lemma delete_obj_no_overflow:
  assumes "rt_ok rt"
  shows "outcome any_error (\<lambda>e. e \<noteq> OutOfFuel) (delete_obj E a rt)"
proof -
  have "finite (dom (heap rt))" and "card (dom (heap rt)) < Suc (next_addr rt)"
    using assms heap_ok_dom [of rt] card_mono [of "{..<next_addr rt}" "dom (heap rt)"]
    by (auto simp: rt_ok_def intro: finite_subset)
  then show ?thesis unfolding delete_obj_def by (rule delete_f_enough)
qed

text \<open>
  C26: deleting an object of a well-formed runtime always comes to an end within the bound, keeps
  the table of response handlers in agreement with the live cells, and changes nothing else.
\<close>

theorem delete_obj_total:
  assumes "rt_ok rt"
  shows "outcome (\<lambda>rt'. rt_ok rt' \<and> only_deleted rt rt') (\<lambda>e. e \<noteq> OutOfFuel) (delete_obj E a rt)"
  using delete_obj_no_overflow [OF assms, of E a] delete_obj_rt_ok [OF assms, of E a]
    delete_obj_only_deleted [of rt E a]
  by (cases "delete_obj E a rt") auto

text \<open>A cell that waits for response 7 and owns a context that tracks an action.\<close>

definition sample_rt :: "(bytes, unit) rt" where
  "sample_rt =
     (initial_rt ())\<lparr>
       heap := [0 \<mapsto> CellObj ((new_cell ''t'' PlainCell)\<lparr>bound_context := Some 0, has_seq_id := True, seq_id := 7\<rparr>),
                1 \<mapsto> ActionObj \<lparr>is_final_action = False, act_cell = None, act_logic = UserAction 0, act_args = [0]\<rparr>],
       next_addr := 2, ctxs := [0 \<mapsto> \<lparr>release_list = [1], ctx_resolver = None\<rparr>], next_ctx := 1,
       id_func_map := [7 \<mapsto> 0]\<rparr>"

lemma rt_ok_sample: "rt_ok sample_rt"
  by (auto simp: rt_ok_def sample_rt_def handlers_ok_iff heap_ok_def initial_rt_def new_cell_def id_only_plain_def)

theorem delete_obj_total_witness:
  "outcome (\<lambda>rt'. rt_ok rt' \<and> only_deleted sample_rt rt') (\<lambda>e. e \<noteq> OutOfFuel) (delete_obj sample_env 0 sample_rt)
   \<and> outcome (\<lambda>rt'. heap rt' = Map.empty \<and> ctxs rt' = Map.empty \<and> id_func_map rt' = Map.empty)
       (\<lambda>_. False) (delete_obj sample_env 0 sample_rt)"
  using delete_obj_total [OF rt_ok_sample, of sample_env 0]
  by (simp add: delete_obj_def sample_rt_def initial_rt_def delete_body_def timeout_cell_dtor_def
      rsp_cell_base_dtor_def cell_context_base_dtor_def rpc_context_dtor_def new_cell_def
      remove_rsp_handler_def free_obj_def erase_handler_def eval_nat_numeral)

end
