(* ===== verification/Stub.thy ===== *)
theory Stub
  imports Lifetime
begin

text \<open>
  Outgoing requests: \<^verbatim>\<open>thrift_codec.h\<close>, \<^verbatim>\<open>msg_sender.cpp\<close>, \<^verbatim>\<open>iface_stub_base.h\<close> and
  \<^verbatim>\<open>iface_stub_base.cpp\<close>, and the helpers of \<^verbatim>\<open>iface_impl_utility.h\<close> and \<^verbatim>\<open>cell.h\<close> that build cells
  without a listener.  None of these calls \<^verbatim>\<open>update\<close>.
\<close>

section \<open>ThriftEncoder and ThriftDecoder\<close>

text \<open>
  \<open>thrift_write\<close> is \<^verbatim>\<open>T::write\<close> into an empty memory buffer, \<open>None\<close> when it throws; an exception
  is logged.  \<open>thrift_read\<close> also returns the number of bytes the protocol counted.
\<close>

definition do_encode :: "('v, 'r) env \<Rightarrow> 'v \<Rightarrow> ('v, 'r) rt \<Rightarrow> fault + bytes option \<times> ('v, 'r) rt" where
  "do_encode E v rt =
     (case thrift_write E v of
        None \<Rightarrow> bindR (msgrpc_log E rt) (\<lambda>rt. Inr (None, rt))
      | Some bs \<Rightarrow>
          let rt = (if thrift_default_size E < length bs
                    then rt\<lparr>should_reset_to_default_size := True\<rparr> else rt)
          in Inr (if length bs \<noteq> 0 then Some bs else None, rt))"

definition do_decode :: "('v, 'r) env \<Rightarrow> string \<Rightarrow> bytes \<Rightarrow> ('v, 'r) rt \<Rightarrow> fault + 'v option" where
  "do_decode E ty bs rt =
     (case thrift_read E ty bs of
        None \<Rightarrow> bindR (msgrpc_log E rt) (\<lambda>rt. Inr None)
      | Some (v, xfer) \<Rightarrow> Inr (if 0 < xfer then Some v else None))"

section \<open>The channel\<close>

definition send_msg ::
  "('v, 'r) env \<Rightarrow> service_id \<Rightarrow> 16 word \<Rightarrow> bytes \<Rightarrow> ('v, 'r) rt \<Rightarrow> fault + bool \<times> ('v, 'r) rt" where
  "send_msg E sid m mem rt =
     (case msg_channel (env_config E) of
        None \<Rightarrow> Inl NullDeref
      | Some _ \<Rightarrow> let ok = channel_ok E sid m mem in Inr (ok, emit (Sent sid m mem ok) rt))"

definition send_msg_with_header ::
  "('v, 'r) env \<Rightarrow> service_id \<Rightarrow> rsp_msg_header \<Rightarrow> bytes option \<Rightarrow> ('v, 'r) rt \<Rightarrow> ('v, 'r) res" where
  "send_msg_with_header E sid rsp_header out rt =
     (let rsp_msg_type = response_msg_id (env_config E);
          header = rsp_header_bytes (stack_pad E) rsp_header
      in case out of
           None \<Rightarrow> bindR (send_msg E sid rsp_msg_type header rt) (\<lambda>(_, rt). Inr rt)
         | Some pout_buf \<Rightarrow>
             if pout_buf = [] then bindR (send_msg E sid rsp_msg_type header rt) (\<lambda>(_, rt). Inr rt)
             else if malloc_ok E (sizeof_rsp_header + length pout_buf)
             then bindR (send_msg E sid rsp_msg_type (header @ pout_buf) rt) (\<lambda>(_, rt). Inr rt)
             else Inr rt)"

section \<open>Cells made on the spot\<close>

definition new_instance :: "string \<Rightarrow> rpc_result \<Rightarrow> ('v, 'r) rt \<Rightarrow> addr \<times> ('v, 'r) rt" where
  "new_instance ty reason rt =
     alloc (CellObj ((new_cell ty PlainCell)\<lparr>cstate := \<lparr>cell_value = None, cell_status = reason\<rparr>\<rparr>)) rt"

definition new_failed_instance :: "string \<Rightarrow> ('v, 'r) rt \<Rightarrow> addr \<times> ('v, 'r) rt" where
  "new_failed_instance ty rt = new_instance ty Failed rt"

definition failed_cell_with_reason ::
  "ctx_id \<Rightarrow> string \<Rightarrow> rpc_result \<Rightarrow> ('v, 'r) rt \<Rightarrow> fault + addr \<times> ('v, 'r) rt" where
  "failed_cell_with_reason k ty reason rt =
     (case new_instance ty reason rt of (a, rt) \<Rightarrow> bindR (track k a rt) (\<lambda>rt. Inr (a, rt)))"

text \<open>
  \<^verbatim>\<open>cell_with_value\<close> and \<^verbatim>\<open>call_sync_iface_impl\<close> set the value of a cell nothing listens to yet.
\<close>

definition cell_with_value :: "string \<Rightarrow> 'v \<Rightarrow> ('v, 'r) rt \<Rightarrow> addr \<times> ('v, 'r) rt" where
  "cell_with_value ty v rt =
     (case alloc (CellObj (new_cell ty PlainCell)) rt of
        (a, rt) \<Rightarrow>
          (a, put_cell a ((new_cell ty PlainCell)\<lparr>cstate := empty_state\<lparr>cell_value := Some (Rsp v)\<rparr>\<rparr>) rt))"

definition call_sync_iface_impl :: "string \<Rightarrow> ('v \<Rightarrow> 'v) \<Rightarrow> 'v \<Rightarrow> ('v, 'r) rt \<Rightarrow> addr \<times> ('v, 'r) rt" where
  "call_sync_iface_impl ty f rsp rt = cell_with_value ty (f rsp) rt"

section \<open>Requests\<close>

definition new_req_header :: "16 word \<Rightarrow> 8 word \<Rightarrow> rpc_sequence_id \<Rightarrow> req_msg_header" where
  "new_req_header iface_index method_index s =
     \<lparr>msgrpc_version = 0, method_index_in_interface = method_index,
      iface_index_in_service = iface_index, sequence_id = s\<rparr>"

definition send_rpc_request_buf ::
  "('v, 'r) env \<Rightarrow> ctx_id \<Rightarrow> string \<Rightarrow> 16 word \<Rightarrow> 8 word \<Rightarrow> bytes \<Rightarrow> addr \<Rightarrow> ('v, 'r) rt
   \<Rightarrow> fault + bool \<times> ('v, 'r) rt" where
  "send_rpc_request_buf E ctxt to_service_name iface_index method_index pbuf sink rt =
     (if \<not> malloc_ok E (sizeof_req_header + length pbuf) then Inr (False, rt)
      else case get (seq_counter rt) of (s, seq) \<Rightarrow>
        bindR (register_rsp_Handler s sink (rt\<lparr>seq_counter := seq\<rparr>)) (\<lambda>rt.
        let mem = msg_header_bytes (new_req_header iface_index method_index s) @ pbuf in
        case ctxs rt ctxt of
          None \<Rightarrow> Inl (UseAfterFree ctxt)
        | Some x \<Rightarrow>
            (case ctx_resolver x of
               None \<Rightarrow> Inl (AssertFailed ''nullptr != ctxt_.service_resolver_'')
             | Some service_resolver \<Rightarrow>
                 (case resolve E service_resolver to_service_name mem (register_state rt) of
                    (service_id, reg) \<Rightarrow>
                      let rt = rt\<lparr>register_state := reg\<rparr> in
                      (case service_id of
                         None \<Rightarrow> Inr (False, rt)
                       | Some sid \<Rightarrow> send_msg E sid (request_msg_id (env_config E)) mem rt)))))"

definition encode_request_and_send ::
  "('v, 'r) env \<Rightarrow> ctx_id \<Rightarrow> string \<Rightarrow> 16 word \<Rightarrow> 8 word \<Rightarrow> string \<Rightarrow> 'v \<Rightarrow> ('v, 'r) rt
   \<Rightarrow> fault + addr \<times> ('v, 'r) rt" where
  "encode_request_and_send E ctxt to_service_name iface_index method_index ty req rt =
     bindR (do_encode E req rt) (\<lambda>(buf, rt).
     case buf of
       None \<Rightarrow> bindR (msgrpc_log E rt) (failed_cell_with_reason ctxt ty Failed)
     | Some pbuf \<Rightarrow>
         (case alloc (CellObj (new_cell ty PlainCell)) rt of
            (rpc_result_cell, rt) \<Rightarrow>
              bindR (send_rpc_request_buf E ctxt to_service_name iface_index method_index pbuf
                       rpc_result_cell rt) (\<lambda>(sent, rt).
              if \<not> sent
              then bindR (delete_obj E rpc_result_cell rt) (failed_cell_with_reason ctxt ty Failed)
              else bindR (track ctxt rpc_result_cell rt) (\<lambda>rt. Inr (rpc_result_cell, rt)))))"

text \<open>What the function of an \<^verbatim>\<open>___rpc\<close> cell does with its answer; \<open>None\<close> is the null cell.\<close>

definition start_rpc ::
  "('v, 'r) env \<Rightarrow> ctx_id \<Rightarrow> string \<Rightarrow> 'v rpc_start \<Rightarrow> ('v, 'r) rt \<Rightarrow> fault + addr option \<times> ('v, 'r) rt" where
  "start_rpc E ctxt ty start rt =
     (case start of
        Deferred \<Rightarrow> Inr (None, rt)
      | FailedCell reason \<Rightarrow>
          bindR (failed_cell_with_reason ctxt ty reason rt) (\<lambda>(a, rt). Inr (Some a, rt))
      | CallRpc svc iface_index method_index rsp_ty req \<Rightarrow>
          bindR (encode_request_and_send E ctxt svc iface_index method_index rsp_ty req rt)
            (\<lambda>(a, rt). Inr (Some a, rt)))"

end
