(* ===== verification/Cells.thy ===== *)
theory Cells
  imports Stub
begin

text \<open>
  The reactive cells: \<^verbatim>\<open>cell_base.h\<close>, \<^verbatim>\<open>cell.h\<close>, \<^verbatim>\<open>derived_action.h\<close>, \<^verbatim>\<open>derived_cell.h\<close>,
  \<^verbatim>\<open>derived_async_cell.h\<close> and \<^verbatim>\<open>timeout_cell.h\<close>.  All recursion goes through the virtual method
  \<^verbatim>\<open>Updatable::update\<close>, so every operation takes that method as its argument \<open>upd\<close>; \<open>update_f\<close>
  ties the knot with a bound on the depth of nested calls, and \<open>update\<close> computes that bound from
  the state.
\<close>

type_synonym ('v, 'r) update = "addr \<Rightarrow> ('v, 'r) rt \<Rightarrow> ('v, 'r) res"

section \<open>CellStatus and CellBase\<close>

text \<open>
  The loop reads \<^verbatim>\<open>updatables_\<close> of the cell anew in every round, up to the length it had at the
  start: a round that deleted the cell makes the next one a use after free.
\<close>

definition evaluate_all_derived_cells :: "('v, 'r) update \<Rightarrow> ('v, 'r) update" where
  "evaluate_all_derived_cells upd a rt =
     with_cell a rt (\<lambda>c0.
       foldR (\<lambda>i rt. with_cell a rt (\<lambda>c.
                if i < length (updatables c) then upd (updatables c ! i) rt
                else Inl (UseAfterFree a)))
         [0..<length (updatables c0)] rt)"

definition set_failed_reason ::
  "('v, 'r) update \<Rightarrow> addr \<Rightarrow> rpc_result \<Rightarrow> ('v, 'r) rt \<Rightarrow> ('v, 'r) res" where
  "set_failed_reason upd a ret rt =
     with_cell a rt (\<lambda>c.
       evaluate_all_derived_cells upd a
         (put_cell a (c\<lparr>cstate := (cstate c)\<lparr>cell_status := ret\<rparr>\<rparr>) rt))"

definition set_value :: "('v, 'r) update \<Rightarrow> addr \<Rightarrow> 'v cval \<Rightarrow> ('v, 'r) rt \<Rightarrow> ('v, 'r) res" where
  "set_value upd a v rt =
     with_cell a rt (\<lambda>c.
       evaluate_all_derived_cells upd a
         (put_cell a (c\<lparr>cstate := (cstate c)\<lparr>cell_value := Some v\<rparr>\<rparr>) rt))"

definition the_value :: "'v cell_state \<Rightarrow> fault + 'v cval" where
  "the_value s =
     (case cell_value s of
        None \<Rightarrow> Inl (AssertFailed ''can not access value_ field, if cell do not has_value_.'')
      | Some v \<Rightarrow> Inr v)"

definition set_cell_value ::
  "('v, 'r) update \<Rightarrow> addr \<Rightarrow> 'v cell_state \<Rightarrow> ('v, 'r) rt \<Rightarrow> ('v, 'r) res" where
  "set_cell_value upd a rhs rt =
     (if has_error rhs then set_failed_reason upd a (failed_reason rhs) rt
      else bindR (the_value rhs) (\<lambda>v. set_value upd a v rt))"

definition register_listener :: "('v, 'r) update \<Rightarrow> addr \<Rightarrow> addr \<Rightarrow> ('v, 'r) rt \<Rightarrow> ('v, 'r) res" where
  "register_listener upd a u rt =
     with_cell a rt (\<lambda>c.
       if has_value_or_error (cstate c) then upd u rt
       else Inr (put_cell a (c\<lparr>updatables := updatables c @ [u]\<rparr>) rt))"

definition register_as_listener ::
  "('v, 'r) update \<Rightarrow> addr \<Rightarrow> addr list \<Rightarrow> ('v, 'r) rt \<Rightarrow> ('v, 'r) res" where
  "register_as_listener upd u args rt = foldR (\<lambda>c. register_listener upd c u) args rt"

definition set_binded_context :: "addr \<Rightarrow> ctx_id \<Rightarrow> ('v, 'r) rt \<Rightarrow> ('v, 'r) res" where
  "set_binded_context a k rt = with_cell a rt (\<lambda>c. Inr (put_cell a (c\<lparr>bound_context := Some k\<rparr>) rt))"

section \<open>Cell\<close>

definition set_rpc_rsp ::
  "('v, 'r) env \<Rightarrow> ('v, 'r) update \<Rightarrow> addr \<Rightarrow> rsp_msg_header \<Rightarrow> bytes \<Rightarrow> ('v, 'r) rt \<Rightarrow> ('v, 'r) res" where
  "set_rpc_rsp E upd a rsp_header msg rt =
     (if rpc_result_of rsp_header \<noteq> Succeeded
      then set_failed_reason upd a (rpc_result_of rsp_header) rt
      else if msg = [] then Inl (AssertFailed ''should has payload when rpc succeeded.'')
      else with_cell a rt (\<lambda>c.
        bindR (do_decode E (cell_type c) msg rt) (\<lambda>rsp.
        case rsp of
          None \<Rightarrow> set_failed_reason upd a Failed rt
        | Some v \<Rightarrow> set_value upd a (Rsp v) rt)))"

definition set_timeout :: "('v, 'r) update \<Rightarrow> addr \<Rightarrow> ('v, 'r) rt \<Rightarrow> ('v, 'r) res" where
  "set_timeout upd a rt = set_failed_reason upd a TimedOut rt"

section \<open>DerivedAction\<close>

text \<open>
  The constructor registers the action with every argument; for a final action the last one must
  own a context, which then tracks the action, and is what the action deletes after it ran.
\<close>

definition new_derived_action ::
  "('v, 'r) update \<Rightarrow> bool \<Rightarrow> action_logic \<Rightarrow> addr list \<Rightarrow> ('v, 'r) rt \<Rightarrow> fault + addr \<times> ('v, 'r) rt" where
  "new_derived_action upd is_final logic args rt =
     (case alloc (ActionObj \<lparr>is_final_action = is_final, act_cell = None, act_logic = logic,
                             act_args = args\<rparr>) rt of
        (u, rt) \<Rightarrow>
          bindR (register_as_listener upd u args rt) (\<lambda>rt.
          if \<not> is_final then Inr (u, rt)
          else with_cell (last args) rt (\<lambda>c.
            case bound_context c of
              None \<Rightarrow> Inl (AssertFailed
                 ''final action should bind to cell with resouce management context.'')
            | Some k \<Rightarrow>
                bindR (track k u rt) (\<lambda>rt.
                case heap rt u of
                  Some (ActionObj x) \<Rightarrow> Inr (u, put_action u (x\<lparr>act_cell := Some (last args)\<rparr>) rt)
                | _ \<Rightarrow> Inl (UseAfterFree u)))))"

definition derive_action ::
  "('v, 'r) update \<Rightarrow> ctx_id \<Rightarrow> action_logic \<Rightarrow> addr list \<Rightarrow> ('v, 'r) rt \<Rightarrow> fault + addr \<times> ('v, 'r) rt" where
  "derive_action upd ctxt logic args rt =
     bindR (new_derived_action upd False logic args rt) (\<lambda>(u, rt).
     bindR (track ctxt u rt) (\<lambda>rt. Inr (u, rt)))"

definition derive_final_action ::
  "('v, 'r) update \<Rightarrow> action_logic \<Rightarrow> addr list \<Rightarrow> ('v, 'r) rt \<Rightarrow> fault + addr \<times> ('v, 'r) rt" where
  "derive_final_action upd logic args rt = new_derived_action upd True logic args rt"

section \<open>TimeoutCell\<close>

text \<open>The timer carries the sequence id as its user data.\<close>

definition set_timer ::
  "('v, 'r) env \<Rightarrow> int \<Rightarrow> 16 word \<Rightarrow> rpc_sequence_id \<Rightarrow> ('v, 'r) rt \<Rightarrow> ('v, 'r) res" where
  "set_timer E ms m s rt =
     (case timer_adapter (env_config E) of None \<Rightarrow> Inl NullDeref | Some _ \<Rightarrow> Inr (emit (TimerSet ms m s) rt))"

definition cancel_timer ::
  "('v, 'r) env \<Rightarrow> 16 word \<Rightarrow> rpc_sequence_id \<Rightarrow> ('v, 'r) rt \<Rightarrow> ('v, 'r) res" where
  "cancel_timer E m s rt =
     (case timer_adapter (env_config E) of None \<Rightarrow> Inl NullDeref | Some _ \<Rightarrow> Inr (emit (TimerCancelled m s) rt))"

definition bind_timeout_cell :: "('v, 'r) update \<Rightarrow> addr \<Rightarrow> addr \<Rightarrow> ('v, 'r) rt \<Rightarrow> ('v, 'r) res" where
  "bind_timeout_cell upd a cell_to_bind rt =
     with_timeout_cell a rt (\<lambda>c ti.
       bindR (derive_action upd (ti_ctxt ti) (BindTimeout a) [cell_to_bind] rt) (\<lambda>(_, rt). Inr rt))"

definition invoke_rpc_once ::
  "('v, 'r) env \<Rightarrow> ('v, 'r) update \<Rightarrow> addr \<Rightarrow> int \<Rightarrow> ('v, 'r) rt \<Rightarrow> ('v, 'r) res" where
  "invoke_rpc_once E upd a ms rt =
     with_timeout_cell a rt (\<lambda>c ti.
       bindR (read_args (rpc_args ti) rt) (\<lambda>ss.
       bindR (start_rpc E (ti_ctxt ti) (cell_type c) (rpc_fun ti ss) rt) (\<lambda>(rpc_cell, rt).
       case rpc_cell of
         None \<Rightarrow> Inr rt
       | Some b \<Rightarrow>
           bindR (update_timeout_info a (\<lambda>ti. ti\<lparr>is_rpc_started := True\<rparr>) rt) (\<lambda>rt.
           with_cell b rt (\<lambda>rpc.
             if has_error (cstate rpc)
             then set_failed_reason upd a (failed_reason (cstate rpc)) rt
             else if \<not> has_seq_id rpc
             then Inl (AssertFailed ''only support add timer guard on cells with seq_id.'')
             else bindR (set_timer E ms (set_timer_msg_id (env_config E)) (seq_id rpc) rt)
                    (bind_timeout_cell upd a b))))))"

definition retry_rpc_if_need ::
  "('v, 'r) env \<Rightarrow> ('v, 'r) update \<Rightarrow> addr \<Rightarrow> 'v cell_state \<Rightarrow> ('v, 'r) rt \<Rightarrow> ('v, 'r) res" where
  "retry_rpc_if_need E upd a rsp rt =
     with_timeout_cell a rt (\<lambda>c ti.
       if 0 < retry_times ti
       then bindR (update_timeout_info a (\<lambda>ti. ti\<lparr>retry_times := retry_times ti - 1\<rparr>) rt)
              (invoke_rpc_once E upd a (timeout_ms ti))
       else bindR (set_failed_reason upd a (failed_reason rsp) rt) (\<lambda>rt.
            with_timeout_cell a rt (\<lambda>c ti.
              case timeout_cell ti of None \<Rightarrow> Inr rt | Some t \<Rightarrow> set_value upd t (Flag True) rt)))"

text \<open>The lambda of \<open>bind_timeout_cell\<close>; \<open>rpc\<close> is the cell it is bound to.\<close>

definition on_rpc_cell_changed ::
  "('v, 'r) env \<Rightarrow> ('v, 'r) update \<Rightarrow> addr \<Rightarrow> 'v cell \<Rightarrow> ('v, 'r) rt \<Rightarrow> ('v, 'r) res" where
  "on_rpc_cell_changed E upd a rpc rt =
     (if is_timeout (cstate rpc) then retry_rpc_if_need E upd a (cstate rpc) rt
      else bindR
        (if has_value_or_error (cstate rpc)
         then if has_seq_id rpc
              then cancel_timer E (set_timer_msg_id (env_config E)) (seq_id rpc) rt
              else Inl (AssertFailed ''only support add timer guard on cells with seq_id.'')
         else Inr rt)
        (set_cell_value upd a (cstate rpc)))"

definition timeout_update ::
  "('v, 'r) env \<Rightarrow> ('v, 'r) update \<Rightarrow> addr \<Rightarrow> 'v cell \<Rightarrow> 'v timeout_info \<Rightarrow> ('v, 'r) rt \<Rightarrow> ('v, 'r) res" where
  "timeout_update E upd a c ti rt =
     (if rpc_args ti = []
      then Inl (AssertFailed ''should not call update if this cell do not dependent other cells.'')
      else if \<not> has_value_or_error (cstate c) \<and> \<not> is_rpc_started ti
      then invoke_rpc_once E upd a (timeout_ms ti) rt
      else Inr rt)"

text \<open>\<^verbatim>\<open>TimeoutCell::timeout()\<close>; the flag cell belongs to the timeout cell, no context tracks it.\<close>

definition timeout_of :: "addr \<Rightarrow> ('v, 'r) rt \<Rightarrow> fault + addr \<times> ('v, 'r) rt" where
  "timeout_of a rt =
     with_timeout_cell a rt (\<lambda>c ti.
       case timeout_cell ti of
         Some t \<Rightarrow> Inr (t, rt)
       | None \<Rightarrow>
           (case alloc (CellObj (new_cell ''bool'' FlagCell)) rt of
              (t, rt) \<Rightarrow>
                bindR (update_timeout_info a (\<lambda>ti. ti\<lparr>timeout_cell := Some t\<rparr>) rt) (\<lambda>rt. Inr (t, rt))))"

section \<open>DerivedCell and DerivedAsyncCell\<close>

definition run_request ::
  "('v, 'r) update \<Rightarrow> addr \<Rightarrow> 'v outcome_request option \<Rightarrow> ('v, 'r) rt \<Rightarrow> ('v, 'r) res" where
  "run_request upd a req rt =
     (case req of
        None \<Rightarrow> Inr rt
      | Some (SetValue v) \<Rightarrow> set_value upd a v rt
      | Some (SetFailedReason r) \<Rightarrow> set_failed_reason upd a r rt
      | Some (SetCellValue s) \<Rightarrow> set_cell_value upd a s rt)"

definition derived_cell_update ::
  "('v, 'r) update \<Rightarrow> addr \<Rightarrow> 'v cell \<Rightarrow> 'v logic \<Rightarrow> addr list \<Rightarrow> ('v, 'r) rt \<Rightarrow> ('v, 'r) res" where
  "derived_cell_update upd a c logic args rt =
     (if has_value_or_error (cstate c) then Inr rt
      else bindR (read_args args rt) (\<lambda>ss. run_request upd a (logic ss) rt))"

definition async_cell_update ::
  "('v, 'r) env \<Rightarrow> ('v, 'r) update \<Rightarrow> addr \<Rightarrow> 'v cell \<Rightarrow> ctx_id \<Rightarrow> 'v rpc_fun \<Rightarrow> addr list \<Rightarrow> ('v, 'r) rt
   \<Rightarrow> ('v, 'r) res" where
  "async_cell_update E upd a c ctxt f args rt =
     (if has_value_or_error (cstate c) then Inr rt
      else bindR (read_args args rt) (\<lambda>ss.
           bindR (start_rpc E ctxt (cell_type c) (f ss) rt) (\<lambda>(cell, rt).
           case cell of
             None \<Rightarrow> Inl NullDeref
           | Some b \<Rightarrow>
               with_cell b rt (\<lambda>rpc.
                 if has_error (cstate rpc)
                 then set_failed_reason upd a (failed_reason (cstate rpc)) rt
                 else bindR (derive_action upd ctxt (BindAsync a) [b] rt) (\<lambda>(_, rt). Inr rt)))))"

text \<open>The lambda of \<^verbatim>\<open>DerivedAsyncCell::update\<close>.\<close>

definition on_async_rsp ::
  "('v, 'r) update \<Rightarrow> addr \<Rightarrow> 'v cell_state \<Rightarrow> ('v, 'r) rt \<Rightarrow> ('v, 'r) res" where
  "on_async_rsp upd a rsp rt =
     (if has_error rsp then set_failed_reason upd a (failed_reason rsp) rt
      else set_cell_value upd a rsp rt)"

section \<open>Responses of the server side\<close>

definition send_rsp_cell_value ::
  "('v, 'r) env \<Rightarrow> service_id \<Rightarrow> rsp_msg_header \<Rightarrow> 'v cell_state \<Rightarrow> ('v, 'r) rt
   \<Rightarrow> fault + rpc_result \<times> ('v, 'r) rt" where
  "send_rsp_cell_value E sender_id rsp_header rsp rt =
     (case cell_value rsp of
        Some (Rsp v) \<Rightarrow>
          bindR (do_encode E v rt) (\<lambda>(buf, rt).
          case buf of
            None \<Rightarrow> Inr (Failed, rt)
          | Some out \<Rightarrow>
              bindR (send_msg_with_header E sender_id rsp_header (Some out) rt)
                (\<lambda>rt. Inr (Succeeded, rt)))
      | _ \<Rightarrow> Inr (Failed, rt))"

section \<open>The virtual update\<close>

definition run_action ::
  "('v, 'r) env \<Rightarrow> ('v, 'r) update \<Rightarrow> action \<Rightarrow> ('v, 'r) rt \<Rightarrow> ('v, 'r) res" where
  "run_action E upd x rt =
     bindR (read_args (act_args x) rt) (\<lambda>ss.
     case act_logic x of
       UserAction n \<Rightarrow> Inr (emit (ActionRun n ss) rt)
     | BindTimeout a \<Rightarrow> with_cell (last (act_args x)) rt (\<lambda>rpc. on_rpc_cell_changed E upd a rpc rt)
     | BindAsync a \<Rightarrow> with_cell (last (act_args x)) rt (\<lambda>rpc. on_async_rsp upd a (cstate rpc) rt)
     | SendRsp sender_id rsp_header \<Rightarrow>
         with_cell (last (act_args x)) rt (\<lambda>r.
           if has_value (cstate r)
           then bindR (send_rsp_cell_value E sender_id rsp_header (cstate r) rt) (\<lambda>(_, rt). Inr rt)
           else Inr rt))"

text \<open>
  An action that is not final touches nothing of itself after its logic ran.  A final one reads
  its fields again and deletes its cell, which deletes the context and with it the action.
\<close>

definition action_update ::
  "('v, 'r) env \<Rightarrow> ('v, 'r) update \<Rightarrow> addr \<Rightarrow> action \<Rightarrow> ('v, 'r) rt \<Rightarrow> ('v, 'r) res" where
  "action_update E upd u x rt =
     (if \<not> is_final_action x then run_action E upd x rt
      else bindR (run_action E upd x rt) (\<lambda>rt.
        case heap rt u of
          Some (ActionObj x) \<Rightarrow>
            (case act_cell x of None \<Rightarrow> Inr rt | Some c \<Rightarrow> delete_obj E c rt)
        | _ \<Rightarrow> Inl (UseAfterFree u)))"

definition update_body :: "('v, 'r) env \<Rightarrow> ('v, 'r) update \<Rightarrow> ('v, 'r) update" where
  "update_body E upd u rt =
     (case heap rt u of
        None \<Rightarrow> Inl (UseAfterFree u)
      | Some (ActionObj x) \<Rightarrow> action_update E upd u x rt
      | Some (CellObj c) \<Rightarrow>
          (case kind c of
             PlainCell \<Rightarrow> Inr rt
           | FlagCell \<Rightarrow> Inr rt
           | DerivedCell logic args \<Rightarrow> derived_cell_update upd u c logic args rt
           | TimeoutCell ti \<Rightarrow> timeout_update E upd u c ti rt
           | AsyncCell ctxt f args \<Rightarrow> async_cell_update E upd u c ctxt f args rt))"

fun update_f :: "nat \<Rightarrow> ('v, 'r) env \<Rightarrow> ('v, 'r) update" where
  "update_f 0 E u rt = Inl OutOfFuel"
| "update_f (Suc n) E u rt = update_body E (update_f n E) u rt"

text \<open>One level of nesting for every object there is, and one for the call itself.\<close>

definition update :: "('v, 'r) env \<Rightarrow> ('v, 'r) update" where
  "update E u rt = update_f (Suc (next_addr rt)) E u rt"

section \<open>What a service interaction builds\<close>

definition derive_cell ::
  "('v, 'r) env \<Rightarrow> ctx_id \<Rightarrow> string \<Rightarrow> 'v logic \<Rightarrow> addr list \<Rightarrow> ('v, 'r) rt \<Rightarrow> fault + addr \<times> ('v, 'r) rt" where
  "derive_cell E ctxt ty logic args rt =
     (case alloc (CellObj (new_cell ty (DerivedCell logic args))) rt of
        (a, rt) \<Rightarrow>
          bindR (register_as_listener (update E) a args rt) (\<lambda>rt.
          bindR (track ctxt a rt) (\<lambda>rt. Inr (a, rt))))"

definition derive_rpc_cell ::
  "('v, 'r) env \<Rightarrow> ctx_id \<Rightarrow> string \<Rightarrow> int \<Rightarrow> nat \<Rightarrow> 'v rpc_fun \<Rightarrow> addr list \<Rightarrow> ('v, 'r) rt
   \<Rightarrow> fault + addr \<times> ('v, 'r) rt" where
  "derive_rpc_cell E ctxt ty ms retries f args rt =
     (case alloc (CellObj (new_cell ty (TimeoutCell
              \<lparr>ti_ctxt = ctxt, timeout_ms = ms, retry_times = retries, rpc_fun = f, rpc_args = args,
               is_rpc_started = False, timeout_cell = None\<rparr>))) rt of
        (a, rt) \<Rightarrow>
          bindR (if args = [] then invoke_rpc_once E (update E) a ms rt
                 else register_as_listener (update E) a args rt) (\<lambda>rt.
          bindR (track ctxt a rt) (\<lambda>rt. Inr (a, rt))))"

definition derive_async_cell ::
  "('v, 'r) env \<Rightarrow> ctx_id \<Rightarrow> string \<Rightarrow> 'v rpc_fun \<Rightarrow> addr list \<Rightarrow> ('v, 'r) rt \<Rightarrow> fault + addr \<times> ('v, 'r) rt" where
  "derive_async_cell E ctxt ty f args rt =
     (case alloc (CellObj (new_cell ty (AsyncCell ctxt f args))) rt of
        (a, rt) \<Rightarrow>
          bindR (register_as_listener (update E) a args rt) (\<lambda>rt.
          bindR (track ctxt a rt) (\<lambda>rt. Inr (a, rt))))"

text \<open>
  \<^verbatim>\<open>run_si\<close>: \<open>si_func\<close> builds its cells in a fresh context and returns one of them, or the null
  pointer.  The result cell owns the context and is taken off its release list.
\<close>

definition release_list_remove :: "ctx_id \<Rightarrow> addr \<Rightarrow> ('v, 'r) rt \<Rightarrow> ('v, 'r) res" where
  "release_list_remove k a rt =
     (case ctxs rt k of
        None \<Rightarrow> Inl (UseAfterFree k)
      | Some x \<Rightarrow> Inr (rt\<lparr>ctxs := (ctxs rt)(k \<mapsto> x\<lparr>release_list := removeAll a (release_list x)\<rparr>)\<rparr>))"

definition run_si ::
  "nat \<Rightarrow> (ctx_id \<Rightarrow> ('v, 'r) rt \<Rightarrow> fault + addr option \<times> ('v, 'r) rt) \<Rightarrow> ('v, 'r) rt
   \<Rightarrow> fault + addr \<times> ('v, 'r) rt" where
  "run_si resolver si_func rt =
     (case new_ctx (Some resolver) rt of
        (ctxt, rt) \<Rightarrow>
          bindR (si_func ctxt rt) (\<lambda>(cell, rt).
          case cell of
            None \<Rightarrow> Inl (AssertFailed ''should not return nullptr cell from SI'')
          | Some result_cell \<Rightarrow>
              bindR (set_binded_context result_cell ctxt rt) (\<lambda>rt.
              bindR (release_list_remove ctxt result_cell rt) (\<lambda>rt. Inr (result_cell, rt)))))"

end
