(* ===== verification/Graph.thy ===== *)
theory Graph
  imports Cells
begin

text \<open>
  The dependency graph of the cells, and the invariant that every operation on it keeps.  The
  graph is an abstraction of the heap: for every object its listeners, the kind of cell it is and
  what it refers to.  The invariant comes in two strengths.  The weak one (\<open>safe = False\<close>)
  bounds the nesting of \<^verbatim>\<open>update\<close>; the strong one (\<open>safe = True\<close>) also says that every reference
  is live, which holds as long as no final action runs.
\<close>

section \<open>The graph of a heap\<close>

datatype skind =
    KPlain
  | KFlag
  | KDerived "addr list"
  | KTimeout ctx_id "addr list" "addr option"
  | KAsync ctx_id "addr list"

datatype shape =
    SCell "addr list" skind
  | SAction bool action_logic "addr list"

fun skind_of :: "'v kind \<Rightarrow> skind" where
  "skind_of PlainCell = KPlain"
| "skind_of FlagCell = KFlag"
| "skind_of (DerivedCell l args) = KDerived args"
| "skind_of (TimeoutCell ti) = KTimeout (ti_ctxt ti) (rpc_args ti) (timeout_cell ti)"
| "skind_of (AsyncCell k f args) = KAsync k args"

fun shape_of :: "'v obj \<Rightarrow> shape" where
  "shape_of (CellObj c) = SCell (updatables c) (skind_of (kind c))"
| "shape_of (ActionObj x) = SAction (is_final_action x) (act_logic x) (act_args x)"

type_synonym graph = "addr \<rightharpoonup> shape"

definition skel :: "('v, 'r) rt \<Rightarrow> graph" where
  "skel rt a = map_option shape_of (heap rt a)"

text \<open>The cell that updating an object may set.\<close>

fun goal :: "addr \<Rightarrow> shape \<Rightarrow> addr option" where
  "goal u (SCell ls k) = (if k = KPlain \<or> k = KFlag then None else Some u)"
| "goal u (SAction fin (BindTimeout a) args) = Some a"
| "goal u (SAction fin (BindAsync a) args) = Some a"
| "goal u (SAction fin lg args) = None"

fun kind_at :: "graph \<Rightarrow> addr \<Rightarrow> skind option" where
  "kind_at \<sigma> a = (case \<sigma> a of Some (SCell ls k) \<Rightarrow> Some k | _ \<Rightarrow> None)"

declare kind_at.simps [simp del]

lemma kind_at_Some: "kind_at \<sigma> a = Some k \<longleftrightarrow> (\<exists>ls. \<sigma> a = Some (SCell ls k))"
  by (auto simp: kind_at.simps split: option.splits shape.splits)

text \<open>
  A listener is live (when \<open>safe\<close>), and unless it listens to a plain cell it only sets cells
  that were created later: this is what bounds the nesting of updates.
\<close>

definition listener_ok :: "bool \<Rightarrow> graph \<Rightarrow> addr \<Rightarrow> skind \<Rightarrow> addr \<Rightarrow> bool" where
  "listener_ok safe \<sigma> a k u =
     (case \<sigma> u of
        None \<Rightarrow> \<not> safe
      | Some s \<Rightarrow> (case goal u s of None \<Rightarrow> True | Some d \<Rightarrow> k = KPlain \<or> a < d))"

lemma listener_ok_kind:
  "listener_ok safe \<sigma> a k u \<Longrightarrow> k \<noteq> KPlain \<Longrightarrow> listener_ok safe \<sigma> a k' u"
  by (auto simp: listener_ok_def split: option.splits)

text \<open>A reference to an object of a certain kind; a dangling one is possible unless \<open>safe\<close>.\<close>

definition ref_ok :: "bool \<Rightarrow> graph \<Rightarrow> (skind \<Rightarrow> bool) \<Rightarrow> addr \<Rightarrow> bool" where
  "ref_ok safe \<sigma> p a = (case \<sigma> a of None \<Rightarrow> \<not> safe | Some (SCell ls k) \<Rightarrow> p k | Some _ \<Rightarrow> False)"

fun is_timeout_kind :: "skind \<Rightarrow> bool" where
  "is_timeout_kind (KTimeout k args t) = True"
| "is_timeout_kind _ = False"

fun is_async_kind :: "skind \<Rightarrow> bool" where
  "is_async_kind (KAsync k args) = True"
| "is_async_kind _ = False"

fun is_derived_kind :: "skind \<Rightarrow> bool" where
  "is_derived_kind (KDerived args) = True"
| "is_derived_kind _ = False"

definition refs_live :: "bool \<Rightarrow> graph \<Rightarrow> addr list \<Rightarrow> bool" where
  "refs_live safe \<sigma> args \<longleftrightarrow> (safe \<longrightarrow> (\<forall>b\<in>set args. kind_at \<sigma> b \<noteq> None))"

fun kind_ok :: "bool \<Rightarrow> nat \<Rightarrow> nat \<Rightarrow> graph \<Rightarrow> ctx_id set \<Rightarrow> addr \<Rightarrow> skind \<Rightarrow> bool" where
  "kind_ok safe N M \<sigma> K a KPlain = True"
| "kind_ok safe N M \<sigma> K a KFlag = (a < N)"
| "kind_ok safe N M \<sigma> K a (KDerived args) = (a < N \<and> refs_live safe \<sigma> args)"
| "kind_ok safe N M \<sigma> K a (KTimeout c args tc) =
     (a < N \<and> refs_live safe \<sigma> args \<and> (safe \<longrightarrow> c \<in> K)
      \<and> (case tc of None \<Rightarrow> True | Some t \<Rightarrow> a < t \<and> t < M \<and> ref_ok safe \<sigma> (\<lambda>k. k = KFlag) t))"
| "kind_ok safe N M \<sigma> K a (KAsync c args) = (a < N \<and> refs_live safe \<sigma> args \<and> (safe \<longrightarrow> c \<in> K))"

fun logic_ok :: "bool \<Rightarrow> nat \<Rightarrow> graph \<Rightarrow> action_logic \<Rightarrow> bool" where
  "logic_ok safe N \<sigma> (BindTimeout a) = (a < N \<and> ref_ok safe \<sigma> is_timeout_kind a)"
| "logic_ok safe N \<sigma> (BindAsync a) = (a < N \<and> ref_ok safe \<sigma> is_async_kind a)"
| "logic_ok safe N \<sigma> _ = True"

fun shape_ok :: "bool \<Rightarrow> nat \<Rightarrow> nat \<Rightarrow> graph \<Rightarrow> ctx_id set \<Rightarrow> addr \<Rightarrow> shape \<Rightarrow> bool" where
  "shape_ok safe N M \<sigma> K a (SCell ls k) =
     ((\<forall>u\<in>set ls. u < M \<and> listener_ok safe \<sigma> a k u) \<and> kind_ok safe N M \<sigma> K a k)"
| "shape_ok safe N M \<sigma> K a (SAction fin lg args) =
     ((safe \<longrightarrow> \<not> fin) \<and> args \<noteq> [] \<and> refs_live safe \<sigma> args \<and> logic_ok safe N \<sigma> lg)"

definition graph_ok :: "bool \<Rightarrow> nat \<Rightarrow> nat \<Rightarrow> graph \<Rightarrow> ctx_id set \<Rightarrow> bool" where
  "graph_ok safe N M \<sigma> K \<longleftrightarrow> (\<forall>a s. \<sigma> a = Some s \<longrightarrow> a < M \<and> shape_ok safe N M \<sigma> K a s)"

lemma graph_okD: "graph_ok safe N M \<sigma> K \<Longrightarrow> \<sigma> a = Some s \<Longrightarrow> a < M \<and> shape_ok safe N M \<sigma> K a s"
  by (simp add: graph_ok_def)

lemma graph_okI: "(\<And>a s. \<sigma> a = Some s \<Longrightarrow> a < M \<and> shape_ok safe N M \<sigma> K a s) \<Longrightarrow> graph_ok safe N M \<sigma> K"
  by (simp add: graph_ok_def)

section \<open>How the graph may change\<close>

text \<open>
  Everything the graph invariant says about an object looks at other objects only through their
  kinds, their logic and whether they are live.
\<close>

fun bare :: "skind \<Rightarrow> skind" where
  "bare (KTimeout c args tc) = KTimeout c args None"
| "bare k = k"

fun face :: "shape \<Rightarrow> shape" where
  "face (SCell ls k) = SCell [] (bare k)"
| "face (SAction fin lg args) = SAction fin lg []"

lemma bare_plain [simp]: "bare k = KPlain \<longleftrightarrow> k = KPlain" "bare k = KFlag \<longleftrightarrow> k = KFlag"
  by (cases k; simp)+

lemma is_timeout_kind_bare [simp]: "is_timeout_kind (bare k) = is_timeout_kind k"
  by (cases k) simp_all

lemma is_async_kind_bare [simp]: "is_async_kind (bare k) = is_async_kind k"
  by (cases k) simp_all

text \<open>\<open>\<tau>\<close> agrees with \<open>\<sigma>\<close> on every address below \<open>M\<close>, up to listeners and, unless \<open>safe\<close>, deletion.\<close>

definition keeps_faces :: "bool \<Rightarrow> nat \<Rightarrow> graph \<Rightarrow> graph \<Rightarrow> bool" where
  "keeps_faces safe M \<sigma> \<tau> \<longleftrightarrow>
     (\<forall>a<M. map_option face (\<tau> a) = map_option face (\<sigma> a) \<or> \<not> safe \<and> \<tau> a = None)"

lemma keeps_faces_refl [simp]: "keeps_faces safe M \<sigma> \<sigma>"
  by (simp add: keeps_faces_def)

lemma keeps_faces_cases:
  assumes "keeps_faces safe M \<sigma> \<tau>" and "a < M"
  obtains (gone) "\<not> safe" "\<tau> a = None"
    | (none) "\<sigma> a = None" "\<tau> a = None"
    | (cell) ls ls' k k' where "\<sigma> a = Some (SCell ls k)" "\<tau> a = Some (SCell ls' k')" "bare k' = bare k"
    | (action) fin lg args args' where "\<sigma> a = Some (SAction fin lg args)" "\<tau> a = Some (SAction fin lg args')"
  using assms unfolding keeps_faces_def
  by (cases "\<sigma> a"; cases "\<tau> a"; (cases "the (\<sigma> a)"; cases "the (\<tau> a)")?) fastforce+

lemma listener_ok_keeps:
  "listener_ok safe \<sigma> a k u \<Longrightarrow> keeps_faces safe M \<sigma> \<tau> \<Longrightarrow> u < M \<Longrightarrow> listener_ok safe \<tau> a k u"
proof (erule (1) keeps_faces_cases)
  fix ls ls' k1 k2 assume "listener_ok safe \<sigma> a k u" "\<sigma> u = Some (SCell ls k1)"
    "\<tau> u = Some (SCell ls' k2)" and bare: "bare k2 = bare k1"
  moreover have "goal u (SCell ls' k2) = goal u (SCell ls k1)"
    using bare by (metis bare_plain goal.simps(1))
  ultimately show "listener_ok safe \<tau> a k u" by (simp add: listener_ok_def)
next
  fix fin lg args args' assume "listener_ok safe \<sigma> a k u" "\<sigma> u = Some (SAction fin lg args)"
    "\<tau> u = Some (SAction fin lg args')"
  then show "listener_ok safe \<tau> a k u" by (cases lg) (simp_all add: listener_ok_def)
qed (auto simp: listener_ok_def)

text \<open>Which flag cell a timeout cell owns is not part of its face.\<close>

definition bare_property :: "(skind \<Rightarrow> bool) \<Rightarrow> bool" where
  "bare_property p \<longleftrightarrow> (\<forall>k. p (bare k) = p k)"

lemma bare_properties [simp]:
  "bare_property is_timeout_kind" "bare_property is_async_kind" "bare_property (\<lambda>k. k = KFlag)"
  by (simp_all add: bare_property_def)

lemma ref_ok_keeps:
  "ref_ok safe \<sigma> p a \<Longrightarrow> keeps_faces safe M \<sigma> \<tau> \<Longrightarrow> a < M \<Longrightarrow> bare_property p \<Longrightarrow> ref_ok safe \<tau> p a"
proof (erule (1) keeps_faces_cases)
  fix ls ls' k k' assume "ref_ok safe \<sigma> p a" "\<sigma> a = Some (SCell ls k)" "\<tau> a = Some (SCell ls' k')"
    "bare k' = bare k" "bare_property p"
  moreover from this have "p k' = p k" unfolding bare_property_def by metis
  ultimately show "ref_ok safe \<tau> p a" by (simp add: ref_ok_def)
qed (auto simp: ref_ok_def)

lemma refs_live_keeps:
  assumes "refs_live safe \<sigma> args" and "keeps_faces safe M \<sigma> \<tau>" and "\<And>a s. \<sigma> a = Some s \<Longrightarrow> a < M"
  shows "refs_live safe \<tau> args"
proof -
  have "kind_at \<tau> b \<noteq> None" if "safe" and b: "kind_at \<sigma> b \<noteq> None" for b
  proof -
    from b obtain ls k where "\<sigma> b = Some (SCell ls k)" by (auto simp: kind_at_Some)
    with assms(3) have "b < M" by blast
    with assms(2) show ?thesis by (rule keeps_faces_cases) (use that in \<open>auto simp: kind_at.simps\<close>)
  qed
  with assms(1) show ?thesis by (auto simp: refs_live_def)
qed

lemma kind_ok_keeps:
  assumes "kind_ok safe N M \<sigma> K a k" and "keeps_faces safe M \<sigma> \<tau>" and "\<And>a s. \<sigma> a = Some s \<Longrightarrow> a < M"
    and "N \<le> N'" and "M \<le> M'" and "safe \<Longrightarrow> K \<subseteq> K'"
  shows "kind_ok safe N' M' \<tau> K' a k"
  using assms refs_live_keeps [OF _ assms(2,3)] ref_ok_keeps [OF _ assms(2)]
  by (cases k) (auto split: option.splits)

lemma logic_ok_keeps:
  "logic_ok safe N \<sigma> lg \<Longrightarrow> keeps_faces safe M \<sigma> \<tau> \<Longrightarrow> N \<le> N' \<Longrightarrow> N \<le> M \<Longrightarrow> logic_ok safe N' \<tau> lg"
  using ref_ok_keeps [of safe \<sigma> _ _ M \<tau>] by (cases lg) auto

lemma shape_ok_keeps:
  assumes "shape_ok safe N M \<sigma> K a s" and "keeps_faces safe M \<sigma> \<tau>" and "\<And>a s. \<sigma> a = Some s \<Longrightarrow> a < M"
    and "N \<le> N'" and "M \<le> M'" and "safe \<Longrightarrow> K \<subseteq> K'" and "N \<le> M"
  shows "shape_ok safe N' M' \<tau> K' a s"
  using assms(1) kind_ok_keeps [OF _ assms(2-6)] refs_live_keeps [OF _ assms(2,3)]
    logic_ok_keeps [OF _ assms(2,4,7)] listener_ok_keeps [OF _ assms(2)] assms(5)
  by (cases s) (auto simp: less_le_trans)

text \<open>The invariant survives when old objects keep their face and all changed or new ones are fine.\<close>

lemma graph_ok_keeps:
  assumes ok: "graph_ok safe N M \<sigma> K" and keeps: "keeps_faces safe M \<sigma> \<tau>"
    and "N \<le> N'" and M: "M \<le> M'" and "safe \<Longrightarrow> K \<subseteq> K'" and "N \<le> M"
    and new: "\<And>a s. \<tau> a = Some s \<Longrightarrow> \<sigma> a \<noteq> Some s \<Longrightarrow> a < M' \<and> shape_ok safe N' M' \<tau> K' a s"
  shows "graph_ok safe N' M' \<tau> K'"
proof (rule graph_okI)
  fix a s assume s: "\<tau> a = Some s"
  show "a < M' \<and> shape_ok safe N' M' \<tau> K' a s"
  proof (cases "\<sigma> a = Some s")
    case True
    with ok have "a < M \<and> shape_ok safe N M \<sigma> K a s" by (rule graph_okD)
    with shape_ok_keeps [OF _ keeps, of N K a s N' M' K'] graph_okD [OF ok] assms show ?thesis by auto
  qed (use new s in blast)
qed

end
