(* ===== verification/Invariant.thy ===== *)
theory Invariant
  imports Graph
begin

text \<open>
  The runtime invariant: the handler table agrees with the cells, the dependency graph is well
  formed, and a set of pins holds.  A pin records something about one object that no operation may
  change while the object lives: its kind, the state of a derived cell that is settled, how many
  listeners it had.  The second part shows that every elementary state change keeps the invariant.
\<close>

section \<open>Pins\<close>

datatype 'v pin =
    PinCell addr skind "'v cell_state option" nat
  | PinAction addr bool action_logic "addr list"
  | PinCtx ctx_id

definition frozen_ok :: "'v cell \<Rightarrow> 'v cell_state option \<Rightarrow> bool" where
  "frozen_ok c so =
     (case so of
        None \<Rightarrow> True
      | Some s \<Rightarrow> is_derived_kind (skind_of (kind c)) \<and> has_value_or_error s \<and> cstate c = s)"

fun pin_ok :: "bool \<Rightarrow> ('v, 'r) rt \<Rightarrow> 'v pin \<Rightarrow> bool" where
  "pin_ok safe rt (PinCell a k so n) =
     (a < next_addr rt
      \<and> (case heap rt a of
           None \<Rightarrow> \<not> safe
         | Some (CellObj c) \<Rightarrow> skind_of (kind c) = k \<and> frozen_ok c so \<and> n \<le> length (updatables c)
         | Some (ActionObj x) \<Rightarrow> False))"
| "pin_ok safe rt (PinAction u fin lg args) =
     (u < next_addr rt
      \<and> (case heap rt u of
           None \<Rightarrow> \<not> safe
         | Some (CellObj c) \<Rightarrow> False
         | Some (ActionObj x) \<Rightarrow> is_final_action x = fin \<and> act_logic x = lg \<and> act_args x = args))"
| "pin_ok safe rt (PinCtx k) = (safe \<longrightarrow> k \<in> dom (ctxs rt))"

definition rinv :: "bool \<Rightarrow> nat \<Rightarrow> 'v pin set \<Rightarrow> ('v, 'r) rt \<Rightarrow> bool" where
  "rinv safe N P rt \<longleftrightarrow>
     rt_ok rt \<and> N \<le> next_addr rt \<and> graph_ok safe N (next_addr rt) (skel rt) (dom (ctxs rt))
     \<and> (\<forall>p\<in>P. pin_ok safe rt p)"

text \<open>The faults an operation may end with: never the bound of the model, and no memory error if \<open>safe\<close>.\<close>

definition ok_fault :: "bool \<Rightarrow> fault \<Rightarrow> bool" where
  "ok_fault safe e \<longleftrightarrow>
     e \<noteq> OutOfFuel \<and> (safe \<longrightarrow> (\<forall>a. e \<noteq> UseAfterFree a \<and> e \<noteq> DoubleFree a))"

lemma ok_fault_simps [simp]:
  "\<not> ok_fault safe OutOfFuel"
  "ok_fault safe (UseAfterFree a) = (\<not> safe)"
  "ok_fault safe (DoubleFree a) = (\<not> safe)"
  "ok_fault safe NullDeref"
  "ok_fault safe (AssertFailed msg)"
  by (auto simp: ok_fault_def)

lemma inv_pins_mono: "rinv safe N P rt \<Longrightarrow> Q \<subseteq> P \<Longrightarrow> rinv safe N Q rt"
  by (auto simp: rinv_def)

lemma inv_insert: "rinv safe N (insert p P) rt \<longleftrightarrow> pin_ok safe rt p \<and> rinv safe N P rt"
  by (auto simp: rinv_def)

lemma inv_pin: "rinv safe N P rt \<Longrightarrow> p \<in> P \<Longrightarrow> pin_ok safe rt p"
  by (simp add: rinv_def)

lemma outcome_inv_pins_mono:
  "outcome (rinv safe N P) Er r \<Longrightarrow> Q \<subseteq> P \<Longrightarrow> outcome (rinv safe N Q) Er r"
  by (erule outcome_mono) (auto intro: inv_pins_mono)

lemma inv_rt_ok: "rinv safe N P rt \<Longrightarrow> rt_ok rt"
  by (simp add: rinv_def)

lemma inv_graph: "rinv safe N P rt \<Longrightarrow> graph_ok safe N (next_addr rt) (skel rt) (dom (ctxs rt))"
  by (simp add: rinv_def)

lemma skel_None: "skel rt a = None \<longleftrightarrow> heap rt a = None"
  by (simp add: skel_def)

lemma skel_dead [simp]: "heap rt a = None \<Longrightarrow> skel rt a = None"
  by (simp add: skel_def)

lemma skel_Some: "skel rt a = Some s \<longleftrightarrow> (\<exists>ob. heap rt a = Some ob \<and> shape_of ob = s)"
  by (auto simp: skel_def)

text \<open>Looking at a pinned object.\<close>

lemma with_cell_pin:
  assumes "rinv safe N P rt" and "PinCell a k so n \<in> P"
    and "\<And>c. heap rt a = Some (CellObj c) \<Longrightarrow> skind_of (kind c) = k \<Longrightarrow> n \<le> length (updatables c)
            \<Longrightarrow> outcome Q (ok_fault safe) (f c)"
  shows "outcome Q (ok_fault safe) (with_cell a rt f)"
  using inv_pin [OF assms(1,2)] assms(3)
  by (auto simp: with_cell_def split: option.splits obj.splits)

lemma with_timeout_cell_pin:
  assumes "rinv safe N P rt" and "PinCell a (KTimeout k args tc) so n \<in> P"
    and "\<And>c ti. heap rt a = Some (CellObj c) \<Longrightarrow> kind c = TimeoutCell ti \<Longrightarrow> ti_ctxt ti = k
            \<Longrightarrow> rpc_args ti = args \<Longrightarrow> timeout_cell ti = tc \<Longrightarrow> outcome Q (ok_fault safe) (f c ti)"
  shows "outcome Q (ok_fault safe) (with_timeout_cell a rt f)"
  unfolding with_timeout_cell_def
proof (rule with_cell_pin [OF assms(1,2)])
  fix c assume "heap rt a = Some (CellObj c)" "skind_of (kind c) = KTimeout k args tc"
  with assms(3) show "outcome Q (ok_fault safe)
      (case kind c of TimeoutCell ti \<Rightarrow> f c ti | _ \<Rightarrow> Inl (UseAfterFree a))"
    by (cases "kind c") auto
qed

text \<open>A live object can be pinned.\<close>

lemma inv_heap_bound: "rinv safe N P rt \<Longrightarrow> heap rt a = Some ob \<Longrightarrow> a < next_addr rt"
  by (auto simp: rinv_def rt_ok_def heap_ok_def not_le[symmetric])

lemma inv_pin_cell:
  "rinv safe N P rt \<Longrightarrow> heap rt a = Some (CellObj c) \<Longrightarrow> frozen_ok c so \<Longrightarrow> n \<le> length (updatables c)
   \<Longrightarrow> rinv safe N (insert (PinCell a (skind_of (kind c)) so n) P) rt"
  by (simp add: inv_insert inv_heap_bound)

lemma inv_pin_action:
  "rinv safe N P rt \<Longrightarrow> heap rt u = Some (ActionObj x)
   \<Longrightarrow> rinv safe N (insert (PinAction u (is_final_action x) (act_logic x) (act_args x)) P) rt"
  by (simp add: inv_insert inv_heap_bound)

lemma frozen_ok_None [simp]: "frozen_ok c None"
  by (simp add: frozen_ok_def)

section \<open>Elementary state changes\<close>

text \<open>Fields the invariant does not look at.\<close>

lemma skel_cong: "heap rt' = heap rt \<Longrightarrow> skel rt' = skel rt"
  by (simp add: skel_def fun_eq_iff)

lemma pin_ok_cong:
  "heap rt' = heap rt \<Longrightarrow> next_addr rt' = next_addr rt \<Longrightarrow> dom (ctxs rt') = dom (ctxs rt)
   \<Longrightarrow> pin_ok safe rt' p = pin_ok safe rt p"
  by (cases p) auto

lemma inv_frame:
  assumes "heap rt' = heap rt" and "next_addr rt' = next_addr rt" and "dom (ctxs rt') = dom (ctxs rt)"
    and "id_func_map rt' = id_func_map rt"
  shows "rinv safe N P rt' = rinv safe N P rt"
  using assms skel_cong [OF assms(1)] pin_ok_cong [OF assms(1-3)] handlers_ok_but_frame [OF assms(1,4)]
    heap_ok_frame [OF assms(1,2)]
  by (simp add: rinv_def rt_ok_def)

lemma inv_frames [simp]:
  "rinv safe N P (emit e rt) = rinv safe N P rt"
  "rinv safe N P (rt\<lparr>seq_counter := s\<rparr>) = rinv safe N P rt"
  "rinv safe N P (rt\<lparr>register_state := r\<rparr>) = rinv safe N P rt"
  "rinv safe N P (rt\<lparr>should_reset_to_default_size := b\<rparr>) = rinv safe N P rt"
  "rinv safe N P (rt\<lparr>tasks := t\<rparr>) = rinv safe N P rt"
  "rinv safe N P (rt\<lparr>tasks := t, next_task := n\<rparr>) = rinv safe N P rt"
  by (rule inv_frame; simp add: emit_def)+

lemma inv_ctxs_update [simp]:
  "ctxs rt k = Some x \<Longrightarrow> rinv safe N P (rt\<lparr>ctxs := (ctxs rt)(k \<mapsto> y)\<rparr>) = rinv safe N P rt"
  by (rule inv_frame) auto

lemma track_inv:
  "rinv safe N P rt \<Longrightarrow> PinCtx k \<in> P \<Longrightarrow> outcome (rinv safe N P) (ok_fault safe) (track k a rt)"
  by (auto simp: track_def dest: inv_pin split: option.split)

text \<open>Changing a cell without changing its face.\<close>

lemma pin_ok_put_cell:
  assumes "pin_ok safe rt p" and "heap rt a = Some (CellObj c)"
    and "skind_of (kind c') = skind_of (kind c)" and "\<And>so. frozen_ok c so \<Longrightarrow> frozen_ok c' so"
    and "length (updatables c) \<le> length (updatables c')"
  shows "pin_ok safe (put_cell a c' rt) p"
  using assms by (cases p) (auto simp: put_cell_def)

lemma id_only_plain_kind:
  "id_only_plain c \<Longrightarrow> has_seq_id c' = has_seq_id c \<Longrightarrow> skind_of (kind c') = skind_of (kind c) \<Longrightarrow> id_only_plain c'"
  by (cases "kind c"; cases "kind c'") (auto simp: id_only_plain_def)

lemma inv_put_cell:
  assumes inv: "rinv safe N P rt" and c: "heap rt a = Some (CellObj c)"
    and kind: "skind_of (kind c') = skind_of (kind c)" and frozen: "\<And>so. frozen_ok c so \<Longrightarrow> frozen_ok c' so"
    and len: "length (updatables c) \<le> length (updatables c')"
    and id: "has_seq_id c' = has_seq_id c" "seq_id c' = seq_id c"
    and new: "\<And>u. u \<in> set (updatables c') \<Longrightarrow> u \<notin> set (updatables c) \<Longrightarrow>
        u < next_addr rt \<and> listener_ok safe (skel rt) a (skind_of (kind c)) u"
  shows "rinv safe N P (put_cell a c' rt)"
proof -
  let ?rt = "put_cell a c' rt" and ?k = "skind_of (kind c)"
  have old: "skel rt a = Some (SCell (updatables c) ?k)" using c by (simp add: skel_def)
  have skel: "skel ?rt = (skel rt)(a \<mapsto> SCell (updatables c') ?k)"
    using kind by (auto simp: skel_def put_cell_def)
  have keeps: "keeps_faces safe (next_addr rt) (skel rt) (skel ?rt)"
    using old by (simp add: keeps_faces_def skel)
  have g: "graph_ok safe N (next_addr rt) (skel rt) (dom (ctxs rt))" using inv by (rule inv_graph)
  have a: "shape_ok safe N (next_addr rt) (skel rt) (dom (ctxs rt)) a (SCell (updatables c') ?k)"
    using graph_okD [OF g old] new by auto
  have "graph_ok safe N (next_addr rt) (skel ?rt) (dom (ctxs rt))"
  proof (rule graph_ok_keeps [OF g keeps])
    fix b s assume s: "skel ?rt b = Some s" "skel rt b \<noteq> Some s"
    then have "b = a" "s = SCell (updatables c') ?k" by (auto simp: skel split: if_splits)
    moreover have "shape_ok safe N (next_addr rt) (skel ?rt) (dom (ctxs rt)) a (SCell (updatables c') ?k)"
      by (rule shape_ok_keeps [OF a keeps]) (use graph_okD [OF g] inv in \<open>auto simp: rinv_def\<close>)
    ultimately show "b < next_addr rt \<and> shape_ok safe N (next_addr rt) (skel ?rt) (dom (ctxs rt)) b s"
      using graph_okD [OF g old] by blast
  qed (use inv in \<open>simp_all add: rinv_def\<close>)
  moreover have "rt_ok ?rt"
    using inv_rt_ok [OF inv] handlers_ok_put_cell [OF _ c id] heap_ok_put_cell [OF _ c id_only_plain_kind [OF _ id(1) kind]]
      heap_ok_plain [OF _ c]
    by (simp add: rt_ok_def)
  moreover have "\<forall>p\<in>P. pin_ok safe ?rt p"
    using inv pin_ok_put_cell [OF _ c kind frozen len] by (simp add: rinv_def)
  ultimately show ?thesis using inv by (simp add: rinv_def put_cell_def)
qed

lemma inv_set_state:
  assumes "rinv safe N P rt" and "heap rt a = Some (CellObj c)"
    and "\<not> is_derived_kind (skind_of (kind c)) \<or> \<not> has_value_or_error (cstate c)"
  shows "rinv safe N P (put_cell a (c\<lparr>cstate := s\<rparr>) rt)"
  using assms(1,2)
  by (rule inv_put_cell) (use assms(3) in \<open>auto simp: frozen_ok_def split: option.splits\<close>)

lemma inv_add_listener:
  assumes "rinv safe N P rt" and "heap rt a = Some (CellObj c)"
    and "u < next_addr rt" and "listener_ok safe (skel rt) a (skind_of (kind c)) u"
  shows "rinv safe N P (put_cell a (c\<lparr>updatables := updatables c @ [u]\<rparr>) rt)"
  using assms(1,2)
  by (rule inv_put_cell) (use assms(3,4) in \<open>auto simp: frozen_ok_def split: option.splits\<close>)

lemma inv_set_timeout_info:
  assumes "rinv safe N P rt" and "heap rt a = Some (CellObj c)" and "kind c = TimeoutCell ti"
    and "ti_ctxt ti' = ti_ctxt ti" "rpc_args ti' = rpc_args ti" "timeout_cell ti' = timeout_cell ti"
  shows "rinv safe N P (put_cell a (c\<lparr>kind := TimeoutCell ti'\<rparr>) rt)"
  using assms(1,2)
  by (rule inv_put_cell) (use assms(3-) in \<open>auto simp: frozen_ok_def split: option.splits\<close>)

text \<open>A new object; \<open>N'\<close> may grow to take it in.\<close>

lemma pin_ok_fresh:
  assumes "pin_ok safe rt p" and "\<And>a. a < next_addr rt \<Longrightarrow> heap rt' a = heap rt a"
    and "next_addr rt \<le> next_addr rt'" and "dom (ctxs rt) \<subseteq> dom (ctxs rt')"
  shows "pin_ok safe rt' p"
  using assms by (cases p) auto

lemma inv_fresh:
  assumes inv: "rinv safe N P rt" and ok: "rt_ok rt'"
    and heap: "\<And>a. a < next_addr rt \<Longrightarrow> heap rt' a = heap rt a"
    and nxt: "next_addr rt \<le> next_addr rt'" and ctxs: "dom (ctxs rt) \<subseteq> dom (ctxs rt')"
    and N: "N \<le> N'" "N' \<le> next_addr rt'"
    and new: "\<And>a s. next_addr rt \<le> a \<Longrightarrow> skel rt' a = Some s
        \<Longrightarrow> shape_ok safe N' (next_addr rt') (skel rt') (dom (ctxs rt')) a s"
  shows "rinv safe N' P rt'"
proof -
  have same: "skel rt' a = skel rt a" if "a < next_addr rt" for a using heap [OF that] by (simp add: skel_def)
  have "graph_ok safe N' (next_addr rt') (skel rt') (dom (ctxs rt'))"
  proof (rule graph_ok_keeps [OF inv_graph [OF inv]])
    show "keeps_faces safe (next_addr rt) (skel rt) (skel rt')" by (simp add: keeps_faces_def same)
    fix a s assume s: "skel rt' a = Some s" "skel rt a \<noteq> Some s"
    then have "next_addr rt \<le> a" using same by (metis not_le)
    moreover have "a < next_addr rt'"
      using ok s(1) by (auto simp: rt_ok_def heap_ok_def skel_Some not_le[symmetric])
    ultimately show "a < next_addr rt' \<and> shape_ok safe N' (next_addr rt') (skel rt') (dom (ctxs rt')) a s"
      using new s(1) by blast
  qed (use nxt N ctxs inv in \<open>auto simp: rinv_def\<close>)
  moreover have "\<forall>p\<in>P. pin_ok safe rt' p"
    using inv pin_ok_fresh [OF _ heap nxt ctxs] by (auto simp: rinv_def)
  ultimately show ?thesis using ok N by (simp add: rinv_def)
qed

lemma rt_ok_alloc: "rt_ok rt \<Longrightarrow> carried_id (Some ob) = None \<Longrightarrow> rt_ok (snd (alloc ob rt))"
  by (simp add: rt_ok_def handlers_ok_alloc heap_ok_alloc)

lemma inv_alloc:
  assumes inv: "rinv safe N P rt" and ob: "carried_id (Some ob) = None"
    and N: "N \<le> N'" "N' \<le> Suc (next_addr rt)"
    and shape: "shape_ok safe N' (Suc (next_addr rt)) ((skel rt)(next_addr rt \<mapsto> shape_of ob))
        (dom (ctxs rt)) (next_addr rt) (shape_of ob)"
  shows "rinv safe N' P (snd (alloc ob rt))"
proof (rule inv_fresh [OF inv rt_ok_alloc [OF inv_rt_ok [OF inv] ob]])
  let ?rt = "snd (alloc ob rt)"
  have skel: "skel ?rt = (skel rt)(next_addr rt \<mapsto> shape_of ob)"
    by (auto simp: skel_def alloc_def)
  fix a s assume "next_addr rt \<le> a" "skel ?rt a = Some s"
  moreover have "skel rt b \<noteq> Some t" if "next_addr rt \<le> b" for b t
    using that inv_rt_ok [OF inv] by (simp add: rt_ok_def heap_ok_def skel_def)
  ultimately have "a = next_addr rt" "s = shape_of ob" by (auto simp: skel split: if_splits)
  with shape show "shape_ok safe N' (next_addr ?rt) (skel ?rt) (dom (ctxs ?rt)) a s"
    by (simp add: skel) (simp add: alloc_def)
qed (use N in \<open>simp_all add: alloc_def\<close>)

text \<open>Deletion, when dangling references are allowed.\<close>

lemma inv_only_deleted:
  assumes inv: "rinv False N P rt" and ok: "rt_ok rt'" and del: "only_deleted rt rt'"
  shows "rinv False N P rt'"
proof -
  have heap: "heap rt' a = None \<or> heap rt' a = heap rt a" for a
    using del by (cases "heap rt' a") (auto simp: only_deleted_def map_le_def dom_def dest: spec)
  then have skel: "skel rt' a = None \<or> skel rt' a = skel rt a" for a
    by (metis skel_def option.map(1))
  have "graph_ok False N (next_addr rt) (skel rt') (dom (ctxs rt'))"
  proof (rule graph_ok_keeps [OF inv_graph [OF inv]])
    show "keeps_faces False (next_addr rt) (skel rt) (skel rt')"
      unfolding keeps_faces_def using skel by metis
    fix a s assume "skel rt' a = Some s" "skel rt a \<noteq> Some s"
    then show "a < next_addr rt \<and> shape_ok False N (next_addr rt) (skel rt') (dom (ctxs rt')) a s"
      using skel [of a] by auto
  qed (use inv in \<open>simp_all add: rinv_def\<close>)
  moreover have "pin_ok False rt' p" if "pin_ok False rt p" for p
  proof (cases p)
    case (PinCell a k so n)
    then show ?thesis using that heap [of a] del by (auto simp: only_deleted_def)
  next
    case (PinAction a fin lg args)
    then show ?thesis using that heap [of a] del by (auto simp: only_deleted_def)
  qed simp
  ultimately show ?thesis using inv ok del by (simp add: rinv_def only_deleted_def)
qed

lemma delete_obj_inv:
  assumes "rinv False N P rt"
  shows "outcome (rinv False N P) (ok_fault False) (delete_obj E a rt)"
proof -
  have "outcome (\<lambda>rt'. rt_ok rt' \<and> only_deleted rt rt') (\<lambda>e. e \<noteq> OutOfFuel) (delete_obj E a rt)"
    using inv_rt_ok [OF assms] delete_obj_rt_ok [of rt E a] delete_obj_only_deleted [of rt E a]
      delete_obj_no_overflow [of rt E a]
    by (cases "delete_obj E a rt") auto
  then show ?thesis
    by (rule outcome_mono) (use inv_only_deleted [OF assms] in \<open>auto simp: ok_fault_def\<close>)
qed

end
