(* ===== verification/Requests.thy ===== *)
theory Requests
  imports Invariant
begin

text \<open>
  Sending a request keeps the runtime invariant: the new cell is registered under the id that the
  request carries, or, when anything fails, deleted again before a failed cell takes its place.
\<close>

section \<open>What the codec and the channel touch\<close>

definition quiet :: "('v, 'r) rt \<Rightarrow> ('v, 'r) rt \<Rightarrow> bool" where
  "quiet rt rt' \<longleftrightarrow>
     heap rt' = heap rt \<and> next_addr rt' = next_addr rt \<and> ctxs rt' = ctxs rt
     \<and> id_func_map rt' = id_func_map rt \<and> next_ctx rt' = next_ctx rt"

lemma quiet_refl [simp]: "quiet rt rt"
  by (simp add: quiet_def)

lemma quiet_inv: "quiet rt rt' \<Longrightarrow> rinv safe N P rt \<Longrightarrow> rinv safe N P rt'"
  by (rule inv_frame [THEN iffD2]) (simp_all add: quiet_def)

lemma msgrpc_log_quiet: "outcome (quiet rt) (ok_fault safe) (msgrpc_log E rt)"
  by (rule outcome_log) simp_all

lemma do_encode_quiet: "outcome (\<lambda>(b, rt'). quiet rt rt') (ok_fault safe) (do_encode E v rt)"
  by (cases "thrift_write E v")
    (auto simp: do_encode_def Let_def quiet_def intro!: outcome_bind [OF msgrpc_log_quiet [unfolded quiet_def]])

lemma do_decode_fault: "outcome any_error (ok_fault safe) (do_decode E ty bs rt)"
  by (auto simp: do_decode_def intro!: outcome_rules split: option.split)

lemma send_msg_quiet: "outcome (\<lambda>(b, rt'). quiet rt rt') (ok_fault safe) (send_msg E sid m mem rt)"
  by (simp add: send_msg_def Let_def quiet_def emit_def split: option.split)

lemma send_msg_with_header_quiet:
  "outcome (quiet rt) (ok_fault safe) (send_msg_with_header E sid h out rt)"
proof -
  have "outcome (quiet rt) (ok_fault safe) (bindR (send_msg E sid m mem rt) (\<lambda>(_, rt). Inr rt))" for m mem
    by (rule outcome_bind [OF send_msg_quiet]) auto
  then show ?thesis by (simp add: send_msg_with_header_def Let_def split: option.split)
qed

lemma send_rsp_cell_value_quiet:
  "outcome (\<lambda>(r, rt'). quiet rt rt') (ok_fault safe) (send_rsp_cell_value E sid h s rt)"
proof -
  have "outcome (\<lambda>(r, rt'). quiet rt rt') (ok_fault safe)
     (bindR (send_msg_with_header E sid h (Some out) rt1) (\<lambda>rt. Inr (Succeeded, rt)))" if "quiet rt rt1" for out rt1
    by (rule outcome_bind [OF send_msg_with_header_quiet]) (use that in \<open>simp add: quiet_def\<close>)
  then show ?thesis
    by (auto simp: send_rsp_cell_value_def intro!: outcome_bind [OF do_encode_quiet]
        split: option.split cval.split)
qed

section \<open>Cells made on the spot\<close>

text \<open>A fresh plain cell that nobody listens to.\<close>

definition fresh_cell :: "('v, 'r) rt \<Rightarrow> addr \<Rightarrow> bool" where
  "fresh_cell rt a \<longleftrightarrow>
     (\<forall>c. heap rt a = Some (CellObj c) \<longrightarrow> cell_value (cstate c) = None \<and> updatables c = [])"

definition got_cell ::
  "bool \<Rightarrow> nat \<Rightarrow> 'v pin set \<Rightarrow> addr \<times> ('v, 'r) rt \<Rightarrow> bool" where
  "got_cell safe N P r \<longleftrightarrow>
     (case r of (a, rt) \<Rightarrow> rinv safe N (insert (PinCell a KPlain None 0) P) rt \<and> fresh_cell rt a)"

lemma track_fields: "track k a rt = Inr rt' \<Longrightarrow> heap rt' = heap rt \<and> next_addr rt' = next_addr rt
    \<and> dom (ctxs rt') = dom (ctxs rt) \<and> id_func_map rt' = id_func_map rt"
  by (auto simp: track_def split: option.splits if_splits)

lemma track_got_cell:
  assumes "got_cell safe N P (a, rt)" and "PinCtx k \<in> P"
  shows "outcome (got_cell safe N P) (ok_fault safe) (bindR (track k a rt) (\<lambda>rt. Inr (a, rt)))"
proof -
  have "outcome (rinv safe N (insert (PinCell a KPlain None 0) P)) (ok_fault safe) (track k a rt)"
    using assms by (intro track_inv) (auto simp: got_cell_def)
  then show ?thesis using assms(1)
    by (cases "track k a rt") (auto simp: got_cell_def fresh_cell_def dest: track_fields)
qed

lemma alloc_plain:
  assumes "rinv safe N P rt" and "alloc (CellObj c) rt = (a, rt')" and "kind c = PlainCell"
    and "\<not> has_seq_id c" and "updatables c = []"
  shows "rinv safe N (insert (PinCell a KPlain None 0) P) rt'"
    and "heap rt' a = Some (CellObj c)" and "a = next_addr rt" and "ctxs rt' = ctxs rt"
proof -
  have "rinv safe N P (snd (alloc (CellObj c) rt))"
    using assms(1) by (rule inv_alloc) (use assms in \<open>auto simp: rinv_def\<close>)
  then show "rinv safe N (insert (PinCell a KPlain None 0) P) rt'"
    using assms(2,3) by (auto simp: inv_insert alloc_def)
qed (use assms(2) in \<open>auto simp: alloc_def\<close>)

lemma failed_cell_with_reason_inv:
  assumes "rinv safe N P rt" and "PinCtx k \<in> P"
  shows "outcome (got_cell safe N P) (ok_fault safe) (failed_cell_with_reason k ty r rt)"
proof (cases "new_instance ty r rt")
  case (Pair a rt')
  with alloc_plain [OF assms(1)] have "got_cell safe N P (a, rt')"
    by (auto simp: new_instance_def new_cell_def got_cell_def fresh_cell_def)
  with Pair show ?thesis
    using assms(2) by (simp add: failed_cell_with_reason_def track_got_cell)
qed

section \<open>Requests\<close>

definition carrying :: "'v cell \<Rightarrow> rpc_sequence_id \<Rightarrow> 'v cell" where
  "carrying c s = c\<lparr>seq_id := s, has_seq_id := True\<rparr>"

text \<open>What \<open>send_rpc_request_buf\<close> does to the heap: at most, the sink now carries the new id.\<close>

lemma send_rpc_request_buf_effect:
  fixes rt :: "('v, 'r) rt"
  assumes b: "heap rt b = Some (CellObj c)" and ctx: "safe \<Longrightarrow> k \<in> dom (ctxs rt)"
  shows "outcome (\<lambda>(sent, rt').
      next_addr rt' = next_addr rt \<and> ctxs rt' = ctxs rt \<and> next_ctx rt' = next_ctx rt
      \<and> (\<not> sent \<and> quiet rt rt'
         \<or> (let s = fst (get (seq_counter rt)) in
              id_func_map rt s = None \<and> id_func_map rt' = (id_func_map rt)(s \<mapsto> b)
              \<and> heap rt' = (heap rt)(b \<mapsto> CellObj (carrying c s)))))
    (ok_fault safe) (send_rpc_request_buf E k svc i m pbuf b rt)"
proof -
  let ?s = "fst (get (seq_counter rt))"
  define Q where "Q rt' \<longleftrightarrow> next_addr rt' = next_addr rt \<and> ctxs rt' = ctxs rt \<and> next_ctx rt' = next_ctx rt
      \<and> id_func_map rt ?s = None \<and> id_func_map rt' = (id_func_map rt)(?s \<mapsto> b)
      \<and> heap rt' = (heap rt)(b \<mapsto> CellObj (carrying c ?s))" for rt' :: "('v, 'r) rt"
  have reg: "outcome Q (ok_fault safe) (register_rsp_Handler ?s b (rt\<lparr>seq_counter := t\<rparr>))" for t
    using b by (auto simp: register_rsp_Handler_def set_sequential_id_def with_cell_def put_cell_def
        Q_def carrying_def)
  have send: "outcome (\<lambda>(sent, rt'). Q rt') (ok_fault safe) (send_msg E sid t mem rt1)"
    if "Q rt1" for sid t mem rt1
    using send_msg_quiet by (rule outcome_mono) (use that in \<open>auto simp: Q_def quiet_def\<close>)
  have Q_reg: "Q rt1 \<Longrightarrow> Q (rt1\<lparr>register_state := r\<rparr>)" for rt1 r by (simp add: Q_def)
  have rest: "outcome (\<lambda>(sent, rt'). \<not> sent \<and> quiet rt rt' \<or> Q rt') (ok_fault safe)
      (send_rpc_request_buf E k svc i m pbuf b rt)"
    unfolding send_rpc_request_buf_def
    apply (rule outcome_if)
     apply simp
    apply (subst get_pair)
    apply (simp only: prod.case)
    apply (rule outcome_bind [OF reg])
    apply (auto simp: Let_def Q_reg dest: ctx intro!: outcome_mono [OF send] split: option.split prod.split)
    using ctx by (auto simp: Q_def)
  then show ?thesis
    by (rule outcome_mono) (auto simp: Q_def quiet_def Let_def)
qed

lemma rt_ok_carrying:
  assumes ok: "rt_ok rt" and c: "heap rt b = Some (CellObj c)" "\<not> has_seq_id c" and plain: "kind c = PlainCell"
    and s: "id_func_map rt s = None"
    and rt': "id_func_map rt' = (id_func_map rt)(s \<mapsto> b)" "heap rt' = (heap rt)(b \<mapsto> CellObj (carrying c s))"
      "next_addr rt' = next_addr rt"
  shows "rt_ok rt'"
proof -
  from ok have ok': "handlers_ok rt" "heap_ok rt" by (simp_all add: rt_ok_def)
  let ?rt = "put_cell b (carrying c s) (rt\<lparr>id_func_map := (id_func_map rt)(s \<mapsto> b)\<rparr>)"
  from register_rsp_Handler_ok [OF ok'(1) c, of s] have "handlers_ok ?rt"
    using s c by (simp add: register_rsp_Handler_def set_sequential_id_def with_cell_def carrying_def)
  then have "handlers_ok rt'"
    by (rule handlers_ok_but_frame [THEN iffD1, rotated -1]) (simp_all add: rt' put_cell_def)
  moreover have "heap_ok rt'"
    by (rule heap_ok_frame [THEN iffD1, rotated -1, OF heap_ok_put_cell [OF ok'(2) c(1), of "carrying c s"]])
      (simp_all add: rt' put_cell_def id_only_plain_def carrying_def plain)
  ultimately show ?thesis by (simp add: rt_ok_def)
qed

lemma delete_plain_cell:
  assumes "heap rt b = Some (CellObj c)" and "kind c = PlainCell" and "bound_context c = None"
  shows "delete_obj E b rt = rsp_cell_base_dtor E c (free_obj b rt)"
  using assms
  by (cases "rsp_cell_base_dtor E c (free_obj b rt)")
    (simp_all add: delete_obj_def delete_body_def timeout_cell_dtor_def cell_context_base_dtor_def)

lemma delete_plain_cell_effect:
  assumes "rt_ok rt" and "heap rt b = Some (CellObj c)" and "kind c = PlainCell" and "bound_context c = None"
  shows "outcome (\<lambda>rt'. rt_ok rt' \<and> heap rt' = (heap rt)(b := None) \<and> next_addr rt' = next_addr rt
      \<and> ctxs rt' = ctxs rt) (ok_fault safe) (delete_obj E b rt)"
proof -
  have "outcome (\<lambda>rt'. heap rt' = (heap rt)(b := None) \<and> next_addr rt' = next_addr rt
      \<and> ctxs rt' = ctxs rt) (ok_fault safe) (delete_obj E b rt)"
    by (simp add: delete_plain_cell assms(2-4) rsp_cell_base_dtor_def remove_rsp_handler_def
        erase_handler_def free_obj_def msgrpc_log_def split: option.split)
  with delete_obj_rt_ok [OF assms(1), of E b] show ?thesis
    by (cases "delete_obj E b rt") auto
qed

lemma encode_request_and_send_inv:
  fixes rt :: "('v, 'r) rt"
  assumes inv: "rinv safe N P rt" and ctx: "PinCtx k \<in> P"
  shows "outcome (got_cell safe N P) (ok_fault safe) (encode_request_and_send E k svc i m ty req rt)"
  unfolding encode_request_and_send_def
proof (rule outcome_bind [OF do_encode_quiet], clarify)
  fix buf and rt1 :: "('v, 'r) rt" assume "quiet rt rt1"
  then have inv1: "rinv safe N P rt1" using inv by (rule quiet_inv)
  have failed: "outcome (got_cell safe N P) (ok_fault safe) (failed_cell_with_reason k ty Failed rt2)"
    if "rinv safe N P rt2" for rt2 :: "('v, 'r) rt"
    using that ctx by (rule failed_cell_with_reason_inv)
  show "outcome (got_cell safe N P) (ok_fault safe)
     (case buf of
        None \<Rightarrow> bindR (msgrpc_log E rt1) (failed_cell_with_reason k ty Failed)
      | Some pbuf \<Rightarrow>
         (case alloc (CellObj (new_cell ty PlainCell)) rt1 of
            (rpc_result_cell, rt) \<Rightarrow>
              bindR (send_rpc_request_buf E k svc i m pbuf rpc_result_cell rt) (\<lambda>(sent, rt).
              if \<not> sent
              then bindR (delete_obj E rpc_result_cell rt) (failed_cell_with_reason k ty Failed)
              else bindR (track k rpc_result_cell rt) (\<lambda>rt. Inr (rpc_result_cell, rt)))))"
  proof (cases buf)
    case None
    then show ?thesis using failed inv1
      by (auto intro!: outcome_bind [OF msgrpc_log_quiet] intro: quiet_inv)
  next
    case (Some pbuf)
    let ?c = "new_cell ty PlainCell :: 'v cell"
    obtain b rt2 where alloc: "alloc (CellObj ?c) rt1 = (b, rt2)" by fastforce
    note plain = alloc_plain [OF inv1 alloc]
    have inv2: "rinv safe N (insert (PinCell b KPlain None 0) P) rt2" and b: "heap rt2 b = Some (CellObj ?c)"
      and b_def: "b = next_addr rt1" and ctxs2: "ctxs rt2 = ctxs rt1"
      using plain by (simp_all add: new_cell_def)
    have rt2: "next_addr rt2 = Suc b" "heap rt2 = (heap rt1)(b \<mapsto> CellObj ?c)" "ctxs rt2 = ctxs rt1"
      using alloc by (auto simp: alloc_def)
    have ctx2: "k \<in> dom (ctxs rt2)" if safe
      using that inv_pin [OF inv1 ctx] by (simp add: ctxs2)
    \<comment> \<open>States that differ from the one before the allocation in \<open>b\<close> only.\<close>
    have step: "rinv safe N P rt3"
      if "rt_ok rt3" "next_addr rt3 = Suc b" "ctxs rt3 = ctxs rt1"
        "heap rt3 = (heap rt1)(b := x)" "x = None \<or> (\<exists>c. x = Some (CellObj c) \<and> kind c = PlainCell \<and> updatables c = [])"
      for rt3 :: "('v, 'r) rt" and x
    proof (rule inv_fresh [OF inv1 that(1)])
      have "heap rt1 a = None" if "b \<le> a" for a
        using that inv_rt_ok [OF inv1] by (simp add: rt_ok_def heap_ok_def b_def)
      then show "shape_ok safe N (next_addr rt3) (skel rt3) (dom (ctxs rt3)) a s"
        if "next_addr rt1 \<le> a" "skel rt3 a = Some s" for a s
        using that \<open>heap rt3 = _\<close> \<open>x = None \<or> _\<close> by (auto simp: skel_Some b_def split: if_splits)
    qed (use that inv1 in \<open>auto simp: b_def rinv_def\<close>)
    have "outcome (got_cell safe N P) (ok_fault safe)
       (bindR (send_rpc_request_buf E k svc i m pbuf b rt2) (\<lambda>(sent, rt).
              if \<not> sent
              then bindR (delete_obj E b rt) (failed_cell_with_reason k ty Failed)
              else bindR (track k b rt) (\<lambda>rt. Inr (b, rt))))"
    proof (rule outcome_bind [OF send_rpc_request_buf_effect [OF b]], fact ctx2, clarify)
      fix sent and rt3 :: "('v, 'r) rt"
      assume rt3: "next_addr rt3 = next_addr rt2" "ctxs rt3 = ctxs rt2"
        and effect: "\<not> sent \<and> quiet rt2 rt3 \<or> (let s = fst (get (seq_counter rt2)) in
              id_func_map rt2 s = None \<and> id_func_map rt3 = (id_func_map rt2)(s \<mapsto> b)
              \<and> heap rt3 = (heap rt2)(b \<mapsto> CellObj (carrying ?c s)))"
      let ?s = "fst (get (seq_counter rt2))"
      have "\<exists>c. heap rt3 = (heap rt1)(b \<mapsto> CellObj c) \<and> (c = ?c \<or> c = carrying ?c ?s)"
        using effect by (auto simp: Let_def rt2 quiet_def)
      then obtain c where c: "heap rt3 = (heap rt1)(b \<mapsto> CellObj c)" "c = ?c \<or> c = carrying ?c ?s" by blast
      then have plain: "kind c = PlainCell" "updatables c = []" "bound_context c = None" "cell_value (cstate c) = None"
        by (auto simp: new_cell_def carrying_def empty_state_def)
      have ok3: "rt_ok rt3"
      proof (cases "\<not> sent \<and> quiet rt2 rt3")
        case True
        then show ?thesis using inv_rt_ok [OF inv2] handlers_ok_but_frame [of rt3 rt2 "{}"] heap_ok_frame [of rt3 rt2]
          by (simp add: rt_ok_def quiet_def)
      next
        case False
        with effect show ?thesis
          by (intro rt_ok_carrying [OF inv_rt_ok [OF inv2] b]) (simp_all add: Let_def rt3 new_cell_def)
      qed
      show "outcome (got_cell safe N P) (ok_fault safe)
          (if \<not> sent then bindR (delete_obj E b rt3) (failed_cell_with_reason k ty Failed)
           else bindR (track k b rt3) (\<lambda>rt. Inr (b, rt)))"
      proof (cases sent)
        case True
        have "rinv safe N P rt3" using ok3 c plain by (intro step) (auto simp: rt3 rt2)
        then have "got_cell safe N P (b, rt3)"
          using plain by (auto simp: got_cell_def inv_insert fresh_cell_def c(1) rt3 rt2)
        with True ctx show ?thesis by (simp add: track_got_cell)
      next
        case False
        have b3: "heap rt3 b = Some (CellObj c)" using c(1) by simp
        have "outcome (got_cell safe N P) (ok_fault safe)
            (bindR (delete_obj E b rt3) (failed_cell_with_reason k ty Failed))"
          by (rule outcome_bind [OF delete_plain_cell_effect [OF ok3 b3 plain(1,3)]])
            (auto intro!: failed step simp: rt3 rt2 c(1))
        with False show ?thesis by simp
      qed
    qed
    then show ?thesis by (simp add: Some alloc)
  qed
qed

lemma start_rpc_inv:
  assumes inv: "rinv safe N P rt" and ctx: "PinCtx k \<in> P"
  shows "outcome (\<lambda>(r, rt'). rinv safe N P rt' \<and> (\<forall>b. r = Some b \<longrightarrow> got_cell safe N P (b, rt')))
    (ok_fault safe) (start_rpc E k ty start rt)"
proof -
  have some: "outcome (\<lambda>(r, rt'). rinv safe N P rt' \<and> (\<forall>b. r = Some b \<longrightarrow> got_cell safe N P (b, rt')))
      (ok_fault safe) (bindR m (\<lambda>(a, rt). Inr (Some a, rt)))"
    if "outcome (got_cell safe N P) (ok_fault safe) m" for m :: "fault + addr \<times> ('a, 'b) rt"
    using that by (rule outcome_bind) (auto simp: got_cell_def inv_insert)
  show ?thesis
    using inv some failed_cell_with_reason_inv [OF inv ctx] encode_request_and_send_inv [OF inv ctx]
    by (cases start) (simp_all add: start_rpc_def)
qed

end
