(* ===== verification/Updates.thy ===== *)
theory Updates
  imports Requests
begin

text \<open>
  The interface between the cell operations and the virtual method \<^verbatim>\<open>update\<close>: locale
  \<open>virtual_update\<close> states what an operation may expect of the \<open>update\<close> it is given, and its lemmas
  show for each operation of \<open>Cells\<close> that the invariant is kept under that contract.  At the end
  the contract is discharged for \<open>update_f\<close> by induction on the bound, and \<open>update\<close> gives an
  interpretation.
\<close>

definition can_update :: "bool \<Rightarrow> nat \<Rightarrow> addr \<Rightarrow> ('v, 'r) rt \<Rightarrow> bool" where
  "can_update safe d u rt \<longleftrightarrow>
     (case skel rt u of
        None \<Rightarrow> \<not> safe
      | Some s \<Rightarrow> (case goal u s of None \<Rightarrow> True | Some e \<Rightarrow> d \<le> e))"

text \<open>An object that may be registered with the cell \<open>a\<close>, known from the pins.\<close>

definition listens :: "'v pin set \<Rightarrow> addr \<Rightarrow> skind \<Rightarrow> addr \<Rightarrow> bool" where
  "listens P a k u \<longleftrightarrow>
     (\<exists>s. ((\<exists>fin lg args. PinAction u fin lg args \<in> P \<and> s = SAction fin lg args)
           \<or> (\<exists>ku so n. PinCell u ku so n \<in> P \<and> s = SCell [] ku))
          \<and> (case goal u s of None \<Rightarrow> True | Some e \<Rightarrow> k = KPlain \<or> a < e))"

lemma listens_mono: "listens P a k u \<Longrightarrow> P \<subseteq> Q \<Longrightarrow> listens Q a k u"
  unfolding listens_def by blast

lemma goal_cell_listeners: "goal u (SCell ls k) = goal u (SCell [] k)"
  by simp

lemma listens_ok:
  assumes "rinv safe N P rt" and "listens P a k u"
  shows "u < next_addr rt" and "listener_ok safe (skel rt) a k u" and "can_update safe 0 u rt"
proof -
  from assms(2) consider
      (action) fin lg args where "PinAction u fin lg args \<in> P"
        "case goal u (SAction fin lg args) of None \<Rightarrow> True | Some e \<Rightarrow> k = KPlain \<or> a < e"
    | (cell) ku so n where "PinCell u ku so n \<in> P"
        "case goal u (SCell [] ku) of None \<Rightarrow> True | Some e \<Rightarrow> k = KPlain \<or> a < e"
    unfolding listens_def by blast
  then have "u < next_addr rt \<and> listener_ok safe (skel rt) a k u \<and> can_update safe 0 u rt"
  proof cases
    case action
    from inv_pin [OF assms(1) action(1)] action(2) show ?thesis
      by (auto simp: listener_ok_def can_update_def skel_def split: option.splits obj.splits)
  next
    case cell
    from inv_pin [OF assms(1) cell(1)] cell(2) show ?thesis
      by (auto simp: listener_ok_def can_update_def skel_def split: option.splits obj.splits if_splits)
  qed
  then show "u < next_addr rt" and "listener_ok safe (skel rt) a k u" and "can_update safe 0 u rt"
    by blast+
qed

section \<open>New actions\<close>

definition pinned_cells :: "'v pin set \<Rightarrow> addr list \<Rightarrow> bool" where
  "pinned_cells P args \<longleftrightarrow> (\<forall>b\<in>set args. \<exists>k so n. PinCell b k so n \<in> P)"

lemma pinned_cells_live:
  assumes "rinv safe N P rt" and "pinned_cells P args"
  shows "refs_live safe (skel rt) args"
  unfolding refs_live_def
proof (intro impI ballI)
  fix b assume "safe" "b \<in> set args"
  with assms(2) obtain k so n where "PinCell b k so n \<in> P" by (auto simp: pinned_cells_def)
  from inv_pin [OF assms(1) this] \<open>safe\<close> show "kind_at (skel rt) b \<noteq> None"
    by (auto simp: kind_at.simps skel_def split: option.splits obj.splits)
qed

lemma keeps_faces_new: "\<sigma> M = None \<Longrightarrow> keeps_faces safe M \<sigma> (\<sigma>(M \<mapsto> s))"
  by (simp add: keeps_faces_def)

lemma fresh_skel: "rinv safe N P rt \<Longrightarrow> skel rt (next_addr rt) = None"
  by (simp add: rinv_def rt_ok_def heap_ok_def)

lemma alloc_action:
  fixes rt :: "('v, 'r) rt"
  assumes inv: "rinv safe N P rt" and args: "args \<noteq> []" "pinned_cells P args"
    and lg: "logic_ok safe N (skel rt) lg" and fin: "safe \<Longrightarrow> \<not> fin"
    and alloc: "alloc (ActionObj \<lparr>is_final_action = fin, act_cell = None, act_logic = lg, act_args = args\<rparr>) rt
      = (u, rt')"
  shows "rinv safe N (insert (PinAction u fin lg args) P) rt'"
    and "heap rt' = (heap rt)(u \<mapsto> ActionObj \<lparr>is_final_action = fin, act_cell = None, act_logic = lg, act_args = args\<rparr>)"
    and "u = next_addr rt"
proof -
  let ?ob = "ActionObj \<lparr>is_final_action = fin, act_cell = None, act_logic = lg, act_args = args\<rparr> :: 'v obj"
  let ?\<tau> = "(skel rt)(next_addr rt \<mapsto> shape_of ?ob)"
  have keeps: "keeps_faces safe (next_addr rt) (skel rt) ?\<tau>"
    using fresh_skel [OF inv] by (rule keeps_faces_new)
  have "refs_live safe ?\<tau> args"
    using refs_live_keeps [OF pinned_cells_live [OF inv args(2)] keeps] graph_okD [OF inv_graph [OF inv]] by blast
  moreover have "logic_ok safe N ?\<tau> lg"
    using logic_ok_keeps [OF lg keeps] inv by (simp add: rinv_def)
  ultimately have "rinv safe N P (snd (alloc ?ob rt))"
    using inv args(1) fin by (intro inv_alloc [OF inv]) (auto simp: rinv_def)
  then show "rinv safe N (insert (PinAction u fin lg args) P) rt'"
    using alloc by (auto simp: inv_insert alloc_def)
qed (use alloc in \<open>auto simp: alloc_def\<close>)

text \<open>Registering with a cell that is still empty only appends to its listeners.\<close>

lemma register_empty:
  assumes inv: "rinv safe N P rt" and b: "PinCell b k so n \<in> P" and u: "listens P b k u"
    and empty: "\<And>c. heap rt b = Some (CellObj c) \<Longrightarrow> \<not> has_value_or_error (cstate c)"
  shows "outcome (rinv safe N P) (ok_fault safe) (register_listener upd b u rt)"
  unfolding register_listener_def
proof (rule with_cell_pin [OF inv b])
  fix c assume c: "heap rt b = Some (CellObj c)" and k: "skind_of (kind c) = k"
  have "rinv safe N P (put_cell b (c\<lparr>updatables := updatables c @ [u]\<rparr>) rt)"
    using listens_ok [OF inv u] k by (intro inv_add_listener [OF inv c]) auto
  then show "outcome (rinv safe N P) (ok_fault safe)
      (if has_value_or_error (cstate c) then upd u rt
       else Inr (put_cell b (c\<lparr>updatables := updatables c @ [u]\<rparr>) rt))"
    using empty [OF c] by simp
qed

lemma derive_action_on_fresh:
  assumes inv: "rinv safe N P rt" and ctx: "PinCtx k \<in> P" and b: "PinCell b KPlain so n \<in> P"
    and lg: "logic_ok safe N (skel rt) lg"
    and empty: "\<And>c. heap rt b = Some (CellObj c) \<Longrightarrow> \<not> has_value_or_error (cstate c)"
  shows "outcome (\<lambda>(u, rt'). rinv safe N P rt') (ok_fault safe) (derive_action upd k lg [b] rt)"
proof -
  obtain u rt1 where alloc: "alloc (ActionObj \<lparr>is_final_action = False, act_cell = None, act_logic = lg,
      act_args = [b]\<rparr>) rt = (u, rt1)" by fastforce
  let ?P = "insert (PinAction u False lg [b]) P"
  have args: "[b] \<noteq> []" "pinned_cells P [b]" using b by (auto simp: pinned_cells_def)
  note new = alloc_action [OF inv args lg _ alloc]
  have inv1: "rinv safe N ?P rt1" by (rule new) simp
  have "listens ?P b KPlain u" unfolding listens_def by (auto split: option.split)
  moreover have "\<not> has_value_or_error (cstate c)" if "heap rt1 b = Some (CellObj c)" for c
    using that empty new(2) by (auto split: if_splits)
  ultimately have "outcome (rinv safe N ?P) (ok_fault safe) (register_listener upd b u rt1)"
    using register_empty [OF inv1] b by blast
  then have "outcome (rinv safe N P) (ok_fault safe) (register_as_listener upd u [b] rt1)"
    by (auto simp: register_as_listener_def inv_insert outcome_bind_eq elim!: outcome_mono)
  then show ?thesis
    by (auto simp: derive_action_def new_derived_action_def alloc outcome_bind_eq
        intro!: outcome_mono [OF track_inv [OF _ ctx]] elim!: outcome_mono)
qed

section \<open>The contract of update\<close>

locale virtual_update =
  fixes upd :: "addr \<Rightarrow> ('v, 'r) rt \<Rightarrow> ('v, 'r) res"
    and safe :: bool
    and N d :: nat
  assumes upd_ok: "rinv safe N P rt \<Longrightarrow> can_update safe d u rt
      \<Longrightarrow> outcome (rinv safe N P) (ok_fault safe) (upd u rt)"
begin

text \<open>Which cells an operation may set, so that their listeners are within the contract.\<close>

definition level :: "addr \<Rightarrow> skind \<Rightarrow> bool" where
  "level a k \<longleftrightarrow> (if k = KPlain then d = 0 else d \<le> Suc a)"

lemma listener_can_update:
  assumes "rinv safe N P rt" and "heap rt a = Some (CellObj c)" and "u \<in> set (updatables c)"
    and "level a (skind_of (kind c))"
  shows "can_update safe d u rt"
proof -
  have "skel rt a = Some (SCell (updatables c) (skind_of (kind c)))" using assms(2) by (simp add: skel_def)
  from graph_okD [OF inv_graph [OF assms(1)] this] assms(3)
  have "listener_ok safe (skel rt) a (skind_of (kind c)) u" by simp
  with assms(4) show ?thesis
    by (auto simp: listener_ok_def can_update_def level_def split: option.splits if_splits)
qed

lemma evaluate_inv:
  assumes inv: "rinv safe N P rt" and a: "PinCell a k so n \<in> P" and "level a k"
  shows "outcome (rinv safe N P) (ok_fault safe) (evaluate_all_derived_cells upd a rt)"
  unfolding evaluate_all_derived_cells_def
proof (rule with_cell_pin [OF inv a])
  fix c0 assume c0: "heap rt a = Some (CellObj c0)" and k: "skind_of (kind c0) = k"
  let ?P = "insert (PinCell a k None (length (updatables c0))) P"
  have inv': "rinv safe N ?P rt" using inv_pin_cell [OF inv c0, of None] k by simp
  have "outcome (rinv safe N ?P) (ok_fault safe)
     (foldR (\<lambda>i rt. with_cell a rt (\<lambda>c. if i < length (updatables c) then upd (updatables c ! i) rt
        else Inl (UseAfterFree a))) [0..<length (updatables c0)] rt)"
  proof (rule outcome_fold, rule inv')
    fix i and rt1 :: "('v, 'r) rt" assume i: "i \<in> set [0..<length (updatables c0)]" and inv1: "rinv safe N ?P rt1"
    show "outcome (rinv safe N ?P) (ok_fault safe)
       (with_cell a rt1 (\<lambda>c. if i < length (updatables c) then upd (updatables c ! i) rt1
          else Inl (UseAfterFree a)))"
    proof (rule with_cell_pin [OF inv1 insertI1])
      fix c assume c: "heap rt1 a = Some (CellObj c)" "skind_of (kind c) = k"
        and "length (updatables c0) \<le> length (updatables c)"
      with i have i: "i < length (updatables c)" by simp
      then have "can_update safe d (updatables c ! i) rt1"
        using listener_can_update [OF inv1 c(1)] c(2) assms(3) by simp
      with i upd_ok [OF inv1] show "outcome (rinv safe N ?P) (ok_fault safe)
          (if i < length (updatables c) then upd (updatables c ! i) rt1 else Inl (UseAfterFree a))"
        by simp
    qed
  qed
  then show "outcome (rinv safe N P) (ok_fault safe)
     (foldR (\<lambda>i rt. with_cell a rt (\<lambda>c. if i < length (updatables c) then upd (updatables c ! i) rt
        else Inl (UseAfterFree a))) [0..<length (updatables c0)] rt)"
    by (rule outcome_inv_pins_mono) blast
qed

text \<open>A cell may be set unless it is a derived cell that is settled.\<close>

definition settable :: "('v, 'r) rt \<Rightarrow> addr \<Rightarrow> bool" where
  "settable rt a \<longleftrightarrow> (\<forall>c. heap rt a = Some (CellObj c) \<longrightarrow>
     \<not> is_derived_kind (skind_of (kind c)) \<or> \<not> has_value_or_error (cstate c))"

lemma set_state_inv:
  assumes "rinv safe N P rt" and "PinCell a k so n \<in> P" and "level a k" and "settable rt a"
  shows "outcome (rinv safe N P) (ok_fault safe)
    (with_cell a rt (\<lambda>c. evaluate_all_derived_cells upd a (put_cell a (c\<lparr>cstate := f c\<rparr>) rt)))"
  by (rule with_cell_pin [OF assms(1,2)])
    (use assms(4) in \<open>auto simp: settable_def intro!: evaluate_inv [OF _ assms(2,3)] inv_set_state [OF assms(1)]\<close>)

lemma set_failed_reason_inv:
  "rinv safe N P rt \<Longrightarrow> PinCell a k so n \<in> P \<Longrightarrow> level a k \<Longrightarrow> settable rt a
   \<Longrightarrow> outcome (rinv safe N P) (ok_fault safe) (set_failed_reason upd a r rt)"
  unfolding set_failed_reason_def by (rule set_state_inv)

lemma set_value_inv:
  "rinv safe N P rt \<Longrightarrow> PinCell a k so n \<in> P \<Longrightarrow> level a k \<Longrightarrow> settable rt a
   \<Longrightarrow> outcome (rinv safe N P) (ok_fault safe) (set_value upd a v rt)"
  unfolding set_value_def by (rule set_state_inv)

lemma set_cell_value_inv:
  "rinv safe N P rt \<Longrightarrow> PinCell a k so n \<in> P \<Longrightarrow> level a k \<Longrightarrow> settable rt a
   \<Longrightarrow> outcome (rinv safe N P) (ok_fault safe) (set_cell_value upd a s rt)"
  by (simp add: set_cell_value_def the_value_def set_failed_reason_inv set_value_inv split: option.split)

lemmas set_inv = set_failed_reason_inv set_value_inv set_cell_value_inv

lemma settable_kind: "rinv safe N P rt \<Longrightarrow> PinCell a k so n \<in> P \<Longrightarrow> \<not> is_derived_kind k \<Longrightarrow> settable rt a"
  by (drule (1) inv_pin) (auto simp: settable_def)

lemma register_listener_inv:
  assumes inv: "rinv safe N P rt" and a: "PinCell a k so n \<in> P" and u: "listens P a k u"
    and d: "can_update safe d u rt"
  shows "outcome (rinv safe N P) (ok_fault safe) (register_listener upd a u rt)"
  unfolding register_listener_def
proof (rule with_cell_pin [OF inv a])
  fix c assume c: "heap rt a = Some (CellObj c)" and k: "skind_of (kind c) = k"
  show "outcome (rinv safe N P) (ok_fault safe)
      (if has_value_or_error (cstate c) then upd u rt
       else Inr (put_cell a (c\<lparr>updatables := updatables c @ [u]\<rparr>) rt))"
    using upd_ok [OF inv d] inv_add_listener [OF inv c] listens_ok(1,2) [OF inv u] k by auto
qed

end

section \<open>Facts about pinned cells\<close>

lemma ref_ok_pin:
  assumes "ref_ok safe (skel rt) p a" and "a < next_addr rt" and "p k0"
  obtains k where "p k" and "pin_ok safe rt (PinCell a k None 0)"
proof (cases "heap rt a" rule: object_cases)
  case (cell c)
  with assms(1) have "p (skind_of (kind c))" by (simp add: ref_ok_def skel_def)
  with cell that assms(2) show ?thesis by simp
qed (use assms that in \<open>auto simp: ref_ok_def skel_def\<close>)

lemma read_args_fault: "refs_live safe (skel rt) args \<Longrightarrow> outcome any_error (ok_fault safe) (read_args args rt)"
proof (induction args)
  case (Cons a args)
  then have "outcome any_error (ok_fault safe) (read_args args rt)" by (simp add: refs_live_def)
  with Cons.prems show ?case
    by (auto simp: with_cell_def refs_live_def kind_at.simps skel_def outcome_bind_eq
        split: option.splits obj.splits elim: outcome_mono)
qed simp

lemma below_N:
  assumes "rinv safe N P rt" and "heap rt a = Some (CellObj c)" and "kind c \<noteq> PlainCell"
  shows "a < N"
proof -
  have "skel rt a = Some (SCell (updatables c) (skind_of (kind c)))" using assms(2) by (simp add: skel_def)
  from graph_okD [OF inv_graph [OF assms(1)] this] assms(3) show ?thesis by (cases "kind c") auto
qed

lemma timeout_refs:
  assumes inv: "rinv safe N P rt" and a: "PinCell a (KTimeout k args tc) so n \<in> P"
  shows "pin_ok safe rt (PinCtx k)" and "refs_live safe (skel rt) args"
    and "a < N \<Longrightarrow> logic_ok safe N (skel rt) (BindTimeout a)"
proof -
  from inv_pin [OF inv a] have *: "(heap rt a = None \<and> \<not> safe)
      \<or> (\<exists>c. heap rt a = Some (CellObj c) \<and> skind_of (kind c) = KTimeout k args tc)"
    by (auto split: option.splits obj.splits)
  then have "\<not> safe \<or> shape_ok safe N (next_addr rt) (skel rt) (dom (ctxs rt)) a
      (shape_of (the (heap rt a)))"
    using graph_okD [OF inv_graph [OF inv], of a] by (auto simp: skel_def)
  then show "pin_ok safe rt (PinCtx k)" "refs_live safe (skel rt) args"
    using * by (auto simp: refs_live_def)
  show "a < N \<Longrightarrow> logic_ok safe N (skel rt) (BindTimeout a)"
    using * by (auto simp: ref_ok_def skel_def)
qed

lemma async_refs:
  assumes inv: "rinv safe N P rt" and a: "PinCell a (KAsync k args) so n \<in> P"
  shows "pin_ok safe rt (PinCtx k)" and "refs_live safe (skel rt) args"
    and "a < N \<Longrightarrow> logic_ok safe N (skel rt) (BindAsync a)"
proof -
  from inv_pin [OF inv a] have *: "(heap rt a = None \<and> \<not> safe)
      \<or> (\<exists>c. heap rt a = Some (CellObj c) \<and> skind_of (kind c) = KAsync k args)"
    by (auto split: option.splits obj.splits)
  then have "\<not> safe \<or> shape_ok safe N (next_addr rt) (skel rt) (dom (ctxs rt)) a
      (shape_of (the (heap rt a)))"
    using graph_okD [OF inv_graph [OF inv], of a] by (auto simp: skel_def)
  then show "pin_ok safe rt (PinCtx k)" "refs_live safe (skel rt) args"
    using * by (auto simp: refs_live_def)
  show "a < N \<Longrightarrow> logic_ok safe N (skel rt) (BindAsync a)"
    using * by (auto simp: ref_ok_def skel_def)
qed

lemma update_timeout_info_inv:
  assumes inv: "rinv safe N P rt" and a: "PinCell a (KTimeout k args tc) so n \<in> P"
    and f: "\<And>ti. ti_ctxt (f ti) = ti_ctxt ti \<and> rpc_args (f ti) = rpc_args ti \<and> timeout_cell (f ti) = timeout_cell ti"
  shows "outcome (\<lambda>rt'. rinv safe N P rt' \<and> (\<forall>b. b \<noteq> a \<longrightarrow> heap rt' b = heap rt b)) (ok_fault safe)
    (update_timeout_info a f rt)"
  unfolding update_timeout_info_def
proof (rule with_timeout_cell_pin [OF inv a])
  fix c ti assume c: "heap rt a = Some (CellObj c)" and ti: "kind c = TimeoutCell ti"
  have "rinv safe N P (put_cell a (c\<lparr>kind := TimeoutCell (f ti)\<rparr>) rt)"
    using f by (intro inv_set_timeout_info [OF inv c ti]) auto
  then show "outcome (\<lambda>rt'. rinv safe N P rt' \<and> (\<forall>b. b \<noteq> a \<longrightarrow> heap rt' b = heap rt b)) (ok_fault safe)
      (Inr (put_cell a (c\<lparr>kind := TimeoutCell (f ti)\<rparr>) rt))"
    by (simp add: put_cell_def)
qed

lemma set_timer_quiet: "outcome (quiet rt) (ok_fault safe) (set_timer E ms m s rt)"
  by (simp add: set_timer_def quiet_def emit_def split: option.split)

lemma cancel_timer_quiet: "outcome (quiet rt) (ok_fault safe) (cancel_timer E m s rt)"
  by (simp add: cancel_timer_def quiet_def emit_def split: option.split)

lemma bind_timeout_cell_inv:
  assumes inv: "rinv safe N P rt" and a: "PinCell a (KTimeout k args tc) so n \<in> P"
    and b: "PinCell b KPlain None 0 \<in> P"
    and empty: "\<And>c. heap rt b = Some (CellObj c) \<Longrightarrow> \<not> has_value_or_error (cstate c)"
  shows "outcome (rinv safe N P) (ok_fault safe) (bind_timeout_cell upd a b rt)"
  unfolding bind_timeout_cell_def
proof (rule with_timeout_cell_pin [OF inv a])
  fix c ti assume c: "heap rt a = Some (CellObj c)" "kind c = TimeoutCell ti" and "ti_ctxt ti = k"
  then have lg: "logic_ok safe N (skel rt) (BindTimeout a)"
    using timeout_refs(3) [OF inv a] below_N [OF inv c(1)] by simp
  have "rinv safe N (insert (PinCtx k) P) rt" using timeout_refs(1) [OF inv a] inv by (simp add: inv_insert)
  from derive_action_on_fresh [OF this insertI1 insertI2 [OF b] lg empty]
  have "outcome (\<lambda>(u, rt'). rinv safe N P rt') (ok_fault safe) (derive_action upd k (BindTimeout a) [b] rt)"
    by (rule outcome_mono) (auto simp: inv_insert)
  then show "outcome (rinv safe N P) (ok_fault safe)
     (bindR (derive_action upd (ti_ctxt ti) (BindTimeout a) [b] rt) (\<lambda>(_, rt). Inr rt))"
    using \<open>ti_ctxt ti = k\<close> by (auto intro: outcome_bind)
qed

lemma fresh_after_info:
  assumes "got_cell safe N P (b, rt)" and "PinCell a (KTimeout k args tc) so n \<in> P"
    and "rinv safe N (insert (PinCell b KPlain None 0) P) rt'" and "\<forall>b. b \<noteq> a \<longrightarrow> heap rt' b = heap rt b"
  shows "fresh_cell rt' b"
proof (cases "b = a")
  case True
  with assms(2) inv_pin [OF assms(3), of "PinCell a (KTimeout k args tc) so n"]
    inv_pin [OF assms(3) insertI1] show ?thesis
    by (auto simp: fresh_cell_def)
next
  case False
  with assms(1,4) show ?thesis by (simp add: got_cell_def fresh_cell_def)
qed

context virtual_update
begin

lemma level_below: "d \<le> Suc a \<Longrightarrow> k \<noteq> KPlain \<Longrightarrow> level a k"
  by (simp add: level_def)

lemma invoke_rpc_once_inv:
  assumes inv: "rinv safe N P rt" and a: "PinCell a (KTimeout k args tc) so n \<in> P" and d: "d \<le> Suc a"
  shows "outcome (rinv safe N P) (ok_fault safe) (invoke_rpc_once E upd a ms rt)"
  unfolding invoke_rpc_once_def
proof (rule with_timeout_cell_pin [OF inv a])
  fix c :: "'v cell" and ti :: "'v timeout_info" assume ti: "ti_ctxt ti = k" "rpc_args ti = args"
  let ?P = "insert (PinCtx k) P"
  have inv': "rinv safe N ?P rt" using timeout_refs(1) [OF inv a] inv by (simp add: inv_insert)
  have a': "PinCell a (KTimeout k args tc) so n \<in> ?P" using a by simp
  have "outcome (rinv safe N P) (ok_fault safe)
     (bindR (update_timeout_info a (\<lambda>ti. ti\<lparr>is_rpc_started := True\<rparr>) rt1) (\<lambda>rt.
           with_cell b rt (\<lambda>rpc.
             if has_error (cstate rpc)
             then set_failed_reason upd a (failed_reason (cstate rpc)) rt
             else if \<not> has_seq_id rpc
             then Inl (AssertFailed ''only support add timer guard on cells with seq_id.'')
             else bindR (set_timer E ms (set_timer_msg_id (env_config E)) (seq_id rpc) rt)
                    (bind_timeout_cell upd a b))))"
    if got: "got_cell safe N ?P (b, rt1)" for b and rt1 :: "('v, 'r) rt"
  proof -
    let ?Q = "insert (PinCell b KPlain None 0) ?P"
    have invQ: "rinv safe N ?Q rt1" using got by (simp add: got_cell_def)
    have aQ: "PinCell a (KTimeout k args tc) so n \<in> ?Q" and bQ: "PinCell b KPlain None 0 \<in> ?Q" using a by auto
    have "outcome (rinv safe N ?Q) (ok_fault safe)
     (bindR (update_timeout_info a (\<lambda>ti. ti\<lparr>is_rpc_started := True\<rparr>) rt1) (\<lambda>rt.
           with_cell b rt (\<lambda>rpc.
             if has_error (cstate rpc)
             then set_failed_reason upd a (failed_reason (cstate rpc)) rt
             else if \<not> has_seq_id rpc
             then Inl (AssertFailed ''only support add timer guard on cells with seq_id.'')
             else bindR (set_timer E ms (set_timer_msg_id (env_config E)) (seq_id rpc) rt)
                    (bind_timeout_cell upd a b))))"
    proof (rule outcome_bind [OF update_timeout_info_inv [OF invQ aQ]], simp, elim conjE)
      fix rt2 :: "('v, 'r) rt" assume inv2: "rinv safe N ?Q rt2" and "\<forall>b. b \<noteq> a \<longrightarrow> heap rt2 b = heap rt1 b"
      then have fresh: "fresh_cell rt2 b" by (rule fresh_after_info [OF got a'])
      have failed: "outcome (rinv safe N ?Q) (ok_fault safe) (set_failed_reason upd a r rt2)" for r
        by (rule set_failed_reason_inv [OF inv2 aQ level_below settable_kind [OF inv2 aQ]]) (simp_all add: d)
      have bind: "outcome (rinv safe N ?Q) (ok_fault safe) (bind_timeout_cell upd a b rt3)"
        if "quiet rt2 rt3" "\<not> has_error (cstate rpc)" "heap rt2 b = Some (CellObj rpc)"
        for rpc and rt3 :: "('v, 'r) rt"
        using that fresh
        by (intro bind_timeout_cell_inv [OF quiet_inv [OF that(1) inv2] aQ bQ])
          (auto simp: quiet_def fresh_cell_def has_value_or_error_def has_value_def)
      show "outcome (rinv safe N ?Q) (ok_fault safe)
         (with_cell b rt2 (\<lambda>rpc.
             if has_error (cstate rpc)
             then set_failed_reason upd a (failed_reason (cstate rpc)) rt2
             else if \<not> has_seq_id rpc
             then Inl (AssertFailed ''only support add timer guard on cells with seq_id.'')
             else bindR (set_timer E ms (set_timer_msg_id (env_config E)) (seq_id rpc) rt2)
                    (bind_timeout_cell upd a b)))"
      proof (rule with_cell_pin [OF inv2 bQ])
        fix rpc assume rpc: "heap rt2 b = Some (CellObj rpc)"
        have "outcome (rinv safe N ?Q) (ok_fault safe)
           (bindR (set_timer E ms (set_timer_msg_id (env_config E)) (seq_id rpc) rt2) (bind_timeout_cell upd a b))"
          if "\<not> has_error (cstate rpc)"
          by (rule outcome_bind [OF set_timer_quiet]) (rule bind [OF _ that rpc])
        then show "outcome (rinv safe N ?Q) (ok_fault safe)
           (if has_error (cstate rpc) then set_failed_reason upd a (failed_reason (cstate rpc)) rt2
             else if \<not> has_seq_id rpc
             then Inl (AssertFailed ''only support add timer guard on cells with seq_id.'')
             else bindR (set_timer E ms (set_timer_msg_id (env_config E)) (seq_id rpc) rt2)
                    (bind_timeout_cell upd a b))"
          using failed by simp
      qed
    qed
    then show ?thesis by (rule outcome_inv_pins_mono) blast
  qed
  then show "outcome (rinv safe N P) (ok_fault safe)
     (bindR (read_args (rpc_args ti) rt) (\<lambda>ss.
      bindR (start_rpc E (ti_ctxt ti) (cell_type c) (rpc_fun ti ss) rt) (\<lambda>(rpc_cell, rt).
       case rpc_cell of
         None \<Rightarrow> Inr rt
       | Some b \<Rightarrow>
           bindR (update_timeout_info a (\<lambda>ti. ti\<lparr>is_rpc_started := True\<rparr>) rt) (\<lambda>rt.
           with_cell b rt (\<lambda>rpc.
             if has_error (cstate rpc)
             then set_failed_reason upd a (failed_reason (cstate rpc)) rt
             else if \<not> has_seq_id rpc
             then Inl (AssertFailed ''only support add timer guard on cells with seq_id.'')
             else bindR (set_timer E ms (set_timer_msg_id (env_config E)) (seq_id rpc) rt)
                    (bind_timeout_cell upd a b))))))"
    unfolding ti
    by (intro outcome_bind [OF read_args_fault [OF timeout_refs(2) [OF inv a]]]
        outcome_bind [OF start_rpc_inv [OF inv' insertI1]])
      (auto simp: inv_insert split: option.split)
qed

lemma retry_rpc_if_need_inv:
  assumes inv: "rinv safe N P rt" and a: "PinCell a (KTimeout k args tc) so n \<in> P" and d: "d \<le> Suc a"
  shows "outcome (rinv safe N P) (ok_fault safe) (retry_rpc_if_need E upd a rsp rt)"
  unfolding retry_rpc_if_need_def
proof (rule with_timeout_cell_pin [OF inv a])
  fix c :: "'v cell" and ti :: "'v timeout_info"
  have flag: "outcome (rinv safe N P) (ok_fault safe)
      (with_timeout_cell a rt1 (\<lambda>c ti. case timeout_cell ti of None \<Rightarrow> Inr rt1 | Some t \<Rightarrow> set_value upd t (Flag True) rt1))"
    if inv1: "rinv safe N P rt1" for rt1 :: "('v, 'r) rt"
  proof (rule with_timeout_cell_pin [OF inv1 a])
    fix c ti assume c: "heap rt1 a = Some (CellObj c)" "kind c = TimeoutCell ti"
    show "outcome (rinv safe N P) (ok_fault safe)
        (case timeout_cell ti of None \<Rightarrow> Inr rt1 | Some t \<Rightarrow> set_value upd t (Flag True) rt1)"
    proof (cases "timeout_cell ti")
      case (Some t)
      have "skel rt1 a = Some (SCell (updatables c) (KTimeout (ti_ctxt ti) (rpc_args ti) (Some t)))"
        using c Some by (simp add: skel_def)
      from graph_okD [OF inv_graph [OF inv1] this]
      have t: "a < t" "t < next_addr rt1" "ref_ok safe (skel rt1) (\<lambda>k. k = KFlag) t" by auto
      then have "pin_ok safe rt1 (PinCell t KFlag None 0)" by (auto elim: ref_ok_pin)
      then have inv2: "rinv safe N (insert (PinCell t KFlag None 0) P) rt1" using inv1 by (simp add: inv_insert)
      have "outcome (rinv safe N (insert (PinCell t KFlag None 0) P)) (ok_fault safe) (set_value upd t (Flag True) rt1)"
        using t(1) d by (intro set_value_inv [OF inv2 insertI1] level_below settable_kind [OF inv2 insertI1]) auto
      then show ?thesis using Some by (auto simp: inv_insert elim!: outcome_mono)
    qed (use inv1 in simp)
  qed
  show "outcome (rinv safe N P) (ok_fault safe)
     (if 0 < retry_times ti
       then bindR (update_timeout_info a (\<lambda>ti. ti\<lparr>retry_times := retry_times ti - 1\<rparr>) rt)
              (invoke_rpc_once E upd a (timeout_ms ti))
       else bindR (set_failed_reason upd a (failed_reason rsp) rt) (\<lambda>rt.
            with_timeout_cell a rt (\<lambda>c ti.
              case timeout_cell ti of None \<Rightarrow> Inr rt | Some t \<Rightarrow> set_value upd t (Flag True) rt)))"
    by (auto intro!: outcome_bind [OF update_timeout_info_inv [OF inv a]] invoke_rpc_once_inv [OF _ a d]
        outcome_bind [OF set_failed_reason_inv [OF inv a]] flag level_below d settable_kind [OF inv a])
qed

lemma on_rpc_cell_changed_inv:
  assumes inv: "rinv safe N P rt" and a: "PinCell a (KTimeout k args tc) so n \<in> P" and d: "d \<le> Suc a"
  shows "outcome (rinv safe N P) (ok_fault safe) (on_rpc_cell_changed E upd a rpc rt)"
proof -
  have set: "outcome (rinv safe N P) (ok_fault safe) (set_cell_value upd a s rt1)"
    if "quiet rt rt1" for s and rt1 :: "('v, 'r) rt"
    using quiet_inv [OF that inv] d by (intro set_cell_value_inv [OF _ a] level_below settable_kind [OF _ a]) auto
  have "outcome (quiet rt) (ok_fault safe)
     (if has_value_or_error (cstate rpc)
         then if has_seq_id rpc
              then cancel_timer E (set_timer_msg_id (env_config E)) (seq_id rpc) rt
              else Inl (AssertFailed ''only support add timer guard on cells with seq_id.'')
         else Inr rt)"
    by (simp add: cancel_timer_quiet)
  then show ?thesis
    unfolding on_rpc_cell_changed_def
    by (auto intro!: retry_rpc_if_need_inv [OF inv a d] outcome_bind set)
qed

end

end
