(* ===== verification/Knot.thy ===== *)
theory Knot
  imports Updates
begin

text \<open>
  The contract of \<open>virtual_update\<close> holds for the program's own \<^verbatim>\<open>update\<close>: the remaining methods
  that \<^verbatim>\<open>update\<close> dispatches to, the induction on the nesting bound, and the interpretation.
\<close>

context virtual_update
begin

lemma run_request_inv:
  assumes inv: "rinv safe N P rt" and a: "PinCell a k so n \<in> P" and "level a k" and "settable rt a"
  shows "outcome (rinv safe N P) (ok_fault safe) (run_request upd a req rt)"
  using set_inv [OF assms] inv
  by (simp add: run_request_def split: option.split outcome_request.split)

lemma derived_cell_update_inv:
  assumes inv: "rinv safe N P rt" and c: "heap rt a = Some (CellObj c)" and k: "kind c = DerivedCell l args"
    and d: "d \<le> Suc a"
  shows "outcome (rinv safe N P) (ok_fault safe) (derived_cell_update upd a c l args rt)"
proof -
  let ?P = "insert (PinCell a (skind_of (kind c)) None 0) P"
  have inv': "rinv safe N ?P rt" by (rule inv_pin_cell [OF inv c]) simp_all
  have "skel rt a = Some (SCell (updatables c) (KDerived args))" using c k by (simp add: skel_def)
  from graph_okD [OF inv_graph [OF inv] this] have args: "refs_live safe (skel rt) args" by simp
  have "outcome (rinv safe N ?P) (ok_fault safe) (run_request upd a req rt)"
    if "\<not> has_value_or_error (cstate c)" for req
    using that c d k by (intro run_request_inv [OF inv' insertI1] level_below) (auto simp: settable_def)
  then have "outcome (rinv safe N P) (ok_fault safe) (run_request upd a req rt)"
    if "\<not> has_value_or_error (cstate c)" for req
    using that by (blast intro: outcome_inv_pins_mono)
  then show ?thesis using inv
    by (auto simp: derived_cell_update_def intro!: outcome_bind [OF read_args_fault [OF args]])
qed

lemma async_cell_update_inv:
  assumes inv: "rinv safe N P rt" and c: "heap rt a = Some (CellObj c)" and k: "kind c = AsyncCell ctxt f args"
    and d: "d \<le> Suc a"
  shows "outcome (rinv safe N P) (ok_fault safe) (async_cell_update E upd a c ctxt f args rt)"
proof -
  let ?k = "KAsync ctxt args"
  let ?P = "insert (PinCtx ctxt) (insert (PinCell a ?k None 0) P)"
  have a: "PinCell a ?k None 0 \<in> insert (PinCell a ?k None 0) P" by simp
  have inv0: "rinv safe N (insert (PinCell a ?k None 0) P) rt"
    using inv_pin_cell [OF inv c, of None 0] by (simp add: k)
  from async_refs [OF inv0 a] have inv': "rinv safe N ?P rt" and args: "refs_live safe (skel rt) args"
    using inv0 by (auto simp: inv_insert)
  have aN: "a < N" using below_N [OF inv c] k by simp
  have after: "outcome (rinv safe N P) (ok_fault safe)
     (with_cell b rt1 (\<lambda>rpc.
                 if has_error (cstate rpc)
                 then set_failed_reason upd a (failed_reason (cstate rpc)) rt1
                 else bindR (derive_action upd ctxt (BindAsync a) [b] rt1) (\<lambda>(_, rt). Inr rt)))"
    if got: "got_cell safe N ?P (b, rt1)" for b and rt1 :: "('v, 'r) rt"
  proof -
    let ?Q = "insert (PinCell b KPlain None 0) ?P"
    have inv1: "rinv safe N ?Q rt1" and fresh: "fresh_cell rt1 b" using got by (auto simp: got_cell_def)
    have aQ: "PinCell a ?k None 0 \<in> ?Q" and bQ: "PinCell b KPlain None 0 \<in> ?Q" and kQ: "PinCtx ctxt \<in> ?Q" by auto
    have failed: "outcome (rinv safe N ?Q) (ok_fault safe) (set_failed_reason upd a r rt1)" for r
      by (rule set_failed_reason_inv [OF inv1 aQ level_below settable_kind [OF inv1 aQ]]) (simp_all add: d)
    have bind: "outcome (rinv safe N ?Q) (ok_fault safe)
        (bindR (derive_action upd ctxt (BindAsync a) [b] rt1) (\<lambda>(_, rt). Inr rt))"
      if "heap rt1 b = Some (CellObj rpc)" "\<not> has_error (cstate rpc)" for rpc
    proof (rule outcome_bind)
      show "outcome (\<lambda>(u, rt'). rinv safe N ?Q rt') (ok_fault safe) (derive_action upd ctxt (BindAsync a) [b] rt1)"
        by (rule derive_action_on_fresh [OF inv1 kQ bQ])
          (use that fresh async_refs(3) [OF inv1 aQ aN] in
            \<open>auto simp: fresh_cell_def has_value_or_error_def has_value_def\<close>)
    qed auto
    have "outcome (rinv safe N ?Q) (ok_fault safe)
     (with_cell b rt1 (\<lambda>rpc.
                 if has_error (cstate rpc)
                 then set_failed_reason upd a (failed_reason (cstate rpc)) rt1
                 else bindR (derive_action upd ctxt (BindAsync a) [b] rt1) (\<lambda>(_, rt). Inr rt)))"
      by (rule with_cell_pin [OF inv1 bQ]) (use failed bind in auto)
    then show ?thesis by (rule outcome_inv_pins_mono) blast
  qed
  show ?thesis
    using inv
    by (auto simp: async_cell_update_def intro!: outcome_bind [OF read_args_fault [OF args]]
        outcome_bind [OF start_rpc_inv [OF inv' insertI1]] after split: option.split)
qed

lemma on_async_rsp_inv:
  assumes inv: "rinv safe N P rt" and a: "PinCell a (KAsync k args) so n \<in> P" and d: "d \<le> Suc a"
  shows "outcome (rinv safe N P) (ok_fault safe) (on_async_rsp upd a s rt)"
  unfolding on_async_rsp_def
  by (intro outcome_if set_failed_reason_inv [OF inv a] set_cell_value_inv [OF inv a] level_below d
      settable_kind [OF inv a]) simp_all

lemma timeout_update_inv:
  assumes inv: "rinv safe N P rt" and c: "heap rt a = Some (CellObj c)" and k: "kind c = TimeoutCell ti"
    and d: "d \<le> Suc a"
  shows "outcome (rinv safe N P) (ok_fault safe) (timeout_update E upd a c ti rt)"
proof -
  let ?P = "insert (PinCell a (KTimeout (ti_ctxt ti) (rpc_args ti) (timeout_cell ti)) None 0) P"
  have inv': "rinv safe N ?P rt" using inv_pin_cell [OF inv c, of None 0] by (simp add: k)
  have "outcome (rinv safe N ?P) (ok_fault safe) (invoke_rpc_once E upd a ms rt)" for ms
    by (rule invoke_rpc_once_inv [OF inv' insertI1 d])
  then have "outcome (rinv safe N P) (ok_fault safe) (invoke_rpc_once E upd a ms rt)" for ms
    by (rule outcome_inv_pins_mono) blast
  then show ?thesis using inv by (simp add: timeout_update_def)
qed

end

lemma with_cell_live:
  assumes "refs_live safe (skel rt) args" and "b \<in> set args"
    and "\<And>c. heap rt b = Some (CellObj c) \<Longrightarrow> outcome Q (ok_fault safe) (f c)"
  shows "outcome Q (ok_fault safe) (with_cell b rt f)"
proof -
  have "safe \<longrightarrow> kind_at (skel rt) b \<noteq> None" using assms(1,2) by (simp add: refs_live_def)
  then show ?thesis using assms(3)
    by (auto simp: with_cell_def kind_at.simps skel_def split: option.splits obj.splits)
qed

text \<open>What the logic of an action does, when its listener bound is respected.\<close>

lemma run_action_inv:
  fixes rt :: "('v, 'r) rt"
  assumes inv: "rinv safe N P rt" and x: "heap rt u = Some (ActionObj x)"
    and contract: "\<And>e. goal u (shape_of (ActionObj x :: 'v obj)) = Some e \<Longrightarrow> e < N \<Longrightarrow> virtual_update upd safe N (Suc e)"
  shows "outcome (rinv safe N P) (ok_fault safe) (run_action E upd x rt)"
proof -
  have "skel rt u = Some (SAction (is_final_action x) (act_logic x) (act_args x))" using x by (simp add: skel_def)
  from graph_okD [OF inv_graph [OF inv] this]
  have args: "act_args x \<noteq> []" "refs_live safe (skel rt) (act_args x)" and lg: "logic_ok safe N (skel rt) (act_logic x)"
    by auto
  have below: "a < next_addr rt" if "a < N" for a using that inv by (simp add: rinv_def)
  let ?b = "last (act_args x)"
  have look: "outcome Q (ok_fault safe) (with_cell ?b rt f)"
    if "\<And>c. heap rt ?b = Some (CellObj c) \<Longrightarrow> outcome Q (ok_fault safe) (f c)"
    for Q :: "('v, 'r) rt \<Rightarrow> bool" and f
    by (rule with_cell_live [OF args(2)]) (use args(1) that in auto)
  show ?thesis
    unfolding run_action_def
  proof (rule outcome_bind [OF read_args_fault [OF args(2)]])
    fix ss
    show "outcome (rinv safe N P) (ok_fault safe)
       (case act_logic x of
       UserAction n \<Rightarrow> Inr (emit (ActionRun n ss) rt)
     | BindTimeout a \<Rightarrow> with_cell ?b rt (\<lambda>rpc. on_rpc_cell_changed E upd a rpc rt)
     | BindAsync a \<Rightarrow> with_cell ?b rt (\<lambda>rpc. on_async_rsp upd a (cstate rpc) rt)
     | SendRsp sender_id rsp_header \<Rightarrow>
         with_cell ?b rt (\<lambda>r.
           if has_value (cstate r)
           then bindR (send_rsp_cell_value E sender_id rsp_header (cstate r) rt) (\<lambda>(_, rt). Inr rt)
           else Inr rt))"
    proof (cases "act_logic x")
      case (UserAction n)
      then show ?thesis using inv by simp
    next
      case (BindTimeout a)
      with lg have a: "a < N" "ref_ok safe (skel rt) is_timeout_kind a" by simp_all
      then obtain k args tc where "pin_ok safe rt (PinCell a (KTimeout k args tc) None 0)"
        using ref_ok_pin [OF a(2) below [OF a(1)]] by (metis is_timeout_kind.elims(2) is_timeout_kind.simps(1))
      then have inv': "rinv safe N (insert (PinCell a (KTimeout k args tc) None 0) P) rt"
        using inv by (simp add: inv_insert)
      have "virtual_update upd safe N (Suc a)" using contract a BindTimeout by simp
      from virtual_update.on_rpc_cell_changed_inv [OF this inv' insertI1, THEN outcome_inv_pins_mono]
      show ?thesis by (simp add: BindTimeout look subset_insertI)
    next
      case (BindAsync a)
      with lg have a: "a < N" "ref_ok safe (skel rt) is_async_kind a" by simp_all
      then obtain k args where "pin_ok safe rt (PinCell a (KAsync k args) None 0)"
        using ref_ok_pin [OF a(2) below [OF a(1)]] by (metis is_async_kind.elims(2) is_async_kind.simps(1))
      then have inv': "rinv safe N (insert (PinCell a (KAsync k args) None 0) P) rt"
        using inv by (simp add: inv_insert)
      have "virtual_update upd safe N (Suc a)" using contract a BindAsync by simp
      from virtual_update.on_async_rsp_inv [OF this inv' insertI1, THEN outcome_inv_pins_mono]
      show ?thesis by (simp add: BindAsync look subset_insertI)
    next
      case (SendRsp sid h)
      have "outcome (rinv safe N P) (ok_fault safe)
          (bindR (send_rsp_cell_value E sid h s rt) (\<lambda>(_, rt). Inr rt))" for s
        by (rule outcome_bind [OF send_rsp_cell_value_quiet]) (auto intro: quiet_inv [OF _ inv])
      then show ?thesis using SendRsp inv by (auto intro!: look)
    qed
  qed
qed

lemma update_body_inv:
  fixes upd :: "addr \<Rightarrow> ('v, 'r) rt \<Rightarrow> ('v, 'r) res"
  assumes contract: "\<And>e. d \<le> e \<Longrightarrow> e < N \<Longrightarrow> virtual_update upd safe N (Suc e)"
  shows "virtual_update (update_body E upd) safe N d"
proof
  fix P :: "'v pin set" and u and rt :: "('v, 'r) rt"
  assume inv: "rinv safe N P rt" and can: "can_update safe d u rt"
  show "outcome (rinv safe N P) (ok_fault safe) (update_body E upd u rt)"
  proof (cases "heap rt u" rule: object_cases)
    case (cell c)
    have sk: "skel rt u = Some (SCell (updatables c) (skind_of (kind c)))" using cell by (simp add: skel_def)
    show ?thesis
    proof (cases "kind c = PlainCell \<or> kind c = FlagCell")
      case True
      then show ?thesis using inv by (auto simp: update_body_def cell)
    next
      case False
      then have "goal u (SCell (updatables c) (skind_of (kind c))) = Some u" by (cases "kind c") auto
      then have "virtual_update upd safe N (Suc u)"
        using can sk below_N [OF inv cell] False by (intro contract) (auto simp: can_update_def)
      note contract_u = this
      show ?thesis
        using False virtual_update.derived_cell_update_inv [OF contract_u inv cell]
          virtual_update.async_cell_update_inv [OF contract_u inv cell]
          virtual_update.timeout_update_inv [OF contract_u inv cell]
        by (cases "kind c") (simp_all add: update_body_def cell)
    qed
  next
    case (action x)
    have sk: "skel rt u = Some (shape_of (ActionObj x :: 'v obj))" using action by (simp add: skel_def)
    have run: "outcome (rinv safe N P) (ok_fault safe) (run_action E upd x rt)"
      using can sk by (intro run_action_inv [OF inv action] contract) (auto simp: can_update_def)
    show ?thesis
    proof (cases "is_final_action x")
      case True
      then have unsafe: "\<not> safe" using graph_okD [OF inv_graph [OF inv] sk] by simp
      have "outcome (rinv safe N P) (ok_fault safe)
          (case heap rt1 u of
            Some (ActionObj x) \<Rightarrow> (case act_cell x of None \<Rightarrow> Inr rt1 | Some c \<Rightarrow> delete_obj E c rt1)
          | _ \<Rightarrow> Inl (UseAfterFree u))" if "rinv safe N P rt1" for rt1
        using that unsafe delete_obj_inv [of N P rt1] by (auto split: option.split obj.split)
      with run True show ?thesis
        by (auto simp: update_body_def action action_update_def intro: outcome_bind)
    next
      case False
      with run show ?thesis by (simp add: update_body_def action action_update_def)
    qed
  qed (use can in \<open>auto simp: can_update_def update_body_def\<close>)
qed

section \<open>The bound is enough\<close>

text \<open>An update that may set cells from \<open>d\<close> up to \<open>N\<close> nests at most \<open>N - d\<close> deep.\<close>

lemma update_f_contract: "N - d < n \<Longrightarrow> virtual_update (update_f n E) safe N d"
proof (induction n arbitrary: d)
  case (Suc n)
  have "virtual_update (update_body E (update_f n E)) safe N d"
    by (rule update_body_inv) (use Suc in auto)
  then show ?case by (simp add: virtual_update_def)
qed simp

lemma update_contract: "virtual_update (update E) safe N 0"
proof
  fix P and u and rt :: "('a, 'b) rt"
  assume "rinv safe N P rt" and "can_update safe 0 u rt"
  moreover from this have "virtual_update (update_f (Suc (next_addr rt)) E) safe N 0"
    by (intro update_f_contract) (simp add: rinv_def)
  ultimately show "outcome (rinv safe N P) (ok_fault safe) (update E u rt)"
    unfolding update_def by (blast dest: virtual_update.upd_ok)
qed

interpretation knot: virtual_update "update E" safe N 0 for E safe N
  by (rule update_contract)

end
