(* ===== verification/Dispatch.thy ===== *)
theory Dispatch
  imports Knot
begin

text \<open>
  What an incoming message does: \<^verbatim>\<open>MsgHandlerMgr\<close> and the four handlers behind it, the interface
  repository, the \<^verbatim>\<open>onRpcInvoke\<close> that \<^verbatim>\<open>api_interface_impl_define.h\<close> generates, and
  \<^verbatim>\<open>iface_impl_base_t.h\<close>.
\<close>

section \<open>Responses and timeouts\<close>

definition handle_rpc_rsp ::
  "('v, 'r) env \<Rightarrow> ('v, 'r) update \<Rightarrow> bytes \<Rightarrow> ('v, 'r) rt \<Rightarrow> ('v, 'r) res" where
  "handle_rpc_rsp E upd msg rt =
     (case cast_rsp_header msg of
        None \<Rightarrow> msgrpc_log E rt
      | Some rsp_header \<Rightarrow>
          (case id_func_map rt (sequence_id rsp_header) of
             None \<Rightarrow> msgrpc_log E rt
           | Some sink \<Rightarrow>
               bindR (set_rpc_rsp E upd sink rsp_header (drop sizeof_rsp_header msg) rt)
                 (delete_rsp_handler_if_exist (sequence_id rsp_header))))"

definition on_rsp_handler_timeout ::
  "('v, 'r) env \<Rightarrow> ('v, 'r) update \<Rightarrow> rpc_sequence_id \<Rightarrow> ('v, 'r) rt \<Rightarrow> ('v, 'r) res" where
  "on_rsp_handler_timeout E upd s rt =
     (case id_func_map rt s of
        None \<Rightarrow> msgrpc_log E rt
      | Some cell \<Rightarrow>
          bindR (reset_sequential_id cell rt) (\<lambda>rt. set_timeout upd cell (erase_handler s rt)))"

definition on_timeout ::
  "('v, 'r) env \<Rightarrow> ('v, 'r) update \<Rightarrow> bytes \<Rightarrow> ('v, 'r) rt \<Rightarrow> ('v, 'r) res" where
  "on_timeout E upd msg rt =
     (case cast_timer_info E msg of
        None \<Rightarrow> Inl (AssertFailed ''msg != nullptr && len == sizeof(timer_info)'')
      | Some user_data \<Rightarrow> on_rsp_handler_timeout E upd (ucast user_data) rt)"

section \<open>Interfaces and methods\<close>

text \<open>
  A method of an interface: its index, the type of its request, and the user's implementation,
  which returns a cell or the null pointer.
\<close>

record ('v, 'r) rpc_method =
  method_index :: "8 word"
  req_type :: string
  method_impl :: "'v \<Rightarrow> ('v, 'r) rt \<Rightarrow> fault + addr option \<times> ('v, 'r) rt"

type_synonym ('v, 'r) iface = "('v, 'r) rpc_method list"
type_synonym ('v, 'r) repository = "16 word \<rightharpoonup> ('v, 'r) iface"

definition add_iface_impl ::
  "16 word \<Rightarrow> ('v, 'r) iface option \<Rightarrow> ('v, 'r) repository \<Rightarrow> fault + ('v, 'r) repository" where
  "add_iface_impl ii iface m =
     (case iface of
        None \<Rightarrow> Inl (AssertFailed ''interface_impl implementation can not be null'')
      | Some i \<Rightarrow>
          if m ii = None then Inr (m(ii \<mapsto> i))
          else Inl (AssertFailed ''interface_impl can only register once''))"

definition get_iface_impl_by :: "16 word \<Rightarrow> ('v, 'r) repository \<Rightarrow> ('v, 'r) iface option" where
  "get_iface_impl_by ii m = m ii"

definition invoke_templated_method ::
  "('v, 'r) env \<Rightarrow> ('v, 'r) rpc_method \<Rightarrow> bytes \<Rightarrow> service_id \<Rightarrow> rsp_msg_header \<Rightarrow> ('v, 'r) rt
   \<Rightarrow> fault + rpc_result \<times> ('v, 'r) rt" where
  "invoke_templated_method E m msg sender_id rsp_header rt =
     bindR (do_decode E (req_type m) msg rt) (\<lambda>req.
     case req of
       None \<Rightarrow> Inr (Failed, rt)
     | Some v \<Rightarrow>
         bindR (method_impl m v rt) (\<lambda>(rsp_cell, rt).
         case rsp_cell of
           None \<Rightarrow> Inr (Failed, rt)
         | Some a \<Rightarrow>
             with_cell a rt (\<lambda>c.
               if has_value (cstate c)
               then bindR (send_rsp_cell_value E sender_id rsp_header (cstate c) rt) (\<lambda>(ret, rt).
                    bindR (delete_obj E a rt) (\<lambda>rt. Inr (ret, rt)))
               else bindR (derive_final_action (update E) (SendRsp sender_id rsp_header) [a] rt)
                      (\<lambda>(_, rt). Inr (Succeeded, rt)))))"

definition onRpcInvoke ::
  "('v, 'r) env \<Rightarrow> ('v, 'r) iface \<Rightarrow> req_msg_header \<Rightarrow> bytes \<Rightarrow> rsp_msg_header \<Rightarrow> service_id
   \<Rightarrow> ('v, 'r) rt \<Rightarrow> fault + (rpc_result \<times> rsp_msg_header) \<times> ('v, 'r) rt" where
  "onRpcInvoke E methods req_header msg rsp_header sender_id rt =
     (case find (\<lambda>m. method_index m = method_index_in_interface req_header) methods of
        None \<Rightarrow> Inr ((MethodNotFound, rsp_header\<lparr>rpc_result_of := MethodNotFound\<rparr>), rt)
      | Some m \<Rightarrow>
          bindR (invoke_templated_method E m msg sender_id rsp_header rt) (\<lambda>(ret, rt).
          Inr ((ret, if ret = Failed then rsp_header\<lparr>rpc_result_of := Failed\<rparr> else rsp_header), rt)))"

definition rsp_header_of :: "req_msg_header \<Rightarrow> rsp_msg_header" where
  "rsp_header_of h =
     \<lparr>msgrpc_version = msgrpc_version h, method_index_in_interface = method_index_in_interface h,
      iface_index_in_service = iface_index_in_service h, sequence_id = sequence_id h,
      rpc_result_of = Succeeded\<rparr>"

definition on_rpc_req_msg ::
  "('v, 'r) env \<Rightarrow> ('v, 'r) repository \<Rightarrow> 16 word \<Rightarrow> bytes \<Rightarrow> service_id \<Rightarrow> ('v, 'r) rt \<Rightarrow> ('v, 'r) res" where
  "on_rpc_req_msg E repo msg_id msg sender_id rt =
     (if msg_id \<noteq> request_msg_id (env_config E) then Inl (AssertFailed ''invalid msg id for rpc'')
      else case cast_req_header msg of
        None \<Rightarrow> msgrpc_log E rt
      | Some header \<Rightarrow>
          let rsp_header = rsp_header_of header in
          (case get_iface_impl_by (iface_index_in_service header) repo of
             None \<Rightarrow>
               bindR (send_msg E sender_id (response_msg_id (env_config E))
                        (rsp_header_bytes (stack_pad E) (rsp_header\<lparr>rpc_result_of := IfaceNotFound\<rparr>)) rt)
                 (\<lambda>(_, rt). Inr rt)
           | Some iface \<Rightarrow>
               bindR (onRpcInvoke E iface header (drop sizeof_req_header msg) rsp_header sender_id rt)
                 (\<lambda>((ret, rsp_header), rt).
                   if ret = Failed \<or> ret = MethodNotFound
                   then send_msg_with_header E sender_id rsp_header None rt
                   else Inr rt)))"

section \<open>Tasks for the main queue\<close>

text \<open>
  \<^verbatim>\<open>task_run_on_main_queue.h\<close>: a task object is allocated, its address is sent to the own queue,
  and the handler runs and deletes it.  A task is named by a number; \<open>run_task\<close> is what it does.
\<close>

definition send_msg_to_self ::
  "('v, 'r) env \<Rightarrow> 16 word \<Rightarrow> bytes \<Rightarrow> ('v, 'r) rt \<Rightarrow> fault + bool \<times> ('v, 'r) rt" where
  "send_msg_to_self E m mem rt =
     (case msg_channel (env_config E) of
        None \<Rightarrow> Inl NullDeref
      | Some _ \<Rightarrow> let ok = self_channel_ok E m mem in Inr (ok, emit (SentToSelf m mem ok) rt))"

definition schedule_task :: "('v, 'r) env \<Rightarrow> 64 word \<Rightarrow> ('v, 'r) rt \<Rightarrow> fault + bool \<times> ('v, 'r) rt" where
  "schedule_task E task rt =
     send_msg_to_self E (schedule_task_on_main_thread_msg_id (env_config E)) (le64 task) rt"

definition delete_task :: "64 word \<Rightarrow> ('v, 'r) rt \<Rightarrow> ('v, 'r) res" where
  "delete_task task rt =
     (case tasks rt task of
        None \<Rightarrow> Inl (DoubleFree (unat task))
      | Some _ \<Rightarrow> Inr (rt\<lparr>tasks := (tasks rt)(task := None)\<rparr>))"

definition dispatch_async_to_main_queue ::
  "('v, 'r) env \<Rightarrow> nat \<Rightarrow> ('v, 'r) rt \<Rightarrow> fault + bool \<times> ('v, 'r) rt" where
  "dispatch_async_to_main_queue E lambda rt =
     (let task = next_task rt;
          rt = rt\<lparr>tasks := (tasks rt)(task \<mapsto> lambda), next_task := task + 1\<rparr>
      in bindR (schedule_task E task rt) (\<lambda>(ok, rt).
         if \<not> ok
         then bindR (msgrpc_log E rt) (\<lambda>rt. bindR (delete_task task rt) (\<lambda>rt. Inr (False, rt)))
         else Inr (True, rt)))"

definition handle_task ::
  "('v, 'r) env \<Rightarrow> (nat \<Rightarrow> ('v, 'r) rt \<Rightarrow> ('v, 'r) res) \<Rightarrow> bytes \<Rightarrow> ('v, 'r) rt \<Rightarrow> ('v, 'r) res" where
  "handle_task E run_task msg rt =
     (if length msg < 8 then msgrpc_log E rt
      else let task = un64 msg in
        case tasks rt task of
          None \<Rightarrow> Inl (UseAfterFree (unat task))
        | Some lambda \<Rightarrow> bindR (run_task lambda rt) (delete_task task))"

section \<open>MsgHandlerMgr\<close>

definition handle_msg ::
  "('v, 'r) env \<Rightarrow> ('v, 'r) repository \<Rightarrow> (nat \<Rightarrow> ('v, 'r) rt \<Rightarrow> ('v, 'r) res) \<Rightarrow> 16 word \<Rightarrow> bytes
   \<Rightarrow> service_id \<Rightarrow> ('v, 'r) rt \<Rightarrow> fault + bool \<times> ('v, 'r) rt" where
  "handle_msg E repo run_task msg_id msg sender_id rt =
     (if msg_id = request_msg_id (env_config E)
      then bindR (on_rpc_req_msg E repo msg_id msg sender_id rt) (\<lambda>rt. Inr (True, rt))
      else if msg_id = response_msg_id (env_config E)
      then bindR (handle_rpc_rsp E (update E) msg rt) (\<lambda>rt. Inr (True, rt))
      else if msg_id = timeout_msg_id (env_config E)
      then bindR (on_timeout E (update E) msg rt) (\<lambda>rt. Inr (True, rt))
      else if msg_id = schedule_task_on_main_thread_msg_id (env_config E)
      then bindR (handle_task E run_task msg rt) (\<lambda>rt. Inr (True, rt))
      else Inr (False, rt))"

end
