(* ===== verification/Interactions.thy ===== *)
theory Interactions
  imports Dispatch
begin

text \<open>
  Every operation the rest of a program calls, and every message that comes in, keeps the runtime
  invariant: building cells and actions, binding a result cell to its context, and the handlers of
  \<open>Dispatch\<close>.  The invariant of a quiescent state takes in all addresses handed out so far.
\<close>

definition sys_ok :: "bool \<Rightarrow> 'v pin set \<Rightarrow> ('v, 'r) rt \<Rightarrow> bool" where
  "sys_ok safe P rt \<longleftrightarrow> rinv safe (next_addr rt) P rt"

section \<open>The invariant between calls\<close>

lemma inv_grow:
  assumes inv: "rinv safe N P rt" and "N \<le> N'" and "N' \<le> next_addr rt"
  shows "rinv safe N' P rt"
proof (rule inv_fresh [OF inv inv_rt_ok [OF inv]])
  fix a s assume "next_addr rt \<le> a" "skel rt a = Some s"
  then show "shape_ok safe N' (next_addr rt) (skel rt) (dom (ctxs rt)) a s"
    using inv_rt_ok [OF inv] by (simp add: rt_ok_def heap_ok_def)
qed (use assms in simp_all)

lemma inv_sys_ok: "rinv safe N P rt \<Longrightarrow> sys_ok safe P rt"
  unfolding sys_ok_def by (rule inv_grow) (auto simp: rinv_def)

lemma sys_ok_inv: "sys_ok safe P rt \<Longrightarrow> rinv safe (next_addr rt) P rt"
  by (simp add: sys_ok_def)

lemma outcome_sys_ok: "outcome (rinv safe N P) Er r \<Longrightarrow> outcome (sys_ok safe P) Er r"
  by (erule outcome_mono) (auto intro: inv_sys_ok)

lemma sys_ok_insert: "sys_ok safe (insert p P) rt \<longleftrightarrow> pin_ok safe rt p \<and> sys_ok safe P rt"
  by (simp add: sys_ok_def inv_insert)

lemma quiet_sys_ok: "quiet rt rt' \<Longrightarrow> sys_ok safe P rt \<Longrightarrow> sys_ok safe P rt'"
  by (auto dest: sys_ok_inv quiet_inv inv_sys_ok)

lemma sys_ok_initial: "sys_ok safe {} (initial_rt r)"
  by (simp add: sys_ok_def rinv_def) (simp add: initial_rt_def graph_ok_def skel_def)

section \<open>Building cells\<close>

definition live_cells :: "('v, 'r) rt \<Rightarrow> addr list \<Rightarrow> bool" where
  "live_cells rt args \<longleftrightarrow>
     (\<forall>b\<in>set args. case heap rt b of Some (CellObj c) \<Rightarrow> True | _ \<Rightarrow> False)"

lemma live_cells_iff:
  fixes rt :: "('v, 'r) rt"
  shows "live_cells rt args \<longleftrightarrow> (\<forall>b\<in>set args. \<exists>c. heap rt b = Some (CellObj c))"
proof -
  have "(case x of Some (CellObj c) \<Rightarrow> True | _ \<Rightarrow> False) \<longleftrightarrow> (\<exists>c. x = Some (CellObj c))" for x :: "'v obj option"
    by (cases x rule: object_cases) auto
  then show ?thesis by (simp add: live_cells_def)
qed

definition cell_pins :: "('v, 'r) rt \<Rightarrow> addr list \<Rightarrow> 'v pin set" where
  "cell_pins rt args =
     {PinCell b (skind_of (kind c)) None 0 | b c. b \<in> set args \<and> heap rt b = Some (CellObj c)}"

lemma inv_cell_pins: "rinv safe N P rt \<Longrightarrow> rinv safe N (cell_pins rt args \<union> P) rt"
  by (auto simp: rinv_def cell_pins_def rt_ok_def heap_ok_def not_le[symmetric])

lemma pinned_cell_pins: "live_cells rt args \<Longrightarrow> pinned_cells (cell_pins rt args \<union> P) args"
  by (fastforce simp: pinned_cells_def cell_pins_def live_cells_iff)

lemma register_as_listener_inv:
  assumes inv: "rinv safe N P rt"
    and args: "\<And>b. b \<in> set args \<Longrightarrow> \<exists>k so n. PinCell b k so n \<in> P \<and> listens P b k u"
  shows "outcome (rinv safe N P) (ok_fault safe) (register_as_listener (update E) u args rt)"
  unfolding register_as_listener_def
proof (rule outcome_fold, rule inv)
  fix b and rt' :: "('a, 'b) rt" assume "b \<in> set args" and inv': "rinv safe N P rt'"
  with args obtain k so n where b: "PinCell b k so n \<in> P" "listens P b k u" by blast
  show "outcome (rinv safe N P) (ok_fault safe) (register_listener (update E) b u rt')"
    by (rule knot.register_listener_inv [OF inv' b listens_ok(3) [OF inv' b(2)]])
qed

text \<open>A new cell that depends on live ones may listen to each of them.\<close>

lemma alloc_dependent:
  fixes rt :: "('v, 'r) rt"
  assumes inv: "rinv safe N P rt" and alloc: "alloc (CellObj (new_cell ty k)) rt = (a, rt')"
    and args: "live_cells rt args"
    and shape: "\<And>\<tau>. refs_live safe \<tau> args
      \<Longrightarrow> kind_ok safe (Suc a) (Suc a) \<tau> (dom (ctxs rt)) a (skind_of k)"
  defines "Q \<equiv> insert (PinCell a (skind_of k) None 0) (cell_pins rt args \<union> P)"
  shows "rinv safe (Suc a) Q rt'" and "\<And>b. b \<in> set args \<Longrightarrow> \<exists>k so n. PinCell b k so n \<in> Q \<and> listens Q b k a"
    and "a = next_addr rt"
proof -
  show a: "a = next_addr rt" using alloc by (auto simp: alloc_def)
  let ?ob = "CellObj (new_cell ty k) :: 'v obj"
  have inv': "rinv safe N (cell_pins rt args \<union> P) rt" using inv by (rule inv_cell_pins)
  have "refs_live safe ((skel rt)(next_addr rt \<mapsto> shape_of ?ob)) args"
    using refs_live_keeps [OF pinned_cells_live [OF inv' pinned_cell_pins [OF args]]
        keeps_faces_new [of "skel rt" "next_addr rt", OF fresh_skel [OF inv]]] graph_okD [OF inv_graph [OF inv]] by blast
  then have "rinv safe (Suc a) (cell_pins rt args \<union> P) (snd (alloc ?ob rt))"
    using shape inv a by (intro inv_alloc [OF inv']) (auto simp: rinv_def new_cell_def)
  then show "rinv safe (Suc a) Q rt'"
    using alloc by (auto simp: Q_def inv_insert alloc_def new_cell_def)
  fix b assume b: "b \<in> set args"
  with args obtain c where c: "heap rt b = Some (CellObj c)" by (auto simp: live_cells_iff)
  then have "b < a" using inv_heap_bound [OF inv] a by blast
  moreover have "PinCell a (skind_of k) None 0 \<in> Q" by (simp add: Q_def)
  ultimately have "listens Q b kb a" for kb
    unfolding listens_def
    by (intro exI [of _ "SCell [] (skind_of k)"] conjI disjI2) (blast, auto split: option.split)
  moreover have "PinCell b (skind_of (kind c)) None 0 \<in> Q" using b c by (auto simp: Q_def cell_pins_def)
  ultimately show "\<exists>k so n. PinCell b k so n \<in> Q \<and> listens Q b k a" by blast
qed

lemma track_result_at:
  assumes "rinv safe N Q rt" and "PinCtx k \<in> Q" and "P a \<subseteq> Q"
  shows "outcome (\<lambda>(a, rt'). sys_ok safe (P a) rt') (ok_fault safe) (bindR (track k a rt) (\<lambda>rt. Inr (a, rt)))"
  using track_inv [OF assms(1,2)]
  by (rule outcome_bind) (auto intro: inv_sys_ok inv_pins_mono [OF _ assms(3)])

lemmas track_result = track_result_at [where P = "\<lambda>_. P" for P]

lemma derive_cell_inv:
  assumes "sys_ok safe P rt" and "live_cells rt args" and ctx: "PinCtx k \<in> P"
  shows "outcome (\<lambda>(a, rt'). sys_ok safe P rt') (ok_fault safe) (derive_cell E k ty logic args rt)"
proof -
  obtain a rt1 where alloc: "alloc (CellObj (new_cell ty (DerivedCell logic args))) rt = (a, rt1)" by fastforce
  note new = alloc_dependent [OF sys_ok_inv [OF assms(1)] alloc assms(2)]
  let ?Q = "insert (PinCell a (KDerived args) None 0) (cell_pins rt args \<union> P)"
  have "rinv safe (Suc a) ?Q rt1" using new(1) by simp
  from register_as_listener_inv [OF this] new(2)
  have "outcome (rinv safe (Suc a) ?Q) (ok_fault safe) (register_as_listener (update E) a args rt1)" by simp
  then show ?thesis
    unfolding derive_cell_def alloc prod.case
    by (rule outcome_bind) (rule track_result, assumption, use ctx in auto)
qed

text \<open>In the weak form of the invariant the cell it depends on may have been deleted meanwhile.\<close>

lemma derive_cell_weak:
  fixes rt :: "('v, 'r) rt"
  assumes ok: "sys_ok False P rt" and b: "b < next_addr rt" and ctx: "PinCtx k \<in> P"
  shows "outcome (\<lambda>(a, rt'). sys_ok False P rt') (ok_fault False) (derive_cell E k ty logic [b] rt)"
proof (cases "live_cells rt [b]")
  case True
  with ok show ?thesis using ctx by (rule derive_cell_inv)
next
  case False
  then have "derive_cell E k ty logic [b] rt = Inl (UseAfterFree b)"
    using b by (cases "heap rt b" rule: object_cases)
      (auto simp: live_cells_iff derive_cell_def alloc_def register_as_listener_def register_listener_def with_cell_def)
  then show ?thesis by simp
qed

lemma derive_rpc_cell_pinned:
  assumes "sys_ok safe P rt" and "live_cells rt args" and ctx: "PinCtx k \<in> P"
  shows "outcome (\<lambda>(a, rt'). sys_ok safe (insert (PinCell a (KTimeout k args None) None 0) P) rt') (ok_fault safe)
    (derive_rpc_cell E k ty ms retries f args rt)"
proof -
  let ?ti = "\<lparr>ti_ctxt = k, timeout_ms = ms, retry_times = retries, rpc_fun = f, rpc_args = args,
               is_rpc_started = False, timeout_cell = None\<rparr>"
  obtain a rt1 where alloc: "alloc (CellObj (new_cell ty (TimeoutCell ?ti))) rt = (a, rt1)" by fastforce
  have "safe \<longrightarrow> k \<in> dom (ctxs rt)" using inv_pin [OF sys_ok_inv [OF assms(1)] ctx] by simp
  then have new: "rinv safe (Suc a) (insert (PinCell a (KTimeout k args None) None 0) (cell_pins rt args \<union> P)) rt1"
    "b \<in> set args \<Longrightarrow> \<exists>kb so n. PinCell b kb so n \<in> insert (PinCell a (KTimeout k args None) None 0) (cell_pins rt args \<union> P)
        \<and> listens (insert (PinCell a (KTimeout k args None) None 0) (cell_pins rt args \<union> P)) b kb a" for b
    using alloc_dependent [OF sys_ok_inv [OF assms(1)] alloc assms(2)] by auto
  let ?Q = "insert (PinCell a (KTimeout k args None) None 0) (cell_pins rt args \<union> P)"
  have "outcome (rinv safe (Suc a) ?Q) (ok_fault safe)
     (if args = [] then invoke_rpc_once E (update E) a ms rt1 else register_as_listener (update E) a args rt1)"
    by (intro outcome_if knot.invoke_rpc_once_inv [OF new(1) insertI1] register_as_listener_inv [OF new(1)] new(2)) simp
  then show ?thesis
    unfolding derive_rpc_cell_def alloc prod.case
    by (rule outcome_bind) (rule track_result_at, assumption, use ctx in auto)
qed

lemma derive_rpc_cell_inv:
  assumes "sys_ok safe P rt" and "live_cells rt args" and ctx: "PinCtx k \<in> P"
  shows "outcome (\<lambda>(a, rt'). sys_ok safe P rt') (ok_fault safe) (derive_rpc_cell E k ty ms retries f args rt)"
  using derive_rpc_cell_pinned [OF assms]
  by (rule outcome_mono) (auto simp: sys_ok_insert)

lemma derive_async_cell_inv:
  assumes "sys_ok safe P rt" and "live_cells rt args" and ctx: "PinCtx k \<in> P"
  shows "outcome (\<lambda>(a, rt'). sys_ok safe P rt') (ok_fault safe) (derive_async_cell E k ty f args rt)"
proof -
  obtain a rt1 where alloc: "alloc (CellObj (new_cell ty (AsyncCell k f args))) rt = (a, rt1)" by fastforce
  have "safe \<longrightarrow> k \<in> dom (ctxs rt)" using inv_pin [OF sys_ok_inv [OF assms(1)] ctx] by simp
  then have new: "rinv safe (Suc a) (insert (PinCell a (KAsync k args) None 0) (cell_pins rt args \<union> P)) rt1"
    "b \<in> set args \<Longrightarrow> \<exists>kb so n. PinCell b kb so n \<in> insert (PinCell a (KAsync k args) None 0) (cell_pins rt args \<union> P)
        \<and> listens (insert (PinCell a (KAsync k args) None 0) (cell_pins rt args \<union> P)) b kb a" for b
    using alloc_dependent [OF sys_ok_inv [OF assms(1)] alloc assms(2)] by auto
  let ?Q = "insert (PinCell a (KAsync k args) None 0) (cell_pins rt args \<union> P)"
  have "outcome (rinv safe (Suc a) ?Q) (ok_fault safe) (register_as_listener (update E) a args rt1)"
    using register_as_listener_inv [OF new(1)] new(2) by simp
  then show ?thesis
    unfolding derive_async_cell_def alloc prod.case
    by (rule outcome_bind) (rule track_result, assumption, use ctx in auto)
qed

section \<open>Building actions\<close>

text \<open>The logics a caller may pass: a user's action, or the server's response.\<close>

fun caller_logic :: "action_logic \<Rightarrow> bool" where
  "caller_logic (UserAction n) = True"
| "caller_logic (SendRsp sid h) = True"
| "caller_logic _ = False"

lemma alloc_listening_action:
  fixes rt :: "('v, 'r) rt"
  assumes inv: "rinv safe N P rt" and args: "args \<noteq> []" "live_cells rt args" and fin: "safe \<Longrightarrow> \<not> fin"
    and lg: "caller_logic lg"
    and alloc: "alloc (ActionObj \<lparr>is_final_action = fin, act_cell = None, act_logic = lg, act_args = args\<rparr>) rt
      = (u, rt')"
  defines "Q \<equiv> insert (PinAction u fin lg args) (cell_pins rt args \<union> P)"
  shows "rinv safe N Q rt'" and "\<And>b. b \<in> set args \<Longrightarrow> \<exists>k so n. PinCell b k so n \<in> Q \<and> listens Q b k u"
proof -
  have inv': "rinv safe N (cell_pins rt args \<union> P) rt" using inv by (rule inv_cell_pins)
  have "logic_ok safe N (skel rt) lg" using lg by (cases lg) auto
  from alloc_action [OF inv' args(1) pinned_cell_pins [OF args(2)] this fin alloc]
  show "rinv safe N Q rt'" by (simp add: Q_def)
  fix b assume b: "b \<in> set args"
  then obtain c where c: "heap rt b = Some (CellObj c)" using args by (auto simp: live_cells_iff)
  have "goal u (SAction fin lg args) = None" using lg by (cases lg) auto
  then have "listens Q b kb u" for kb
    unfolding listens_def Q_def by (intro exI [of _ "SAction fin lg args"] conjI disjI1) auto
  moreover have "PinCell b (skind_of (kind c)) None 0 \<in> Q" using b c by (auto simp: Q_def cell_pins_def)
  ultimately show "\<exists>k so n. PinCell b k so n \<in> Q \<and> listens Q b k u" by blast
qed

lemma derive_action_inv:
  assumes "sys_ok safe P rt" and "live_cells rt args" "args \<noteq> []" and ctx: "PinCtx k \<in> P"
    and "caller_logic lg"
  shows "outcome (\<lambda>(a, rt'). sys_ok safe P rt') (ok_fault safe) (derive_action (update E) k lg args rt)"
proof -
  obtain u rt1 where alloc: "alloc (ActionObj \<lparr>is_final_action = False, act_cell = None, act_logic = lg,
      act_args = args\<rparr>) rt = (u, rt1)" by fastforce
  note new = alloc_listening_action [OF sys_ok_inv [OF assms(1)] assms(3,2) _ assms(5) alloc]
  let ?Q = "insert (PinAction u False lg args) (cell_pins rt args \<union> P)"
  have reg: "outcome (rinv safe (next_addr rt) ?Q) (ok_fault safe) (register_as_listener (update E) u args rt1)"
    by (rule register_as_listener_inv) (use new in auto)
  have "outcome (\<lambda>(a, rt'). rinv safe (next_addr rt) ?Q rt') (ok_fault safe)
      (new_derived_action (update E) False lg args rt)"
    using reg by (simp add: new_derived_action_def alloc outcome_bind_eq)
  then show ?thesis
    unfolding derive_action_def
    by (rule outcome_bind) (use ctx in \<open>auto intro: track_result\<close>)
qed

lemma put_action_inv:
  assumes inv: "rinv safe N P rt" and x: "heap rt u = Some (ActionObj x)"
  shows "rinv safe N P (put_action u (x\<lparr>act_cell := y\<rparr>) rt)"
proof -
  let ?rt = "put_action u (x\<lparr>act_cell := y\<rparr>) rt"
  have skel: "skel ?rt = skel rt" using x by (auto simp: skel_def put_action_def)
  have "carried_id (heap ?rt b) = carried_id (heap rt b)" for b using x by (simp add: put_action_def)
  then have "handlers_ok ?rt"
    using inv_rt_ok [OF inv] by (simp add: rt_ok_def handlers_ok_iff) (simp add: put_action_def)
  moreover have "heap_ok ?rt"
    using inv_rt_ok [OF inv] x by (force simp: rt_ok_def heap_ok_def put_action_def)
  moreover have "pin_ok safe ?rt p" if "pin_ok safe rt p" for p
    using that x by (cases p) (auto simp: put_action_def)
  ultimately show ?thesis using inv by (simp add: rinv_def rt_ok_def skel) (simp add: put_action_def)
qed

lemma derive_final_action_inv:
  fixes rt :: "('v, 'r) rt"
  assumes "sys_ok False P rt" and "live_cells rt args" "args \<noteq> []" and "caller_logic lg"
  shows "outcome (\<lambda>(a, rt'). sys_ok False P rt') (ok_fault False) (derive_final_action (update E) lg args rt)"
proof -
  obtain u rt1 where alloc: "alloc (ActionObj \<lparr>is_final_action = True, act_cell = None, act_logic = lg,
      act_args = args\<rparr>) rt = (u, rt1)" by fastforce
  note new = alloc_listening_action [OF sys_ok_inv [OF assms(1)] assms(3,2) _ assms(4) alloc]
  let ?Q = "insert (PinAction u True lg args) (cell_pins rt args \<union> P)"
  have reg: "outcome (rinv False (next_addr rt) ?Q) (ok_fault False) (register_as_listener (update E) u args rt1)"
    by (rule register_as_listener_inv) (use new in auto)
  have bind: "outcome (\<lambda>(a, rt'). sys_ok False P rt') (ok_fault False)
     (bindR (track k u rt2) (\<lambda>rt.
        case heap rt u of
          Some (ActionObj x) \<Rightarrow> Inr (u, put_action u (x\<lparr>act_cell := Some (last args)\<rparr>) rt)
        | _ \<Rightarrow> Inl (UseAfterFree u)))" if "rinv False (next_addr rt) P rt2" for k and rt2 :: "('v, 'r) rt"
  proof (rule outcome_bind)
    show "outcome (rinv False (next_addr rt) (insert (PinCtx k) P)) (ok_fault False) (track k u rt2)"
      using that by (intro track_inv) (auto simp: inv_insert)
    fix rt3 :: "('v, 'r) rt" assume "rinv False (next_addr rt) (insert (PinCtx k) P) rt3"
    then have "rinv False (next_addr rt) P rt3" by (simp add: inv_insert)
    then show "outcome (\<lambda>(a, rt'). sys_ok False P rt') (ok_fault False)
        (case heap rt3 u of
          Some (ActionObj x) \<Rightarrow> Inr (u, put_action u (x\<lparr>act_cell := Some (last args)\<rparr>) rt3)
        | _ \<Rightarrow> Inl (UseAfterFree u))"
      by (cases "heap rt3 u" rule: object_cases) (auto intro: inv_sys_ok put_action_inv)
  qed
  show ?thesis
    unfolding derive_final_action_def new_derived_action_def alloc prod.case
  proof (rule outcome_bind [OF reg])
    fix rt2 :: "('v, 'r) rt" assume "rinv False (next_addr rt) ?Q rt2"
    then have "rinv False (next_addr rt) P rt2" by (rule inv_pins_mono) blast
    with bind show "outcome (\<lambda>(a, rt'). sys_ok False P rt') (ok_fault False)
       (if \<not> True then Inr (u, rt2)
        else with_cell (last args) rt2 (\<lambda>c.
            case bound_context c of
              None \<Rightarrow> Inl (AssertFailed
                 ''final action should bind to cell with resouce management context.'')
            | Some k \<Rightarrow>
                bindR (track k u rt2) (\<lambda>rt.
                case heap rt u of
                  Some (ActionObj x) \<Rightarrow> Inr (u, put_action u (x\<lparr>act_cell := Some (last args)\<rparr>) rt)
                | _ \<Rightarrow> Inl (UseAfterFree u))))"
      by (simp add: with_cell_def split: option.split obj.split)
  qed
qed

section \<open>Contexts\<close>

lemma new_ctx_inv:
  assumes "sys_ok safe P rt" and "new_ctx r rt = (k, rt')"
  shows "sys_ok safe (insert (PinCtx k) P) rt'"
proof -
  have rt': "rt' = rt\<lparr>ctxs := (ctxs rt)(k \<mapsto> \<lparr>release_list = [], ctx_resolver = r\<rparr>), next_ctx := Suc (next_ctx rt)\<rparr>"
    using assms(2) by (auto simp: new_ctx_def)
  note inv = sys_ok_inv [OF assms(1)]
  have "rinv safe (next_addr rt) P rt'"
  proof (rule inv_fresh [OF inv])
    show "rt_ok rt'" using inv_rt_ok [OF inv] handlers_ok_but_frame [of rt' rt "{}"] heap_ok_frame [of rt' rt]
      by (simp add: rt_ok_def rt')
    fix a s assume "next_addr rt \<le> a" "skel rt' a = Some s"
    then show "shape_ok safe (next_addr rt) (next_addr rt') (skel rt') (dom (ctxs rt')) a s"
      using inv_rt_ok [OF inv] by (auto simp: rt_ok_def heap_ok_def rt' skel_Some)
  qed (auto simp: rt')
  then show ?thesis by (auto simp: sys_ok_insert rt' intro: inv_sys_ok)
qed

lemma set_binded_context_inv:
  assumes "sys_ok safe P rt" and "live_cells rt [a]"
  shows "outcome (sys_ok safe P) (ok_fault safe) (set_binded_context a k rt)"
proof -
  obtain c where c: "heap rt a = Some (CellObj c)" using assms(2) by (auto simp: live_cells_iff)
  have "rinv safe (next_addr rt) P (put_cell a (c\<lparr>bound_context := Some k\<rparr>) rt)"
    by (rule inv_put_cell [OF sys_ok_inv [OF assms(1)] c]) (auto simp: frozen_ok_def split: option.splits)
  then show ?thesis using c by (auto simp: set_binded_context_def with_cell_def intro: inv_sys_ok)
qed

lemma release_list_remove_inv:
  assumes "sys_ok safe P rt" and "PinCtx k \<in> P"
  shows "outcome (sys_ok safe P) (ok_fault safe) (release_list_remove k a rt)"
  using inv_pin [OF sys_ok_inv [OF assms(1)] assms(2)] sys_ok_inv [OF assms(1)]
  by (auto simp: release_list_remove_def sys_ok_def split: option.split)

end
