(* ===== verification/Handlers.thy ===== *)
theory Handlers
  imports Interactions
begin

text \<open>
  The message handlers keep the runtime invariant.  What user code behind a request and a
  scheduled task may do is the interface \<open>service_code\<close>: its methods and tasks keep the invariant
  in its weak form, which is what the operations of \<open>Interactions\<close> give them.
\<close>

section \<open>Responses and timeouts\<close>

lemma table_entry:
  assumes "rinv safe N P rt" and "id_func_map rt s = Some a"
  obtains c where "heap rt a = Some (CellObj c)" "kind c = PlainCell" "has_seq_id c" "seq_id c = s"
proof -
  have ok: "handlers_ok rt" "heap_ok rt" using inv_rt_ok [OF assms(1)] by (simp_all add: rt_ok_def)
  from handlers_okD [OF ok(1) assms(2)] obtain c where
    c: "heap rt a = Some (CellObj c)" "has_seq_id c" "seq_id c = s" by blast
  moreover have "kind c = PlainCell"
    using heap_ok_plain [OF ok(2) c(1)] c(2) by (auto simp: id_only_plain_def split: kind.splits)
  ultimately show ?thesis using that by blast
qed

lemma pin_ok_same_heap:
  assumes "pin_ok safe rt p" and "heap rt a = Some (CellObj c)"
    and "heap rt' = (heap rt)(a \<mapsto> CellObj (c\<lparr>has_seq_id := b\<rparr>))" and "next_addr rt' = next_addr rt"
    and "ctxs rt' = ctxs rt"
  shows "pin_ok safe rt' p"
  using assms by (cases p) (auto simp: frozen_ok_def split: option.splits)

lemma reset_erase_inv:
  assumes inv: "rinv safe N P rt" and s: "id_func_map rt s = Some a"
  shows "outcome (\<lambda>rt'. rinv safe N P (erase_handler s rt')) (ok_fault safe) (reset_sequential_id a rt)"
proof -
  from table_entry [OF assms] obtain c where c: "heap rt a = Some (CellObj c)" "kind c = PlainCell" by blast
  let ?rt = "erase_handler s (put_cell a (c\<lparr>has_seq_id := False\<rparr>) rt)"
  have ok: "handlers_ok rt" "heap_ok rt" using inv_rt_ok [OF inv] by (simp_all add: rt_ok_def)
  have "handlers_ok ?rt"
    using handlers_ok_reset_erase [OF ok(1) s] c by (simp add: reset_sequential_id_def with_cell_def)
  moreover have "heap_ok ?rt"
    using heap_ok_put_cell [OF ok(2) c(1), of "c\<lparr>has_seq_id := False\<rparr>"]
    by (simp add: id_only_plain_def heap_ok_def erase_handler_def)
  moreover have "skel ?rt = skel rt" using c by (auto simp: skel_def erase_handler_def put_cell_def)
  moreover have "pin_ok safe ?rt p" if "pin_ok safe rt p" for p
    using that c(1) by (rule pin_ok_same_heap) (simp_all add: erase_handler_def put_cell_def)
  ultimately have "rinv safe N P ?rt"
    using inv by (simp add: rinv_def rt_ok_def) (simp add: erase_handler_def put_cell_def)
  then show ?thesis using c by (simp add: reset_sequential_id_def with_cell_def)
qed

lemma delete_rsp_handler_inv:
  assumes "rinv safe N P rt"
  shows "outcome (rinv safe N P) (ok_fault safe) (delete_rsp_handler_if_exist s rt)"
  using reset_erase_inv [OF assms] assms
  by (auto simp: delete_rsp_handler_if_exist_def outcome_bind_eq split: option.split)

lemma top_level: "virtual_update.level 0 a k"
  by (simp add: knot.level_def)

lemma plain_settable: "rinv safe N P rt \<Longrightarrow> PinCell a KPlain so n \<in> P \<Longrightarrow> virtual_update.settable rt a"
  by (rule knot.settable_kind, assumption, assumption) simp

lemmas set_plain_inv = knot.set_failed_reason_inv [OF _ _ top_level plain_settable]
  knot.set_value_inv [OF _ _ top_level plain_settable]

lemma set_rpc_rsp_inv:
  assumes inv: "rinv safe N P rt" and a: "PinCell a KPlain so n \<in> P"
  shows "outcome (rinv safe N P) (ok_fault safe) (set_rpc_rsp E (update E) a h msg rt)"
  unfolding set_rpc_rsp_def
  by (intro outcome_if with_cell_pin [OF inv a] outcome_bind [OF do_decode_fault])
    (auto intro!: outcome_option set_plain_inv [OF inv a inv a])

lemma set_timeout_inv:
  assumes "rinv safe N P rt" and "PinCell a KPlain so n \<in> P"
  shows "outcome (rinv safe N P) (ok_fault safe) (set_timeout (update E) a rt)"
  unfolding set_timeout_def by (rule set_plain_inv [OF assms assms])

lemma pin_sink:
  assumes "rinv safe N P rt" and "id_func_map rt s = Some a"
  shows "rinv safe N (insert (PinCell a KPlain None 0) P) rt"
proof -
  from table_entry [OF assms] obtain c where "heap rt a = Some (CellObj c)" "kind c = PlainCell" by blast
  with inv_pin_cell [OF assms(1) this(1), of None 0] show ?thesis by simp
qed

lemma handle_rpc_rsp_inv:
  assumes "sys_ok safe P rt"
  shows "outcome (sys_ok safe P) (ok_fault safe) (handle_rpc_rsp E (update E) msg rt)"
proof -
  note inv = sys_ok_inv [OF assms]
  have "outcome (rinv safe (next_addr rt) P) (ok_fault safe)
      (bindR (set_rpc_rsp E (update E) a h m rt) (delete_rsp_handler_if_exist s))"
    if "id_func_map rt s = Some a" for a h m s
    by (rule outcome_bind [OF set_rpc_rsp_inv [OF pin_sink [OF inv that] insertI1]])
      (rule delete_rsp_handler_inv, simp add: inv_insert)
  then have "outcome (sys_ok safe P) (ok_fault safe)
      (bindR (set_rpc_rsp E (update E) a h m rt) (delete_rsp_handler_if_exist s))"
    if "id_func_map rt s = Some a" for a h m s
    using that by (blast intro: outcome_sys_ok)
  then show ?thesis
    using assms by (auto simp: handle_rpc_rsp_def intro!: outcome_log split: option.split)
qed

lemma on_rsp_handler_timeout_inv:
  fixes rt :: "('v, 'r) rt"
  assumes "sys_ok safe P rt"
  shows "outcome (sys_ok safe P) (ok_fault safe) (on_rsp_handler_timeout E (update E) s rt)"
proof -
  note inv = sys_ok_inv [OF assms]
  have "outcome (sys_ok safe P) (ok_fault safe)
      (bindR (reset_sequential_id a rt) (\<lambda>rt. set_timeout (update E) a (erase_handler s rt)))"
    if s: "id_func_map rt s = Some a" for a
  proof (rule outcome_bind [OF reset_erase_inv [OF pin_sink [OF inv s] s]])
    fix rt' :: "('v, 'r) rt" assume "rinv safe (next_addr rt) (insert (PinCell a KPlain None 0) P) (erase_handler s rt')"
    from set_timeout_inv [OF this insertI1]
    have "outcome (rinv safe (next_addr rt) P) (ok_fault safe) (set_timeout (update E) a (erase_handler s rt'))"
      by (rule outcome_inv_pins_mono) blast
    then show "outcome (sys_ok safe P) (ok_fault safe) (set_timeout (update E) a (erase_handler s rt'))"
      by (rule outcome_sys_ok)
  qed
  then show ?thesis
    using assms by (auto simp: on_rsp_handler_timeout_def intro!: outcome_log split: option.split)
qed

lemma on_timeout_inv:
  "sys_ok safe P rt \<Longrightarrow> outcome (sys_ok safe P) (ok_fault safe) (on_timeout E (update E) msg rt)"
  by (simp add: on_timeout_def on_rsp_handler_timeout_inv split: option.split)

section \<open>Cells made by callers\<close>

text \<open>Giving a timeout cell its flag cell changes its kind, so nothing may pin it.\<close>

lemma inv_set_flag:
  fixes rt :: "('v, 'r) rt"
  assumes inv: "rinv safe N P rt" and c: "heap rt a = Some (CellObj c)" and k: "kind c = TimeoutCell ti"
    and t: "a < t" "heap rt t = Some (CellObj f)" "kind f = FlagCell"
    and free: "\<And>k so n. PinCell a k so n \<notin> P"
  shows "rinv safe N P (put_cell a (c\<lparr>kind := TimeoutCell (ti\<lparr>timeout_cell := Some t\<rparr>)\<rparr>) rt)"
proof -
  let ?c = "c\<lparr>kind := TimeoutCell (ti\<lparr>timeout_cell := Some t\<rparr>)\<rparr>"
  let ?rt = "put_cell a ?c rt" and ?M = "next_addr rt" and ?K = "dom (ctxs rt)"
  let ?old = "SCell (updatables c) (KTimeout (ti_ctxt ti) (rpc_args ti) (timeout_cell ti))"
  let ?new = "SCell (updatables c) (KTimeout (ti_ctxt ti) (rpc_args ti) (Some t))"
  have old: "skel rt a = Some ?old" using c k by (simp add: skel_def)
  have skel: "skel ?rt = (skel rt)(a \<mapsto> ?new)" by (auto simp: skel_def put_cell_def)
  have keeps: "keeps_faces safe ?M (skel rt) (skel ?rt)" by (simp add: keeps_faces_def skel old)
  note g = inv_graph [OF inv]
  have N: "N \<le> ?M" using inv by (simp add: rinv_def)
  have "shape_ok safe N ?M (skel ?rt) ?K a ?old"
    by (rule shape_ok_keeps [OF conjunct2 [OF graph_okD [OF g old]] keeps]) (use graph_okD [OF g] N in auto)
  moreover have "ref_ok safe (skel ?rt) (\<lambda>k. k = KFlag) t" using t by (simp add: ref_ok_def skel) (simp add: skel_def)
  ultimately have "shape_ok safe N ?M (skel ?rt) ?K a ?new"
    using t inv_heap_bound [OF inv t(2)] by (auto intro: listener_ok_kind)
  then have "graph_ok safe N ?M (skel ?rt) ?K"
    using graph_okD [OF g old] N by (intro graph_ok_keeps [OF g keeps]) (auto simp: skel split: if_splits)
  moreover have "rt_ok ?rt"
    using inv_rt_ok [OF inv] handlers_ok_put_cell [OF _ c, of "{}" ?c] heap_ok_put_cell [OF _ c, of ?c]
      heap_ok_plain [OF _ c] k
    by (auto simp: rt_ok_def id_only_plain_def)
  moreover have "pin_ok safe ?rt p" if "p \<in> P" for p
    using inv_pin [OF inv that] that free c by (cases p) (auto simp: put_cell_def)
  ultimately show ?thesis using inv by (simp add: rinv_def) (simp add: put_cell_def)
qed

lemma timeout_of_inv:
  fixes rt :: "('v, 'r) rt"
  assumes ok: "sys_ok safe P rt" and c: "heap rt a = Some (CellObj c)" "kind c = TimeoutCell ti"
    and free: "\<And>k so n. PinCell a k so n \<notin> P"
  shows "outcome (\<lambda>(t, rt'). sys_ok safe P rt') (ok_fault safe) (timeout_of a rt)"
proof (cases "timeout_cell ti")
  case None
  obtain t rt1 where alloc: "alloc (CellObj (new_cell ''bool'' FlagCell)) rt = (t, rt1)" by fastforce
  then have rt1: "t = next_addr rt" "heap rt1 = (heap rt)(t \<mapsto> CellObj (new_cell ''bool'' FlagCell))"
    by (auto simp: alloc_def)
  have "rinv safe (Suc t) P (snd (alloc (CellObj (new_cell ''bool'' FlagCell)) rt))"
    using sys_ok_inv [OF ok] rt1 by (intro inv_alloc [OF sys_ok_inv [OF ok]]) (auto simp: new_cell_def)
  then have inv1: "rinv safe (Suc t) P rt1" by (simp add: alloc)
  have a: "a < t" using inv_heap_bound [OF sys_ok_inv [OF ok] c(1)] rt1 by simp
  have "rinv safe (Suc t) P (put_cell a (c\<lparr>kind := TimeoutCell (ti\<lparr>timeout_cell := Some t\<rparr>)\<rparr>) rt1)"
    by (rule inv_set_flag [OF inv1 _ c(2) a _ _ free]) (use rt1 a c in \<open>auto simp: new_cell_def\<close>)
  then show ?thesis using c None a rt1
    by (auto simp: timeout_of_def with_timeout_cell_def with_cell_def alloc update_timeout_info_def
        intro: inv_sys_ok)
qed (use ok c in \<open>simp add: timeout_of_def with_timeout_cell_def with_cell_def\<close>)

lemma cell_with_value_inv:
  assumes "sys_ok safe P rt"
  shows "sys_ok safe P (snd (cell_with_value ty v rt))"
proof -
  obtain a rt1 where alloc: "alloc (CellObj (new_cell ty PlainCell)) rt = (a, rt1)" by fastforce
  note plain = alloc_plain [OF sys_ok_inv [OF assms] alloc]
  have "rinv safe (next_addr rt) P rt1" "heap rt1 a = Some (CellObj (new_cell ty PlainCell))"
    using plain by (auto simp: new_cell_def inv_insert)
  from inv_set_state [OF this] have
    "rinv safe (next_addr rt) P (put_cell a ((new_cell ty PlainCell)\<lparr>cstate := s\<rparr>) rt1)" for s
    by (simp add: new_cell_def)
  then show ?thesis by (auto simp: cell_with_value_def alloc intro: inv_sys_ok)
qed

lemma call_sync_iface_impl_inv: "sys_ok safe P rt \<Longrightarrow> sys_ok safe P (snd (call_sync_iface_impl ty f rsp rt))"
  by (simp add: call_sync_iface_impl_def cell_with_value_inv)

lemma stub_call_inv:
  assumes "sys_ok safe P rt" and "PinCtx k \<in> P"
  shows "outcome (\<lambda>(a, rt'). sys_ok safe P rt') (ok_fault safe) (encode_request_and_send E k svc i m ty req rt)"
  using encode_request_and_send_inv [OF sys_ok_inv [OF assms(1)] assms(2)]
  by (rule outcome_mono) (auto simp: got_cell_def inv_insert intro: inv_sys_ok)

lemma failed_cell_inv:
  assumes "sys_ok safe P rt" and "PinCtx k \<in> P"
  shows "outcome (\<lambda>(a, rt'). sys_ok safe P rt') (ok_fault safe) (failed_cell_with_reason k ty r rt)"
  using failed_cell_with_reason_inv [OF sys_ok_inv [OF assms(1)] assms(2)]
  by (rule outcome_mono) (auto simp: got_cell_def inv_insert intro: inv_sys_ok)

text \<open>Pins on derived cells only, so that a timeout cell is never among them.\<close>

definition derived_pins :: "'v pin set \<Rightarrow> bool" where
  "derived_pins P \<longleftrightarrow> (\<forall>a k so n. PinCell a k so n \<in> P \<longrightarrow> is_derived_kind k)"

lemma derived_pins_timeout:
  assumes "sys_ok safe P rt" and "derived_pins P" and "heap rt a = Some (CellObj c)" and "kind c = TimeoutCell ti"
  shows "PinCell a k so n \<notin> P"
proof
  assume p: "PinCell a k so n \<in> P"
  from inv_pin [OF sys_ok_inv [OF assms(1)] p] assms(3,4) have "\<not> is_derived_kind k" by auto
  with p assms(2) show False by (auto simp: derived_pins_def)
qed

lemma run_si_inv:
  fixes rt :: "('v, 'r) rt"
  assumes ok: "sys_ok safe P rt"
    and si: "\<And>k rt1. sys_ok safe (insert (PinCtx k) P) rt1
      \<Longrightarrow> outcome (\<lambda>(r, rt'). sys_ok safe (insert (PinCtx k) P) rt'
            \<and> (\<forall>a. safe \<longrightarrow> r = Some a \<longrightarrow> live_cells rt' [a])) (ok_fault safe) (si_func k rt1)"
  shows "outcome (\<lambda>(a, rt'). sys_ok safe P rt') (ok_fault safe) (run_si resolver si_func rt)"
proof -
  obtain k rt1 where ctx: "new_ctx (Some resolver) rt = (k, rt1)" by fastforce
  let ?P = "insert (PinCtx k) P"
  have bind: "outcome (\<lambda>(a, rt'). sys_ok safe P rt') (ok_fault safe)
     (bindR (set_binded_context a k rt2) (\<lambda>rt. bindR (release_list_remove k a rt) (\<lambda>rt. Inr (a, rt))))"
    if ok2: "sys_ok safe ?P rt2" and live: "safe \<longrightarrow> live_cells rt2 [a]" for a and rt2 :: "('v, 'r) rt"
  proof (rule outcome_bind)
    show "outcome (sys_ok safe ?P) (ok_fault safe) (set_binded_context a k rt2)"
    proof (cases "live_cells rt2 [a]")
      case True
      with ok2 show ?thesis by (rule set_binded_context_inv)
    next
      case False
      with live have "set_binded_context a k rt2 = Inl (UseAfterFree a)" "\<not> safe"
        by (auto simp: set_binded_context_def with_cell_def live_cells_iff split: option.split obj.split)
      then show ?thesis by simp
    qed
    fix rt3 :: "('v, 'r) rt" assume "sys_ok safe ?P rt3"
    then have "outcome (sys_ok safe ?P) (ok_fault safe) (release_list_remove k a rt3)"
      by (rule release_list_remove_inv) simp
    then show "outcome (\<lambda>(a, rt'). sys_ok safe P rt') (ok_fault safe)
        (bindR (release_list_remove k a rt3) (\<lambda>rt. Inr (a, rt)))"
      by (rule outcome_bind) (simp add: sys_ok_insert)
  qed
  show ?thesis
    unfolding run_si_def ctx prod.case
  proof (rule outcome_bind [OF si [OF new_ctx_inv [OF ok ctx]]], clarify)
    fix r and rt2 :: "('v, 'r) rt"
    assume "sys_ok safe ?P rt2" and "\<forall>a. safe \<longrightarrow> r = Some a \<longrightarrow> live_cells rt2 [a]"
    then show "outcome (\<lambda>(a, rt'). sys_ok safe P rt') (ok_fault safe)
        (case r of
            None \<Rightarrow> Inl (AssertFailed ''should not return nullptr cell from SI'')
          | Some result_cell \<Rightarrow>
              bindR (set_binded_context result_cell k rt2) (\<lambda>rt.
              bindR (release_list_remove k result_cell rt) (\<lambda>rt. Inr (result_cell, rt))))"
      using bind by (cases r) simp_all
  qed
qed

section \<open>Requests\<close>

locale service_code =
  fixes repo :: "('v, 'r) repository"
    and run_task :: "nat \<Rightarrow> ('v, 'r) rt \<Rightarrow> ('v, 'r) res"
  assumes method_ok: "repo ii = Some methods \<Longrightarrow> m \<in> set methods \<Longrightarrow> derived_pins P \<Longrightarrow> sys_ok False P rt
      \<Longrightarrow> outcome (\<lambda>(r, rt'). sys_ok False P rt') (ok_fault False) (method_impl m v rt)"
    and task_ok: "derived_pins P \<Longrightarrow> sys_ok False P rt
      \<Longrightarrow> outcome (sys_ok False P) (ok_fault False) (run_task n rt)"
begin

lemma invoke_templated_method_inv:
  assumes m: "repo ii = Some methods" "m \<in> set methods" and P: "derived_pins P" and ok: "sys_ok False P rt"
  shows "outcome (\<lambda>(r, rt'). sys_ok False P rt') (ok_fault False)
    (invoke_templated_method E m msg sender rsp_header rt)"
proof -
  have reply: "outcome (\<lambda>(r, rt'). sys_ok False P rt') (ok_fault False)
      (bindR (send_rsp_cell_value E sender rsp_header s rt1) (\<lambda>(ret, rt).
       bindR (delete_obj E a rt) (\<lambda>rt. Inr (ret, rt))))"
    if "sys_ok False P rt1" for a s and rt1 :: "('v, 'r) rt"
  proof (rule outcome_bind [OF send_rsp_cell_value_quiet], clarify)
    fix ret and rt2 :: "('v, 'r) rt" assume "quiet rt1 rt2"
    with that have "sys_ok False P rt2" by (rule quiet_sys_ok [rotated])
    from outcome_sys_ok [OF delete_obj_inv [OF sys_ok_inv [OF this]]]
    show "outcome (\<lambda>(r, rt'). sys_ok False P rt') (ok_fault False)
        (bindR (delete_obj E a rt2) (\<lambda>rt. Inr (ret, rt)))"
      by (rule outcome_bind) simp
  qed
  have final: "outcome (\<lambda>(r, rt'). sys_ok False P rt') (ok_fault False)
      (bindR (derive_final_action (update E) (SendRsp sender rsp_header) [a] rt1) (\<lambda>(_, rt). Inr (Succeeded, rt)))"
    if "sys_ok False P rt1" "heap rt1 a = Some (CellObj c)" for a c and rt1 :: "('v, 'r) rt"
    by (rule outcome_bind [OF derive_final_action_inv [OF that(1)]]) (use that in \<open>auto simp: live_cells_iff\<close>)
  have "outcome (\<lambda>(r, rt'). sys_ok False P rt') (ok_fault False)
     (with_cell a rt1 (\<lambda>c.
               if has_value (cstate c)
               then bindR (send_rsp_cell_value E sender rsp_header (cstate c) rt1) (\<lambda>(ret, rt).
                    bindR (delete_obj E a rt) (\<lambda>rt. Inr (ret, rt)))
               else bindR (derive_final_action (update E) (SendRsp sender rsp_header) [a] rt1)
                      (\<lambda>(_, rt). Inr (Succeeded, rt))))"
    if "sys_ok False P rt1" for a and rt1 :: "('v, 'r) rt"
    using reply [OF that] final [OF that]
    by (cases "heap rt1 a" rule: object_cases) (auto simp: with_cell_def)
  with ok show ?thesis
    unfolding invoke_templated_method_def
    by (auto intro!: outcome_bind [OF do_decode_fault] outcome_option outcome_bind [OF method_ok [OF m P ok]])
qed

lemma on_rpc_req_msg_inv:
  assumes P: "derived_pins P" and ok: "sys_ok False P rt"
  shows "outcome (sys_ok False P) (ok_fault False) (on_rpc_req_msg E repo msg_id msg sender rt)"
proof -
  have unknown: "outcome (sys_ok False P) (ok_fault False) (bindR (send_msg E sender m mem rt) (\<lambda>(_, rt). Inr rt))" for m mem
    by (rule outcome_bind [OF send_msg_quiet]) (auto intro: quiet_sys_ok [OF _ ok])
  have reply: "outcome (sys_ok False P) (ok_fault False) (send_msg_with_header E sender h None rt1)"
    if "sys_ok False P rt1" for h and rt1 :: "('v, 'r) rt"
    using send_msg_with_header_quiet by (rule outcome_mono) (auto intro: quiet_sys_ok [OF _ that])
  have invoke: "outcome (\<lambda>(r, rt'). sys_ok False P rt') (ok_fault False) (onRpcInvoke E methods h payload rh sender rt)"
    if "repo ii = Some methods" for ii methods h payload rh
  proof (cases "find (\<lambda>m. method_index m = method_index_in_interface h) methods")
    case (Some m)
    then have "m \<in> set methods" by (auto simp: find_Some_iff)
    then show ?thesis
      unfolding onRpcInvoke_def Some option.case
      by (intro outcome_bind [OF invoke_templated_method_inv [OF that _ P ok]]) auto
  qed (use ok in \<open>simp add: onRpcInvoke_def\<close>)
  show ?thesis
    unfolding on_rpc_req_msg_def
    by (auto simp: Let_def get_iface_impl_by_def ok intro!: outcome_if outcome_log unknown
        outcome_bind [OF invoke] reply split: option.split)
qed

lemma handle_task_inv:
  assumes "derived_pins P" and ok: "sys_ok False P rt"
  shows "outcome (sys_ok False P) (ok_fault False) (handle_task E run_task msg rt)"
proof -
  have del: "outcome (sys_ok False P) (ok_fault False) (delete_task t rt1)" if "sys_ok False P rt1" for t and rt1 :: "('v, 'r) rt"
    using that by (auto simp: delete_task_def sys_ok_def split: option.split)
  show ?thesis
    by (auto simp: handle_task_def Let_def ok intro!: outcome_log outcome_bind [OF task_ok [OF assms]] del
        split: option.split)
qed

lemma handle_msg_inv:
  assumes P: "derived_pins P" and ok: "sys_ok False P rt"
  shows "outcome (\<lambda>(handled, rt'). sys_ok False P rt') (ok_fault False)
    (handle_msg E repo run_task msg_id msg sender rt)"
  unfolding handle_msg_def
  by (auto simp: ok intro!: outcome_bind [OF on_rpc_req_msg_inv [OF P ok]]
      outcome_bind [OF handle_rpc_rsp_inv [OF ok]] outcome_bind [OF on_timeout_inv [OF ok]]
      outcome_bind [OF handle_task_inv [OF P ok]])

end

lemma dispatch_async_inv:
  assumes ok: "sys_ok safe P rt"
  shows "outcome (\<lambda>(b, rt'). sys_ok safe P rt') (ok_fault safe) (dispatch_async_to_main_queue E lambda rt)"
  using sys_ok_inv [OF ok]
  by (auto simp: dispatch_async_to_main_queue_def schedule_task_def send_msg_to_self_def Let_def
      msgrpc_log_def delete_task_def sys_ok_def emit_def intro!: inv_frame [where rt = rt, THEN iffD2]
      split: option.split)

end
