(* ===== verification/Runs.thy ===== *)
theory Runs
  imports Handlers
begin

text \<open>
  What a thread of a program does over time: a sequence of calls into the library and of incoming
  messages, in any order.  The states such runs reach satisfy the invariant, which gives the
  properties that hold of every program: nothing recurses without end, responses are dispatched
  through a table that agrees with the live cells, settled cells stay settled, and a client that
  deletes nothing never touches deleted memory.
\<close>

section \<open>Calls\<close>

datatype 'v call =
    NewContext "nat option"
  | CallStub ctx_id string "16 word" "8 word" string 'v
  | MakeFailedCell ctx_id string rpc_result
  | MakeValueCell string 'v
  | DeriveCell ctx_id string "'v logic" "addr list"
  | DeriveRpcCell ctx_id string int nat "'v rpc_fun" "addr list"
  | DeriveAsyncCell ctx_id string "'v rpc_fun" "addr list"
  | DeriveAction ctx_id nat "addr list"
  | DeriveFinalAction nat "addr list"
  | TimeoutOf addr
  | BindResult addr ctx_id
  | DispatchToMainQueue nat
  | Deliver "16 word" bytes service_id

definition drop_result :: "fault + 'a \<times> ('v, 'r) rt \<Rightarrow> ('v, 'r) res" where
  "drop_result r = bindR r (\<lambda>(_, rt). Inr rt)"

fun perform ::
  "('v, 'r) env \<Rightarrow> ('v, 'r) repository \<Rightarrow> (nat \<Rightarrow> ('v, 'r) rt \<Rightarrow> ('v, 'r) res) \<Rightarrow> 'v call
   \<Rightarrow> ('v, 'r) rt \<Rightarrow> ('v, 'r) res" where
  "perform E repo run_task (NewContext r) rt = Inr (snd (new_ctx r rt))"
| "perform E repo run_task (CallStub k svc i m ty req) rt =
     drop_result (encode_request_and_send E k svc i m ty req rt)"
| "perform E repo run_task (MakeFailedCell k ty r) rt = drop_result (failed_cell_with_reason k ty r rt)"
| "perform E repo run_task (MakeValueCell ty v) rt = Inr (snd (cell_with_value ty v rt))"
| "perform E repo run_task (DeriveCell k ty logic args) rt = drop_result (derive_cell E k ty logic args rt)"
| "perform E repo run_task (DeriveRpcCell k ty ms retries f args) rt =
     drop_result (derive_rpc_cell E k ty ms retries f args rt)"
| "perform E repo run_task (DeriveAsyncCell k ty f args) rt = drop_result (derive_async_cell E k ty f args rt)"
| "perform E repo run_task (DeriveAction k n args) rt =
     drop_result (derive_action (update E) k (UserAction n) args rt)"
| "perform E repo run_task (DeriveFinalAction n args) rt =
     drop_result (derive_final_action (update E) (UserAction n) args rt)"
| "perform E repo run_task (TimeoutOf a) rt = drop_result (timeout_of a rt)"
| "perform E repo run_task (BindResult a k) rt = bindR (set_binded_context a k rt) (release_list_remove k a)"
| "perform E repo run_task (DispatchToMainQueue n) rt = drop_result (dispatch_async_to_main_queue E n rt)"
| "perform E repo run_task (Deliver m msg sender) rt = drop_result (handle_msg E repo run_task m msg sender rt)"

text \<open>A caller passes contexts and cells that are alive, and at least one cell to an action.\<close>

definition live_ctx :: "('v, 'r) rt \<Rightarrow> ctx_id \<Rightarrow> bool" where
  "live_ctx rt k \<longleftrightarrow> ctxs rt k \<noteq> None"

definition is_timeout_cell :: "('v, 'r) rt \<Rightarrow> addr \<Rightarrow> bool" where
  "is_timeout_cell rt a =
     (case heap rt a of Some (CellObj c) \<Rightarrow> is_timeout_kind (skind_of (kind c)) | _ \<Rightarrow> False)"

fun legal_call :: "('v, 'r) rt \<Rightarrow> 'v call \<Rightarrow> bool" where
  "legal_call rt (CallStub k svc i m ty req) = live_ctx rt k"
| "legal_call rt (MakeFailedCell k ty r) = live_ctx rt k"
| "legal_call rt (DeriveCell k ty logic args) = (live_ctx rt k \<and> live_cells rt args)"
| "legal_call rt (DeriveRpcCell k ty ms retries f args) = (live_ctx rt k \<and> live_cells rt args)"
| "legal_call rt (DeriveAsyncCell k ty f args) = (live_ctx rt k \<and> live_cells rt args)"
| "legal_call rt (DeriveAction k n args) = (live_ctx rt k \<and> live_cells rt args \<and> args \<noteq> [])"
| "legal_call rt (DeriveFinalAction n args) = (live_cells rt args \<and> args \<noteq> [])"
| "legal_call rt (TimeoutOf a) = is_timeout_cell rt a"
| "legal_call rt (BindResult a k) = (live_ctx rt k \<and> live_cells rt [a])"
| "legal_call rt _ = True"

text \<open>
  What a pure client does: no final action, and of the messages only responses and timeouts, since
  a request or a task runs other code of the program.
\<close>

fun client_call :: "('v, 'r) env \<Rightarrow> 'v call \<Rightarrow> bool" where
  "client_call E (DeriveFinalAction n args) = False"
| "client_call E (Deliver m msg sender) =
     (m \<noteq> request_msg_id (env_config E)
      \<and> (m = response_msg_id (env_config E) \<or> m = timeout_msg_id (env_config E)
         \<or> m \<noteq> schedule_task_on_main_thread_msg_id (env_config E)))"
| "client_call E _ = True"

inductive reach ::
  "('v, 'r) env \<Rightarrow> ('v, 'r) repository \<Rightarrow> (nat \<Rightarrow> ('v, 'r) rt \<Rightarrow> ('v, 'r) res) \<Rightarrow> bool \<Rightarrow> ('v, 'r) rt \<Rightarrow> bool"
  for E repo run_task client where
  reach_initial: "reach E repo run_task client (initial_rt r)"
| reach_call: "reach E repo run_task client rt \<Longrightarrow> legal_call rt c \<Longrightarrow> (client \<Longrightarrow> client_call E c)
    \<Longrightarrow> perform E repo run_task c rt = Inr rt' \<Longrightarrow> reach E repo run_task client rt'"

section \<open>One call keeps the invariant\<close>

lemma outcome_drop_result:
  "outcome (\<lambda>(x, rt). Q rt) Er r \<Longrightarrow> outcome Q Er (drop_result r)"
  unfolding drop_result_def by (erule outcome_bind) auto

lemma pin_live_ctx: "sys_ok safe P rt \<Longrightarrow> live_ctx rt k \<Longrightarrow> sys_ok safe (insert (PinCtx k) P) rt"
  by (auto simp: sys_ok_insert live_ctx_def)

lemma outcome_drop_unpin:
  "outcome (\<lambda>(x, rt). sys_ok safe (insert p P) rt) Er r \<Longrightarrow> outcome (sys_ok safe P) Er (drop_result r)"
  unfolding drop_result_def by (erule outcome_bind) (auto simp: sys_ok_insert)

lemma perform_inv:
  assumes code: "\<not> safe \<Longrightarrow> service_code repo run_task" and P: "derived_pins P" and ok: "sys_ok safe P rt"
    and legal: "legal_call rt c" and client: "safe \<Longrightarrow> client_call E c"
  shows "outcome (sys_ok safe P) (ok_fault safe) (perform E repo run_task c rt)"
proof (cases c)
  case (NewContext r)
  obtain k rt' where "new_ctx r rt = (k, rt')" by fastforce
  from new_ctx_inv [OF ok this] this NewContext show ?thesis by (simp add: sys_ok_insert)
next
  case (CallStub k svc i m ty req)
  with legal have "sys_ok safe (insert (PinCtx k) P) rt" by (simp add: pin_live_ctx ok)
  from outcome_drop_unpin [OF stub_call_inv [OF this insertI1]] show ?thesis
    by (simp add: CallStub)
next
  case (MakeFailedCell k ty r)
  with legal have "sys_ok safe (insert (PinCtx k) P) rt" by (simp add: pin_live_ctx ok)
  from outcome_drop_unpin [OF failed_cell_inv [OF this insertI1]] show ?thesis
    by (simp add: MakeFailedCell)
next
  case (MakeValueCell ty v)
  then show ?thesis by (simp add: cell_with_value_inv ok)
next
  case (DeriveCell k ty logic args)
  with legal have "sys_ok safe (insert (PinCtx k) P) rt" "live_cells rt args" by (simp_all add: pin_live_ctx ok)
  from outcome_drop_unpin [OF derive_cell_inv [OF this insertI1]] show ?thesis
    by (simp add: DeriveCell)
next
  case (DeriveRpcCell k ty ms retries f args)
  with legal have "sys_ok safe (insert (PinCtx k) P) rt" "live_cells rt args" by (simp_all add: pin_live_ctx ok)
  from outcome_drop_unpin [OF derive_rpc_cell_inv [OF this insertI1]] show ?thesis
    by (simp add: DeriveRpcCell)
next
  case (DeriveAsyncCell k ty f args)
  with legal have "sys_ok safe (insert (PinCtx k) P) rt" "live_cells rt args" by (simp_all add: pin_live_ctx ok)
  from outcome_drop_unpin [OF derive_async_cell_inv [OF this insertI1]] show ?thesis
    by (simp add: DeriveAsyncCell)
next
  case (DeriveAction k n args)
  with legal have "sys_ok safe (insert (PinCtx k) P) rt" "live_cells rt args" "args \<noteq> []"
    by (simp_all add: pin_live_ctx ok)
  from outcome_drop_unpin [OF derive_action_inv [OF this insertI1, of "UserAction n"]] show ?thesis
    by (simp add: DeriveAction)
next
  case (DeriveFinalAction n args)
  with client have "safe = False" by auto
  with derive_final_action_inv [of P rt args "UserAction n"] ok legal DeriveFinalAction show ?thesis
    by (simp add: outcome_drop_result)
next
  case (TimeoutOf a)
  with legal obtain cl ti where "heap rt a = Some (CellObj cl)" "kind cl = TimeoutCell ti"
    by (auto simp: is_timeout_cell_def split: option.splits obj.splits elim!: is_timeout_kind.elims skind_of.elims)
  from timeout_of_inv [OF ok this derived_pins_timeout [OF ok P this]] show ?thesis
    by (simp add: TimeoutOf outcome_drop_result)
next
  case (BindResult a k)
  with legal have "sys_ok safe (insert (PinCtx k) P) rt" "live_cells rt [a]" by (simp_all add: pin_live_ctx ok)
  from set_binded_context_inv [OF this] have
    "outcome (sys_ok safe (insert (PinCtx k) P)) (ok_fault safe)
       (bindR (set_binded_context a k rt) (release_list_remove k a))"
    by (rule outcome_bind) (rule release_list_remove_inv, simp_all)
  then show ?thesis by (auto simp: BindResult sys_ok_insert elim: outcome_mono)
next
  case (DispatchToMainQueue n)
  then show ?thesis using dispatch_async_inv [OF ok] by (simp add: outcome_drop_result)
next
  case (Deliver m msg sender)
  show ?thesis
  proof (cases safe)
    case True
    have handled: "outcome (\<lambda>(b, rt'). sys_ok safe P rt') (ok_fault safe) (bindR r (\<lambda>rt. Inr (True, rt)))"
      if "outcome (sys_ok safe P) (ok_fault safe) r" for r
      using that by (rule outcome_bind) simp
    have "outcome (\<lambda>(b, rt'). sys_ok safe P rt') (ok_fault safe) (handle_msg E repo run_task m msg sender rt)"
      using client [OF True] ok unfolding handle_msg_def Deliver
      by (intro outcome_if handled handle_rpc_rsp_inv on_timeout_inv) simp_all
    then show ?thesis by (simp add: Deliver outcome_drop_result)
  next
    case False
    with service_code.handle_msg_inv [OF code [OF False] P, of rt] ok show ?thesis
      by (simp add: Deliver outcome_drop_result)
  qed
qed

lemma reach_sys_ok:
  "reach E repo run_task client rt \<Longrightarrow> (\<not> client \<Longrightarrow> service_code repo run_task) \<Longrightarrow> sys_ok client {} rt"
proof (induction rule: reach.induct)
  case (reach_initial r)
  show ?case by (rule sys_ok_initial)
next
  case (reach_call rt c rt')
  have "derived_pins {}" by (simp add: derived_pins_def)
  from perform_inv [OF reach_call.prems this reach_call.IH [OF reach_call.prems] reach_call.hyps(2), of E]
    reach_call.hyps(3,4) show ?case by simp
qed

lemma perform_outcome:
  assumes "service_code repo run_task" and "reach E repo run_task client rt" and "legal_call rt c"
    and "client \<Longrightarrow> client_call E c"
  shows "outcome (sys_ok client {}) (ok_fault client) (perform E repo run_task c rt)"
  using assms by (intro perform_inv reach_sys_ok) (auto simp: derived_pins_def)

section \<open>Properties of every run\<close>

text \<open>
  C10: in every state a program can reach, no call and no message makes \<^verbatim>\<open>update\<close>, \<^verbatim>\<open>delete\<close> and the
  methods behind them nest beyond the number of objects: every operation comes to an end.
\<close>

theorem every_call_ends:
  assumes "service_code repo run_task" and "reach E repo run_task client rt" and "legal_call rt c"
    and "client \<Longrightarrow> client_call E c"
  shows "perform E repo run_task c rt \<noteq> Inl OutOfFuel"
  using perform_outcome [OF assms] by auto

text \<open>
  C1: a client that runs no final action, and receives responses and timeouts in any order, late,
  repeated or forged, never touches an object that was deleted and never deletes one twice.
\<close>

theorem client_memory_safe:
  assumes "reach E repo run_task True rt" and "legal_call rt c" and "client_call E c"
  shows "perform E repo run_task c rt \<noteq> Inl (UseAfterFree a) \<and> perform E repo run_task c rt \<noteq> Inl (DoubleFree a)"
proof -
  have "outcome (sys_ok True {}) (ok_fault True) (perform E repo run_task c rt)"
    using assms by (intro perform_inv reach_sys_ok) (auto simp: derived_pins_def)
  then show ?thesis by (cases "perform E repo run_task c rt") auto
qed

text \<open>
  C2: at all times the table of pending responses holds an id exactly for the live cell that
  carries it, so a response or a timeout can only reach the cell of the request it belongs to.
\<close>

theorem pending_responses:
  assumes "service_code repo run_task" and "reach E repo run_task client rt"
  shows "id_func_map rt s = Some a \<longleftrightarrow>
    (\<exists>c. heap rt a = Some (CellObj c) \<and> kind c = PlainCell \<and> has_seq_id c \<and> seq_id c = s)"
proof -
  from reach_sys_ok [OF assms(2,1)] have inv: "rinv client (next_addr rt) {} rt" by (simp add: sys_ok_def)
  then have "handlers_ok rt" by (simp add: rinv_def rt_ok_def)
  then show ?thesis using table_entry [OF inv, of s a] handlers_ok_registered by metis
qed

text \<open>
  C8: once a derived cell has a value or an error, no call, response, timeout, request or task
  ever changes it again; at most the cell is deleted.
\<close>

theorem settled_derived_cell:
  assumes code: "service_code repo run_task" and reach: "reach E repo run_task client rt"
    and a: "heap rt a = Some (CellObj d)" "kind d = DerivedCell l args" "has_value_or_error (cstate d)"
    and legal: "legal_call rt c" "client \<Longrightarrow> client_call E c" and step: "perform E repo run_task c rt = Inr rt'"
  shows "heap rt' a = None \<or> (\<exists>d'. heap rt' a = Some (CellObj d') \<and> cstate d' = cstate d)"
proof -
  let ?P = "{PinCell a (KDerived args) (Some (cstate d)) 0}"
  have inv: "rinv client (next_addr rt) {} rt" using reach_sys_ok [OF reach code] by (simp add: sys_ok_def)
  have "rinv client (next_addr rt) ?P rt"
    using inv_pin_cell [OF inv a(1), of "Some (cstate d)" 0] a(2,3) by (simp add: frozen_ok_def)
  then have "sys_ok client ?P rt" by (simp add: sys_ok_def)
  then have "outcome (sys_ok client ?P) (ok_fault client) (perform E repo run_task c rt)"
    by (intro perform_inv [OF code _ _ legal]) (auto simp: derived_pins_def)
  then have "pin_ok client rt' (PinCell a (KDerived args) (Some (cstate d)) 0)"
    by (simp add: step sys_ok_insert)
  then show ?thesis by (cases "heap rt' a" rule: object_cases) (auto simp: frozen_ok_def)
qed

section \<open>A concrete run\<close>

text \<open>
  A context, a request to \<^verbatim>\<open>service_y\<close>, a derived cell that copies its outcome, and the response.
\<close>

definition copy_logic :: "bytes logic" where
  "copy_logic ss = (case ss of [s] \<Rightarrow> Some (SetCellValue s) | _ \<Rightarrow> None)"

definition sample_rsp :: "rpc_sequence_id \<Rightarrow> bytes" where
  "sample_rsp s = rsp_header_bytes (0, 0)
     \<lparr>msgrpc_version = 0, method_index_in_interface = 1, iface_index_in_service = 2, sequence_id = s,
      rpc_result_of = Succeeded\<rparr> @ [9]"

definition sample_calls :: "bytes call list" where
  "sample_calls =
     [NewContext (Some 0), CallStub 0 ''service_y'' 2 1 ''rsp'' [5],
      DeriveCell 0 ''rsp'' copy_logic [0], Deliver 102 (sample_rsp 1) (Endpoint 1 7777)]"

fun legal_run ::
  "('v, 'r) env \<Rightarrow> ('v, 'r) repository \<Rightarrow> (nat \<Rightarrow> ('v, 'r) rt \<Rightarrow> ('v, 'r) res) \<Rightarrow> bool \<Rightarrow> 'v call list
   \<Rightarrow> ('v, 'r) rt \<Rightarrow> ('v, 'r) rt option" where
  "legal_run E repo run_task client [] rt = Some rt"
| "legal_run E repo run_task client (c # cs) rt =
     (if legal_call rt c \<and> (client \<longrightarrow> client_call E c)
      then case perform E repo run_task c rt of
             Inl e \<Rightarrow> None
           | Inr rt' \<Rightarrow> legal_run E repo run_task client cs rt'
      else None)"

lemma legal_run_reach:
  "legal_run E repo run_task client cs rt = Some rt' \<Longrightarrow> reach E repo run_task client rt
   \<Longrightarrow> reach E repo run_task client rt'"
proof (induction cs arbitrary: rt)
  case (Cons c cs)
  then show ?case by (auto split: if_splits sum.splits intro: reach_call)
qed simp

definition sample_state :: "nat \<Rightarrow> (bytes, unit) rt" where
  "sample_state n = the (legal_run sample_env Map.empty (\<lambda>n. Inr) True (take n sample_calls) (initial_rt ()))"

lemma reach_client: "reach E repo run_task True rt \<Longrightarrow> reach E repo run_task client rt"
  by (induction rule: reach.induct) (auto intro: reach.intros)

lemma sample_reach: "n \<in> {3, 4} \<Longrightarrow> reach sample_env Map.empty (\<lambda>n. Inr) client (sample_state n)"
proof (rule reach_client, rule legal_run_reach)
  assume "n \<in> {3, 4}"
  moreover have "legal_run sample_env Map.empty (\<lambda>n. Inr) True (take 3 sample_calls) (initial_rt ()) \<noteq> None"
    by code_simp
  moreover have "legal_run sample_env Map.empty (\<lambda>n. Inr) True (take 4 sample_calls) (initial_rt ()) \<noteq> None"
    by code_simp
  ultimately show "legal_run sample_env Map.empty (\<lambda>n. Inr) True (take n sample_calls) (initial_rt ())
      = Some (sample_state n)"
    by (auto simp: sample_state_def)
qed (rule reach_initial)

lemma service_code_empty: "service_code Map.empty (\<lambda>n. Inr)"
  by unfold_locales simp_all

theorem every_call_ends_witness:
  "perform sample_env Map.empty (\<lambda>n. Inr) (Deliver 102 (sample_rsp 1) (Endpoint 1 7777)) (sample_state 3)
     \<noteq> Inl OutOfFuel"
  by (rule every_call_ends [OF service_code_empty sample_reach [of _ False]]) simp_all

theorem client_memory_safe_witness:
  "perform sample_env Map.empty (\<lambda>n. Inr) (Deliver 102 (sample_rsp 1) (Endpoint 1 7777)) (sample_state 4)
     \<noteq> Inl (UseAfterFree 0)
   \<and> perform sample_env Map.empty (\<lambda>n. Inr) (Deliver 102 (sample_rsp 1) (Endpoint 1 7777)) (sample_state 4)
     \<noteq> Inl (DoubleFree 0)"
  by (rule client_memory_safe [OF sample_reach])
    (simp_all add: sample_env_def sample_config_def)

theorem pending_responses_witness:
  "id_func_map (sample_state 3) 1 = Some 0
   \<and> (\<exists>c. heap (sample_state 3) 0 = Some (CellObj c) \<and> kind c = PlainCell \<and> has_seq_id c \<and> seq_id c = 1)"
proof -
  have "id_func_map (sample_state 3) 1 = Some 0" by code_simp
  with pending_responses [OF service_code_empty sample_reach [of 3 True], of 1 0] show ?thesis by simp
qed

theorem settled_derived_cell_witness:
  "\<exists>rt' d'. perform sample_env Map.empty (\<lambda>n. Inr) (Deliver 102 (sample_rsp 1) (Endpoint 1 7777)) (sample_state 4) = Inr rt'
     \<and> heap rt' 1 = Some (CellObj d') \<and> cell_value (cstate d') = Some (Rsp [9])"
proof -
  let ?c = "Deliver 102 (sample_rsp 1) (Endpoint 1 7777) :: bytes call"
  have "case heap (sample_state 4) 1 of
      Some (CellObj d) \<Rightarrow> (case kind d of DerivedCell l args \<Rightarrow> cell_value (cstate d) = Some (Rsp [9]) | _ \<Rightarrow> False)
    | _ \<Rightarrow> False" by code_simp
  then obtain d l args where d: "heap (sample_state 4) 1 = Some (CellObj d)" "kind d = DerivedCell l args"
    "cell_value (cstate d) = Some (Rsp [9])"
    by (auto split: option.splits obj.splits kind.splits)
  have "case perform sample_env Map.empty (\<lambda>n. Inr) ?c (sample_state 4) of Inr rt' \<Rightarrow> heap rt' 1 \<noteq> None | Inl e \<Rightarrow> False"
    by code_simp
  then obtain rt' where rt': "perform sample_env Map.empty (\<lambda>n. Inr) ?c (sample_state 4) = Inr rt'" "heap rt' 1 \<noteq> None"
    by (auto split: sum.splits)
  with settled_derived_cell [OF service_code_empty sample_reach d(1,2) _ _ _ rt'(1), of True] d(3)
  show ?thesis
    by (auto simp: has_value_or_error_def has_value_def sample_env_def sample_config_def)
qed

end
