(* ===== verification/Retry.thy ===== *)
theory Retry
  imports Runs
begin

text \<open>
  The retry protocol of \<^verbatim>\<open>timeout_cell.h\<close>: a cell that waits for a response with \<open>n\<close> retries left
  sends exactly \<open>n\<close> more requests, one for each timeout, under fresh ids, and then fails with
  \<^verbatim>\<open>timeout\<close>.
\<close>

section \<open>A cell that waits\<close>

text \<open>An environment in which requests to a service go out.\<close>

definition sends_to :: "('v, 'r) env \<Rightarrow> nat \<Rightarrow> string \<Rightarrow> 'v \<Rightarrow> bytes \<Rightarrow> service_id \<Rightarrow> bool" where
  "sends_to E r svc v bs sid \<longleftrightarrow>
     thrift_write E v = Some bs \<and> bs \<noteq> [] \<and> malloc_ok E (sizeof_req_header + length bs)
     \<and> (\<forall>mem reg. fst (resolve E r svc mem reg) = Some sid)
     \<and> (\<forall>m mem. channel_ok E sid m mem)
     \<and> msg_channel (env_config E) \<noteq> None \<and> timer_adapter (env_config E) \<noteq> None"

text \<open>
  Timeout cell \<open>a\<close>, bound to the rpc cell \<open>b\<close> through action \<open>u\<close>, waits for the response with the id
  \<open>seq_counter rt\<close>, the last one given out.
\<close>

definition waiting ::
  "addr \<Rightarrow> addr \<Rightarrow> addr \<Rightarrow> ctx_id \<Rightarrow> nat \<Rightarrow> string \<Rightarrow> 16 word \<Rightarrow> 8 word \<Rightarrow> string \<Rightarrow> 'v \<Rightarrow> int \<Rightarrow> nat
   \<Rightarrow> ('v, 'r) rt \<Rightarrow> bool" where
  "waiting a b u k r svc i m ty v ms n rt \<longleftrightarrow>
     (\<exists>c ti. heap rt a = Some (CellObj c) \<and> kind c = TimeoutCell ti \<and> cstate c = empty_state
        \<and> updatables c = [] \<and> ti_ctxt ti = k \<and> timeout_ms ti = ms \<and> retry_times ti = n
        \<and> rpc_args ti = [] \<and> rpc_fun ti [] = CallRpc svc i m ty v \<and> timeout_cell ti = None)
     \<and> (\<exists>c. heap rt b = Some (CellObj c) \<and> kind c = PlainCell \<and> cstate c = empty_state
        \<and> updatables c = [u] \<and> has_seq_id c \<and> seq_id c = seq_counter rt)
     \<and> (\<exists>x. heap rt u = Some (ActionObj x) \<and> \<not> is_final_action x \<and> act_logic x = BindTimeout a
        \<and> act_args x = [b])
     \<and> (\<exists>x. ctxs rt k = Some x \<and> ctx_resolver x = Some r)
     \<and> id_func_map rt = [seq_counter rt \<mapsto> b]
     \<and> a < next_addr rt \<and> b < next_addr rt \<and> u < next_addr rt \<and> a \<noteq> b"

definition request_bytes :: "16 word \<Rightarrow> 8 word \<Rightarrow> rpc_sequence_id \<Rightarrow> bytes \<Rightarrow> bytes" where
  "request_bytes i m s bs = msg_header_bytes (new_req_header i m s) @ bs"

text \<open>The timeout of the id given out last.\<close>

definition fire_timeout :: "('v, 'r) env \<Rightarrow> ('v, 'r) rt \<Rightarrow> ('v, 'r) res" where
  "fire_timeout E rt = on_rsp_handler_timeout E (update E) (seq_counter rt) rt"

lemmas op_defs = with_cell_def with_timeout_cell_def put_cell_def alloc_def track_def emit_def
  update_timeout_info_def

lemma encode_ok:
  "sends_to E r svc v bs sid \<Longrightarrow> \<exists>f. do_encode E v rt = Inr (Some bs, rt\<lparr>should_reset_to_default_size := f\<rparr>)"
  unfolding do_encode_def sends_to_def Let_def
  by (rule exI [of _ "thrift_default_size E < length bs \<or> should_reset_to_default_size rt"]) simp

text \<open>A request with a fresh id leaves one new cell, registered under the id.\<close>

lemma encode_request_and_send_ok:
  assumes ok: "sends_to E r svc v bs sid" and ctx: "ctxs rt k = Some x" "ctx_resolver x = Some r"
    and fresh: "id_func_map rt (fst (get (seq_counter rt))) = None"
  defines "s \<equiv> fst (get (seq_counter rt))" and "b \<equiv> next_addr rt"
  shows "\<exists>rt'. encode_request_and_send E k svc i m ty v rt = Inr (b, rt')
    \<and> heap rt' = (heap rt)(b \<mapsto> CellObj (carrying (new_cell ty PlainCell) s))
    \<and> next_addr rt' = Suc b \<and> seq_counter rt' = s \<and> id_func_map rt' = (id_func_map rt)(s \<mapsto> b)
    \<and> ctxs rt' = (ctxs rt)(k \<mapsto> x\<lparr>release_list := release_list x @ [b]\<rparr>)
    \<and> trace rt' = trace rt @ [Sent sid (request_msg_id (env_config E)) (request_bytes i m s bs) True]"
proof -
  obtain f where enc: "do_encode E v rt = Inr (Some bs, rt\<lparr>should_reset_to_default_size := f\<rparr>)"
    using encode_ok [OF ok] by blast
  define reg' where "reg' mem reg = snd (resolve E r svc mem reg)" for mem reg
  have "fst (resolve E r svc mem reg) = Some sid" for mem reg using ok by (simp add: sends_to_def)
  then have res: "resolve E r svc mem reg = (Some sid, reg' mem reg)" for mem reg
    by (simp add: reg'_def prod_eq_iff)
  obtain ch where ch: "msg_channel (env_config E) = Some ch" using ok by (auto simp: sends_to_def)
  have send: "malloc_ok E (sizeof_req_header + length bs)" "channel_ok E sid q mem" for q mem
    using ok by (auto simp: sends_to_def)
  have g: "get (seq_counter rt) = (s, s)" unfolding s_def by (rule get_pair)
  show ?thesis
    using ctx fresh
    by (simp add: encode_request_and_send_def enc alloc_def send_rpc_request_buf_def send g
        register_rsp_Handler_def set_sequential_id_def with_cell_def put_cell_def Let_def res send_msg_def ch
        track_def emit_def carrying_def request_bytes_def b_def s_def [symmetric])
qed

text \<open>
  One round of \<open>invoke_rpc_once\<close>: request, timer, and an action that binds the two cells.
\<close>

lemma invoke_rpc_once_ok:
  fixes rt :: "('v, 'r) rt"
  assumes ok: "sends_to E r svc v bs sid" and a: "heap rt a = Some (CellObj c)" "kind c = TimeoutCell ti" "a < next_addr rt"
    and ti: "ti_ctxt ti = k" "rpc_args ti = []" "rpc_fun ti [] = CallRpc svc i m ty v"
    and ctx: "ctxs rt k = Some x" "ctx_resolver x = Some r"
    and fresh: "id_func_map rt (fst (get (seq_counter rt))) = None"
  defines "s \<equiv> fst (get (seq_counter rt))" and "b \<equiv> next_addr rt"
  shows "\<exists>rt' x'. invoke_rpc_once E upd a ms rt = Inr rt'
    \<and> heap rt' = (heap rt)(a \<mapsto> CellObj (c\<lparr>kind := TimeoutCell (ti\<lparr>is_rpc_started := True\<rparr>)\<rparr>),
        b \<mapsto> CellObj ((carrying (new_cell ty PlainCell) s)\<lparr>updatables := [Suc b]\<rparr>),
        Suc b \<mapsto> ActionObj \<lparr>is_final_action = False, act_cell = None, act_logic = BindTimeout a, act_args = [b]\<rparr>)
    \<and> next_addr rt' = Suc (Suc b) \<and> seq_counter rt' = s \<and> id_func_map rt' = (id_func_map rt)(s \<mapsto> b)
    \<and> ctxs rt' k = Some x' \<and> ctx_resolver x' = Some r
    \<and> trace rt' = trace rt @ [Sent sid (request_msg_id (env_config E)) (request_bytes i m s bs) True,
        TimerSet ms (set_timer_msg_id (env_config E)) s]"
proof -
  obtain tm where tm: "timer_adapter (env_config E) = Some tm" using ok by (auto simp: sends_to_def)
  define nc :: "'v cell" where "nc = carrying (new_cell ty PlainCell) s"
  obtain rt1 where send: "encode_request_and_send E k svc i m ty v rt = Inr (b, rt1)"
    and rt1: "heap rt1 = (heap rt)(b \<mapsto> CellObj nc)"
      "next_addr rt1 = Suc b" "seq_counter rt1 = s" "id_func_map rt1 = (id_func_map rt)(s \<mapsto> b)"
      "ctxs rt1 = (ctxs rt)(k \<mapsto> x\<lparr>release_list := release_list x @ [b]\<rparr>)"
      "trace rt1 = trace rt @ [Sent sid (request_msg_id (env_config E)) (request_bytes i m s bs) True]"
    using encode_request_and_send_ok [OF ok ctx fresh, of i m ty] unfolding s_def b_def nc_def by blast
  have ab: "a < b" using a(3) by (simp add: b_def)
  have nc: "has_seq_id nc" "\<not> has_error (cstate nc)" "\<not> has_value_or_error (cstate nc)" "updatables nc = []"
    "seq_id nc = s"
    by (simp_all add: nc_def carrying_def new_cell_def has_error_def empty_state_def has_value_or_error_def has_value_def)
  show ?thesis
    using a(1,2) ti ctx ab nc
    unfolding nc_def [symmetric]
    by (simp add: invoke_rpc_once_def with_timeout_cell_def with_cell_def start_rpc_def send rt1 update_timeout_info_def
        put_cell_def set_timer_def tm bind_timeout_cell_def derive_action_def new_derived_action_def alloc_def
        register_as_listener_def register_listener_def track_def emit_def)
      (rule fun_upd_twist, simp)
qed

lemma get_differs: "fst (get s) \<noteq> s"
proof
  assume "fst (get s) = s"
  then have "unat s mod seq_period + 1 = unat s" using unat_get [of s] by simp
  moreover have "unat s < 2 ^ 32" using unsigned_less [of s] by simp
  then have "unat s < seq_period \<or> unat s = seq_period" by (auto simp: seq_period_def)
  ultimately show False by (auto simp: seq_period_def)
qed

lemma retry_step:
  assumes ok: "sends_to E r svc v bs sid" and wait: "waiting a b u k r svc i m ty v ms (Suc n) rt"
  shows "\<exists>rt' b' u'. fire_timeout E rt = Inr rt' \<and> waiting a b' u' k r svc i m ty v ms n rt'
    \<and> seq_counter rt' = fst (get (seq_counter rt))
    \<and> trace rt' = trace rt @
        [Sent sid (request_msg_id (env_config E)) (request_bytes i m (fst (get (seq_counter rt))) bs) True,
         TimerSet ms (set_timer_msg_id (env_config E)) (fst (get (seq_counter rt)))]"
proof -
  from wait obtain c ti where a: "heap rt a = Some (CellObj c)" "kind c = TimeoutCell ti" "cstate c = empty_state"
      "updatables c = []" "ti_ctxt ti = k" "timeout_ms ti = ms" "retry_times ti = Suc n"
      "rpc_args ti = []" "rpc_fun ti [] = CallRpc svc i m ty v" "timeout_cell ti = None"
    by (auto simp: waiting_def)
  from wait obtain cb where b: "heap rt b = Some (CellObj cb)" "kind cb = PlainCell" "cstate cb = empty_state"
      "updatables cb = [u]" by (auto simp: waiting_def)
  from wait obtain x where u: "heap rt u = Some (ActionObj x)" "\<not> is_final_action x" "act_logic x = BindTimeout a"
      "act_args x = [b]" by (auto simp: waiting_def)
  from wait obtain y where ctx: "ctxs rt k = Some y" "ctx_resolver y = Some r" by (auto simp: waiting_def)
  let ?s = "seq_counter rt"
  from wait have map: "id_func_map rt = [?s \<mapsto> b]" and nxt: "a < next_addr rt" "b < next_addr rt" "a \<noteq> b"
    by (simp_all add: waiting_def)
  have ub: "u \<noteq> b" "u \<noteq> a" using a(1) b(1) u(1) by auto
  define cb' where "cb' = cb\<lparr>has_seq_id := False, cstate := \<lparr>cell_value = None, cell_status = TimedOut\<rparr>\<rparr>"
  define rt0 where "rt0 = rt\<lparr>id_func_map := Map.empty,
      heap := (heap rt)(b \<mapsto> CellObj cb', a \<mapsto> CellObj (c\<lparr>kind := TimeoutCell (ti\<lparr>retry_times := n\<rparr>)\<rparr>))\<rparr>"
  have fire: "fire_timeout E rt = invoke_rpc_once E (update_f (next_addr rt) E) a ms rt0"
    using a b u ub nxt
    by (simp add: fire_timeout_def on_rsp_handler_timeout_def map reset_sequential_id_def set_timeout_def
        set_failed_reason_def evaluate_all_derived_cells_def update_def update_body_def action_update_def
        run_action_def on_rpc_cell_changed_def is_timeout_def retry_rpc_if_need_def op_defs erase_handler_def
        empty_state_def rt0_def cb'_def)
  obtain rt' x' where run: "invoke_rpc_once E (update_f (next_addr rt) E) a ms rt0 = Inr rt'"
    and rt': "heap rt' = (heap rt0)(a \<mapsto> CellObj (c\<lparr>kind := TimeoutCell (ti\<lparr>retry_times := n, is_rpc_started := True\<rparr>)\<rparr>),
        next_addr rt \<mapsto> CellObj ((carrying (new_cell ty PlainCell) (fst (get ?s)))\<lparr>updatables := [Suc (next_addr rt)]\<rparr>),
        Suc (next_addr rt) \<mapsto> ActionObj \<lparr>is_final_action = False, act_cell = None, act_logic = BindTimeout a,
          act_args = [next_addr rt]\<rparr>)"
      "next_addr rt' = Suc (Suc (next_addr rt))" "seq_counter rt' = fst (get ?s)"
      "id_func_map rt' = [fst (get ?s) \<mapsto> next_addr rt]"
      "ctxs rt' k = Some x'" "ctx_resolver x' = Some r"
      "trace rt' = trace rt @ [Sent sid (request_msg_id (env_config E)) (request_bytes i m (fst (get ?s)) bs) True,
        TimerSet ms (set_timer_msg_id (env_config E)) (fst (get ?s))]"
    using invoke_rpc_once_ok [OF ok, of rt0 a "c\<lparr>kind := TimeoutCell (ti\<lparr>retry_times := n\<rparr>)\<rparr>" "ti\<lparr>retry_times := n\<rparr>"
        k i m ty y "update_f (next_addr rt) E" ms] a nxt ctx
    by (auto simp: rt0_def)
  have "waiting a (next_addr rt) (Suc (next_addr rt)) k r svc i m ty v ms n rt'"
    using a nxt rt' by (simp add: waiting_def carrying_def new_cell_def)
  with fire run rt'(3,7) show ?thesis by auto
qed

text \<open>The last timeout: the cell fails, nothing is sent.\<close>

definition timed_out :: "('v, 'r) rt \<Rightarrow> addr \<Rightarrow> bool" where
  "timed_out rt a =
     (case heap rt a of
        Some (CellObj c) \<Rightarrow> is_timeout (cstate c) \<and> \<not> has_value (cstate c)
      | _ \<Rightarrow> False)"

lemma retry_last:
  assumes wait: "waiting a b u k r svc i m ty v ms 0 rt"
  shows "\<exists>rt'. fire_timeout E rt = Inr rt' \<and> timed_out rt' a \<and> trace rt' = trace rt \<and> id_func_map rt' = Map.empty"
proof -
  from wait obtain c ti where a: "heap rt a = Some (CellObj c)" "kind c = TimeoutCell ti" "cstate c = empty_state"
      "updatables c = []" "retry_times ti = 0" "timeout_cell ti = None"
    by (auto simp: waiting_def)
  from wait obtain cb where b: "heap rt b = Some (CellObj cb)" "kind cb = PlainCell" "cstate cb = empty_state"
      "updatables cb = [u]" by (auto simp: waiting_def)
  from wait obtain x where u: "heap rt u = Some (ActionObj x)" "\<not> is_final_action x" "act_logic x = BindTimeout a"
      "act_args x = [b]" by (auto simp: waiting_def)
  let ?s = "seq_counter rt"
  from wait have map: "id_func_map rt = [?s \<mapsto> b]" and ab: "a \<noteq> b" by (simp_all add: waiting_def)
  have ub: "u \<noteq> b" "u \<noteq> a" using a(1) b(1) u(1) by auto
  show ?thesis
    using a b u ub ab
    by (simp add: fire_timeout_def on_rsp_handler_timeout_def map reset_sequential_id_def set_timeout_def
        set_failed_reason_def evaluate_all_derived_cells_def update_def update_body_def action_update_def
        run_action_def on_rpc_cell_changed_def is_timeout_def retry_rpc_if_need_def op_defs erase_handler_def
        empty_state_def timed_out_def has_value_def failed_reason_def)
qed

section \<open>All retries\<close>

fun is_request :: "'v event \<Rightarrow> bool" where
  "is_request (Sent sid m bs ok) = True"
| "is_request _ = False"

definition requests :: "('v, 'r) rt \<Rightarrow> nat" where
  "requests rt = length (filter is_request (trace rt))"

lemma requests_append: "trace rt' = trace rt @ es \<Longrightarrow> requests rt' = requests rt + length (filter is_request es)"
  by (simp add: requests_def)

text \<open>
  C9: an rpc cell with \<open>n\<close> retries whose requests all time out sends exactly \<open>n\<close> further
  requests, then is failed with \<^verbatim>\<open>timeout\<close> after \<open>n + 1\<close> timeouts, and waits for nothing any more.
\<close>

theorem retries_then_timeout:
  assumes "sends_to E r svc v bs sid" and "waiting a b u k r svc i m ty v ms n rt"
  shows "\<exists>rt'. foldR (\<lambda>_. fire_timeout E) (replicate (Suc n) ()) rt = Inr rt'
    \<and> timed_out rt' a \<and> requests rt' = requests rt + n \<and> id_func_map rt' = Map.empty"
  using assms(2)
proof (induction n arbitrary: b u rt)
  case 0
  from retry_last [OF this, of E] show ?case by (auto simp: requests_def)
next
  case (Suc n)
  from retry_step [OF assms(1) Suc.prems] obtain rt1 b1 u1 where
    step: "fire_timeout E rt = Inr rt1" and wait: "waiting a b1 u1 k r svc i m ty v ms n rt1"
    and sent: "requests rt1 = requests rt + 1"
    by (auto dest!: requests_append)
  from Suc.IH [OF wait] step sent show ?case by auto
qed

text \<open>A request with two retries to a service that never answers.\<close>

definition retry_calls :: "bytes call list" where
  "retry_calls = [NewContext (Some 0), DeriveRpcCell 0 ''rsp'' 10 2 (\<lambda>ss. CallRpc ''service_y'' 2 1 ''rsp'' [5]) []]"

definition retry_state :: "(bytes, unit) rt" where
  "retry_state = the (legal_run sample_env Map.empty (\<lambda>n. Inr) True retry_calls (initial_rt ()))"

lemma retry_state_waiting: "waiting 0 1 2 0 0 ''service_y'' 2 1 ''rsp'' [5] 10 2 retry_state"
  by (simp add: waiting_def retry_state_def retry_calls_def initial_rt_def new_ctx_def live_ctx_def live_cells_def
      drop_result_def derive_rpc_cell_def alloc_def new_cell_def invoke_rpc_once_def with_timeout_cell_def
      with_cell_def start_rpc_def encode_request_and_send_def do_encode_def Let_def sample_env_def sample_config_def
      send_rpc_request_buf_def get_def register_rsp_Handler_def set_sequential_id_def put_cell_def send_msg_def
      track_def emit_def update_timeout_info_def has_error_def empty_state_def set_timer_def bind_timeout_cell_def
      derive_action_def new_derived_action_def register_as_listener_def register_listener_def
      has_value_or_error_def has_value_def k_invalid_rpc_sequence_id_def)

theorem retries_then_timeout_witness:
  "\<exists>rt'. foldR (\<lambda>_. fire_timeout sample_env) (replicate 3 ()) retry_state = Inr rt'
    \<and> timed_out rt' 0 \<and> requests rt' = 3 \<and> id_func_map rt' = Map.empty"
proof -
  have sends: "sends_to sample_env 0 ''service_y'' [5] [5] (Endpoint 1 7777)"
    by (simp add: sends_to_def sample_env_def sample_config_def)
  have "requests retry_state = 1" by code_simp
  with retries_then_timeout [OF sends retry_state_waiting] show ?thesis by (simp add: eval_nat_numeral)
qed

end
