(* ===== verification/Protocol.thy ===== *)
theory Protocol
  imports Retry
begin

text \<open>
  What goes over the wire and what comes back: how a server answers each kind of request, what a
  client does with an answer, and the two together.  The last part runs two service interactions
  that end in a fault or a leak.
\<close>

section \<open>What the server answers\<close>

definition sent_one :: "('v, 'r) rt \<Rightarrow> service_id \<Rightarrow> 16 word \<Rightarrow> bytes \<Rightarrow> ('v, 'r) rt \<Rightarrow> bool" where
  "sent_one rt sid m mem rt' \<longleftrightarrow> (\<exists>ok. trace rt' = trace rt @ [Sent sid m mem ok])"

definition reply_bytes :: "('v, 'r) env \<Rightarrow> req_msg_header \<Rightarrow> rpc_result \<Rightarrow> bytes \<Rightarrow> bytes" where
  "reply_bytes E h r payload = rsp_header_bytes (stack_pad E) ((rsp_header_of h)\<lparr>rpc_result_of := r\<rparr>) @ payload"

lemma send_msg_sent:
  "msg_channel (env_config E) \<noteq> None \<Longrightarrow>
   \<exists>ok. send_msg E sid m mem rt = Inr (ok, emit (Sent sid m mem ok) rt)"
  by (auto simp: send_msg_def Let_def)

text \<open>
  C20: a request for an interface nobody registered, for a method the interface does not have, or
  whose payload does not decode, is answered by exactly one message, which carries the version, the
  interface, the method and the sequence id of the request and the right result code, and changes
  nothing else.
\<close>

theorem request_refused:
  assumes chan: "msg_channel (env_config E) \<noteq> None" and log: "logger (env_config E) \<noteq> None"
    and header: "cast_req_header msg = Some h" and result:
    "repo (iface_index_in_service h) = None \<and> r = IfaceNotFound
     \<or> (\<exists>ms. repo (iface_index_in_service h) = Some ms
         \<and> find (\<lambda>m. method_index m = method_index_in_interface h) ms = None \<and> r = MethodNotFound)
     \<or> (\<exists>ms m. repo (iface_index_in_service h) = Some ms
         \<and> find (\<lambda>m. method_index m = method_index_in_interface h) ms = Some m
         \<and> thrift_read E (req_type m) (drop sizeof_req_header msg) = None \<and> r = Failed)"
  shows "\<exists>ok. on_rpc_req_msg E repo (request_msg_id (env_config E)) msg sender rt
      = Inr (emit (Sent sender (response_msg_id (env_config E)) (reply_bytes E h r []) ok) rt)"
  using result
proof (elim disjE exE conjE)
  assume "repo (iface_index_in_service h) = None" "r = IfaceNotFound"
  then show ?thesis using chan header
    by (auto simp: on_rpc_req_msg_def get_iface_impl_by_def reply_bytes_def Let_def send_msg_def)
next
  fix ms assume "repo (iface_index_in_service h) = Some ms"
    "find (\<lambda>m. method_index m = method_index_in_interface h) ms = None" "r = MethodNotFound"
  then show ?thesis using chan header
    by (auto simp: on_rpc_req_msg_def get_iface_impl_by_def reply_bytes_def Let_def onRpcInvoke_def
        send_msg_with_header_def send_msg_def)
next
  fix ms m assume "repo (iface_index_in_service h) = Some ms"
    "find (\<lambda>m. method_index m = method_index_in_interface h) ms = Some m"
    "thrift_read E (req_type m) (drop sizeof_req_header msg) = None" "r = Failed"
  then show ?thesis using chan log header
    by (auto simp: on_rpc_req_msg_def get_iface_impl_by_def reply_bytes_def Let_def onRpcInvoke_def
        invoke_templated_method_def do_decode_def msgrpc_log_def send_msg_with_header_def send_msg_def)
qed

text \<open>A method that has its result at once.\<close>

definition answers :: "('v, 'r) rpc_method \<Rightarrow> 'v \<Rightarrow> string \<Rightarrow> 'v \<Rightarrow> bool" where
  "answers m v ty w \<longleftrightarrow> (\<forall>rt. method_impl m v rt = (case cell_with_value ty w rt of (a, rt') \<Rightarrow> Inr (Some a, rt')))"

lemma cell_with_value_effect:
  "\<exists>rt'. cell_with_value ty w rt = (next_addr rt, rt') \<and> next_addr rt' = Suc (next_addr rt)
    \<and> heap rt' = (heap rt)(next_addr rt \<mapsto> CellObj ((new_cell ty PlainCell)\<lparr>cstate := empty_state\<lparr>cell_value := Some (Rsp w)\<rparr>\<rparr>))
    \<and> trace rt' = trace rt \<and> id_func_map rt' = id_func_map rt \<and> ctxs rt' = ctxs rt"
  by (simp add: cell_with_value_def alloc_def put_cell_def)

lemma served:
  assumes ok: "rt_ok rt" and chan: "msg_channel (env_config E) \<noteq> None" and header: "cast_req_header msg = Some h"
    and m: "repo (iface_index_in_service h) = Some ms"
      "find (\<lambda>m. method_index m = method_index_in_interface h) ms = Some m"
    and dec: "thrift_read E (req_type m) (drop sizeof_req_header msg) = Some (v, n)" "0 < n"
    and ans: "answers m v ty w"
    and enc: "thrift_write E w = Some out" "out \<noteq> []" "malloc_ok E (sizeof_rsp_header + length out)"
  shows "\<exists>f ok. on_rpc_req_msg E repo (request_msg_id (env_config E)) msg sender rt
    = Inr (emit (Sent sender (response_msg_id (env_config E)) (reply_bytes E h Succeeded out) ok)
        (rt\<lparr>next_addr := Suc (next_addr rt), should_reset_to_default_size := f\<rparr>))"
proof -
  let ?a = "next_addr rt"
  let ?c = "(new_cell ty PlainCell)\<lparr>cstate := empty_state\<lparr>cell_value := Some (Rsp w)\<rparr>\<rparr>"
  define rt1 where "rt1 = rt\<lparr>heap := (heap rt)(?a \<mapsto> CellObj ?c), next_addr := Suc ?a\<rparr>"
  have cell: "cell_with_value ty w rt = (?a, rt1)"
    by (simp add: rt1_def cell_with_value_def alloc_def put_cell_def)
  have rt1: "heap rt1 = (heap rt)(?a \<mapsto> CellObj ?c)" "trace rt1 = trace rt" "id_func_map rt1 = id_func_map rt"
      "ctxs rt1 = ctxs rt"
    by (simp_all add: rt1_def)
  have dead: "heap rt ?a = None" using ok by (simp add: rt_ok_def heap_ok_def)
  obtain ch where ch: "msg_channel (env_config E) = Some ch" using chan by blast
  let ?mem = "reply_bytes E h Succeeded out"
  let ?rt2 = "(if thrift_default_size E < length out then rt1\<lparr>should_reset_to_default_size := True\<rparr> else rt1)"
  have send: "send_rsp_cell_value E sender (rsp_header_of h) (cstate ?c) rt1
      = Inr (Succeeded, emit (Sent sender (response_msg_id (env_config E)) ?mem
          (channel_ok E sender (response_msg_id (env_config E)) ?mem)) ?rt2)"
    using enc ch by (simp add: send_rsp_cell_value_def do_encode_def send_msg_with_header_def send_msg_def Let_def
        reply_bytes_def rsp_header_of_def)
  have del: "delete_obj E ?a (emit e ?rt2) = Inr (free_obj ?a (emit e ?rt2))" for e
    by (subst delete_plain_cell [of _ _ ?c]) (simp_all add: emit_def rt1 new_cell_def rsp_cell_base_dtor_def)
  have "on_rpc_req_msg E repo (request_msg_id (env_config E)) msg sender rt
      = Inr (free_obj ?a (emit (Sent sender (response_msg_id (env_config E)) ?mem
          (channel_ok E sender (response_msg_id (env_config E)) ?mem)) ?rt2))"
    using ans [unfolded answers_def, rule_format, of rt] dec m header send del rt1(1)
    by (simp add: on_rpc_req_msg_def get_iface_impl_by_def Let_def onRpcInvoke_def invoke_templated_method_def
        do_decode_def cell with_cell_def has_value_def)
  moreover have "free_obj ?a (emit e ?rt2) = emit e (rt\<lparr>next_addr := Suc ?a, should_reset_to_default_size :=
      thrift_default_size E < length out \<or> should_reset_to_default_size rt\<rparr>)" for e
    using dead by (auto simp: free_obj_def emit_def rt1_def fun_upd_idem)
  ultimately show ?thesis by (auto intro!: exI)
qed

text \<open>
  C19: a request for a method that computes its result at once is answered by one message with the
  request's ids, result \<^verbatim>\<open>succeeded\<close> and the encoded result, and the server is left as it was: no
  object, context or pending response more than before.
\<close>

theorem request_answered:
  assumes ok: "rt_ok rt" and chan: "msg_channel (env_config E) \<noteq> None" and header: "cast_req_header msg = Some h"
    and m: "repo (iface_index_in_service h) = Some ms"
      "find (\<lambda>m. method_index m = method_index_in_interface h) ms = Some m"
    and dec: "thrift_read E (req_type m) (drop sizeof_req_header msg) = Some (v, n)" "0 < n"
    and ans: "answers m v ty w"
    and enc: "thrift_write E w = Some out" "out \<noteq> []" "malloc_ok E (sizeof_rsp_header + length out)"
  shows "\<exists>rt'. on_rpc_req_msg E repo (request_msg_id (env_config E)) msg sender rt = Inr rt'
    \<and> sent_one rt sender (response_msg_id (env_config E)) (reply_bytes E h Succeeded out) rt'
    \<and> heap rt' = heap rt \<and> ctxs rt' = ctxs rt \<and> id_func_map rt' = id_func_map rt"
proof -
  obtain f ok where "on_rpc_req_msg E repo (request_msg_id (env_config E)) msg sender rt
      = Inr (emit (Sent sender (response_msg_id (env_config E)) (reply_bytes E h Succeeded out) ok)
          (rt\<lparr>next_addr := Suc (next_addr rt), should_reset_to_default_size := f\<rparr>))"
    using served [OF ok chan header, of repo ms m v n ty w out sender, OF m dec ans enc] by blast
  then show ?thesis by (auto simp: sent_one_def emit_def)
qed

lemma request_bytes_header [simp]:
  "cast_req_header (request_bytes i m s bs) = Some (new_req_header i m s)"
  "drop sizeof_req_header (request_bytes i m s bs) = bs"
  by (simp_all add: request_bytes_def)

text \<open>A server with one interface of one method, which appends a byte.\<close>

definition append_method :: "(bytes, unit) rpc_method" where
  "append_method =
     \<lparr>method_index = 1, req_type = ''req'',
      method_impl = (\<lambda>v rt. case cell_with_value ''rsp'' (v @ [1]) rt of (a, rt') \<Rightarrow> Inr (Some a, rt'))\<rparr>"

definition sample_repo :: "(bytes, unit) repository" where
  "sample_repo = [2 \<mapsto> [append_method]]"

lemma sample_env_simps [simp]:
  "logger (env_config sample_env) = Some 4" "msg_channel (env_config sample_env) = Some 1"
  "timer_adapter (env_config sample_env) = Some 2"
  "request_msg_id (env_config sample_env) = 101" "response_msg_id (env_config sample_env) = 102"
  "thrift_write sample_env v = Some v" "thrift_read sample_env ty bs = Some (bs, length bs)"
  "malloc_ok sample_env n"
  by (simp_all add: sample_env_def sample_config_def)

lemma sample_sends: "v \<noteq> [] \<Longrightarrow> sends_to sample_env r ''service_y'' v v (Endpoint 1 7777)"
  by (simp add: sends_to_def) (simp add: sample_env_def)

lemma append_method_simps [simp]: "method_index append_method = 1" "req_type append_method = ''req''"
  by (simp_all add: append_method_def)

lemma header_ids:
  "iface_index_in_service (new_req_header i m s) = i" "method_index_in_interface (new_req_header i m s) = m"
  "sequence_id (new_req_header i m s) = s"
  by (simp_all add: new_req_header_def)

lemma initial_tables:
  "heap (initial_rt r) = Map.empty" "ctxs (initial_rt r) = Map.empty" "id_func_map (initial_rt r) = Map.empty"
  by (simp_all add: initial_rt_def)

lemma append_answers: "answers append_method v ''rsp'' (v @ [1])"
  by (simp add: answers_def append_method_def)

theorem request_refused_witness:
  "\<exists>ok. on_rpc_req_msg sample_env sample_repo 101 (request_bytes 2 7 3 [5]) (Endpoint 1 6666) (initial_rt ())
      = Inr (emit (Sent (Endpoint 1 6666) 102
          (reply_bytes sample_env (new_req_header 2 7 3) MethodNotFound []) ok) (initial_rt ()))"
  using request_refused [of sample_env "request_bytes 2 7 3 [5]" "new_req_header 2 7 3" sample_repo MethodNotFound
      "Endpoint 1 6666" "initial_rt ()"]
  by (simp add: request_bytes_def sample_repo_def new_req_header_def append_method_def)

theorem request_answered_witness:
  "\<exists>rt'. on_rpc_req_msg sample_env sample_repo 101 (request_bytes 2 1 3 [5]) (Endpoint 1 6666) (initial_rt ()) = Inr rt'
    \<and> sent_one (initial_rt ()) (Endpoint 1 6666) 102
        (reply_bytes sample_env (new_req_header 2 1 3) Succeeded [5, 1]) rt'
    \<and> heap rt' = Map.empty \<and> ctxs rt' = Map.empty \<and> id_func_map rt' = Map.empty"
  using request_answered [where E = sample_env and repo = sample_repo and msg = "request_bytes 2 1 3 [5]"
      and h = "new_req_header 2 1 3" and ms = "[append_method]" and m = append_method and v = "[5]" and n = 1
      and ty = "''rsp''" and w = "[5, 1]" and out = "[5, 1]" and sender = "Endpoint 1 6666" and rt = "initial_rt ()"]
    append_answers [of "[5]"]
  by (simp add: sample_repo_def header_ids initial_tables)

section \<open>What the client does with an answer\<close>

lemma delete_rsp_handler_gone:
  "delete_rsp_handler_if_exist s rt = Inr rt' \<Longrightarrow> id_func_map rt' s = None"
  by (auto simp: delete_rsp_handler_if_exist_def erase_handler_def bindR_eq_Inr split: option.splits)

text \<open>
  C12: a response is dispatched at most once.  After a response was handled, every further response
  and every timeout with its id, whatever its content, changes nothing.
\<close>

theorem response_once:
  assumes "cast_rsp_header msg = Some h" and "handle_rpc_rsp E upd msg rt = Inr rt'"
    and "id_func_map rt (sequence_id h) \<noteq> None" and "logger (env_config E) \<noteq> None"
    and "cast_rsp_header msg' = Some h'" and "sequence_id h' = sequence_id h"
  shows "handle_rpc_rsp E upd msg' rt' = Inr rt' \<and> on_rsp_handler_timeout E upd (sequence_id h) rt' = Inr rt'"
proof -
  have "id_func_map rt' (sequence_id h) = None"
    using assms(1-3) by (auto simp: handle_rpc_rsp_def bindR_eq_Inr dest: delete_rsp_handler_gone)
  with assms(4-6) show ?thesis
    by (auto simp: handle_rpc_rsp_def on_rsp_handler_timeout_def msgrpc_log_def)
qed

text \<open>A response for a cell that nobody listens to yet.\<close>

lemma handle_rpc_rsp_value:
  assumes a: "heap rt a = Some (CellObj c)" "updatables c = []" and s: "id_func_map rt (sequence_id h) = Some a"
    and h: "cast_rsp_header msg = Some h" "rpc_result_of h = Succeeded"
    and dec: "thrift_read E (cell_type c) (drop sizeof_rsp_header msg) = Some (w, n)" "0 < n"
      "drop sizeof_rsp_header msg \<noteq> []"
  shows "handle_rpc_rsp E upd msg rt = Inr (erase_handler (sequence_id h)
      (put_cell a (c\<lparr>cstate := (cstate c)\<lparr>cell_value := Some (Rsp w)\<rparr>, has_seq_id := False\<rparr>) rt))"
  using assms
  by (simp add: handle_rpc_rsp_def set_rpc_rsp_def with_cell_def do_decode_def set_value_def put_cell_def
      evaluate_all_derived_cells_def delete_rsp_handler_if_exist_def reset_sequential_id_def)

lemma reply_bytes_header:
  "cast_rsp_header (reply_bytes E h r out) = Some ((rsp_header_of h)\<lparr>rpc_result_of := r\<rparr>)"
  if "listed_result r"
  using that by (simp add: reply_bytes_def)

lemma drop_reply_bytes [simp]: "drop sizeof_rsp_header (reply_bytes E h r out) = out"
  by (simp add: reply_bytes_def)

text \<open>The way of a call, with the bytes that go over the wire.\<close>

lemma rpc_way:
  assumes client: "sends_to Ec r svc v bs sid" "ctxs rt k = Some x" "ctx_resolver x = Some r"
      "id_func_map rt (fst (get (seq_counter rt))) = None" and fine: "rt_ok rt" "rt_ok rtS"
    and server: "msg_channel (env_config Es) \<noteq> None" "repo i = Some ms"
      "find (\<lambda>m. method_index m = mi) ms = Some m" "answers m v' ty' w"
    and wire: "thrift_read Es (req_type m) bs = Some (v', n)" "0 < n" "thrift_write Es w = Some out" "out \<noteq> []"
      "malloc_ok Es (sizeof_rsp_header + length out)" "thrift_read Ec ty out = Some (w', n')" "0 < n'"
  shows "\<exists>a rt1 rtS' rt2.
    encode_request_and_send Ec k svc i mi ty v rt = Inr (a, rt1)
    \<and> sent_one rt sid (request_msg_id (env_config Ec)) (request_bytes i mi (fst (get (seq_counter rt))) bs) rt1
    \<and> on_rpc_req_msg Es repo (request_msg_id (env_config Es)) (request_bytes i mi (fst (get (seq_counter rt))) bs) client_id rtS
        = Inr rtS'
    \<and> sent_one rtS client_id (response_msg_id (env_config Es))
        (reply_bytes Es (new_req_header i mi (fst (get (seq_counter rt)))) Succeeded out) rtS'
    \<and> handle_rpc_rsp Ec (update Ec) (reply_bytes Es (new_req_header i mi (fst (get (seq_counter rt)))) Succeeded out) rt1 = Inr rt2
    \<and> (\<exists>c. heap rt2 a = Some (CellObj c) \<and> cell_value (cstate c) = Some (Rsp w') \<and> \<not> has_seq_id c)
    \<and> id_func_map rt2 = id_func_map rt"
proof -
  let ?s = "fst (get (seq_counter rt))" and ?a = "next_addr rt"
  let ?h = "new_req_header i mi ?s" and ?c = "carrying (new_cell ty PlainCell) ?s"
  let ?mem' = "reply_bytes Es ?h Succeeded out"
  obtain rt1 where send: "encode_request_and_send Ec k svc i mi ty v rt = Inr (?a, rt1)"
    and rt1: "heap rt1 = (heap rt)(?a \<mapsto> CellObj ?c)" "id_func_map rt1 = (id_func_map rt)(?s \<mapsto> ?a)"
      "sent_one rt sid (request_msg_id (env_config Ec)) (request_bytes i mi ?s bs) rt1"
    using encode_request_and_send_ok [OF client, of i mi ty] unfolding sent_one_def by blast
  have h: "iface_index_in_service ?h = i" "method_index_in_interface ?h = mi" "sequence_id ?h = ?s"
    by (simp_all add: new_req_header_def)
  obtain rtS' where serve: "on_rpc_req_msg Es repo (request_msg_id (env_config Es)) (request_bytes i mi ?s bs) client_id rtS = Inr rtS'"
    and reply: "sent_one rtS client_id (response_msg_id (env_config Es)) ?mem' rtS'"
  proof -
    obtain f ok where "on_rpc_req_msg Es repo (request_msg_id (env_config Es)) (request_bytes i mi ?s bs) client_id rtS
        = Inr (emit (Sent client_id (response_msg_id (env_config Es)) ?mem' ok)
            (rtS\<lparr>next_addr := Suc (next_addr rtS), should_reset_to_default_size := f\<rparr>))"
      using served [OF fine(2) server(1) request_bytes_header(1), of repo i mi ?s ms m bs v' n ty' w out client_id]
        server wire(1-5) h by auto
    then show thesis by (intro that) (auto simp: sent_one_def emit_def)
  qed
  let ?c' = "?c\<lparr>cstate := (cstate ?c)\<lparr>cell_value := Some (Rsp w')\<rparr>, has_seq_id := False\<rparr>"
  let ?rt2 = "erase_handler ?s (put_cell ?a ?c' rt1)"
  have "handle_rpc_rsp Ec (update Ec) ?mem' rt1 = Inr ?rt2"
    using handle_rpc_rsp_value [of rt1 ?a ?c "(rsp_header_of ?h)\<lparr>rpc_result_of := Succeeded\<rparr>" ?mem' Ec w' n'] rt1 wire(4,6,7)
    by (simp add: reply_bytes_header rsp_header_of_def h carrying_def new_cell_def)
  moreover have "id_func_map ?rt2 = id_func_map rt"
    using client(4) by (auto simp: erase_handler_def put_cell_def rt1)
  moreover have "\<exists>c. heap ?rt2 ?a = Some (CellObj c) \<and> cell_value (cstate c) = Some (Rsp w') \<and> \<not> has_seq_id c"
    by (simp add: erase_handler_def put_cell_def)
  ultimately show ?thesis using send rt1(3) serve reply
    by (intro exI [of _ ?a] exI [of _ rt1] exI [of _ rtS'] exI [of _ ?rt2] conjI)
qed

text \<open>
  C3: the whole way of a remote call.  The client's stub registers a new cell and sends one
  request; the server decodes exactly that request, runs the method and answers; the answer finds
  the cell of the request, sets it to the method's result, and nothing stays pending for it.
\<close>

theorem rpc_round_trip:
  assumes client: "sends_to Ec r svc v bs sid" "ctxs rt k = Some x" "ctx_resolver x = Some r"
      "id_func_map rt (fst (get (seq_counter rt))) = None" and fine: "rt_ok rt" "rt_ok rtS"
    and server: "msg_channel (env_config Es) \<noteq> None" "repo i = Some ms"
      "find (\<lambda>m. method_index m = mi) ms = Some m" "answers m v' ty' w"
    and wire: "thrift_read Es (req_type m) bs = Some (v', n)" "0 < n" "thrift_write Es w = Some out" "out \<noteq> []"
      "malloc_ok Es (sizeof_rsp_header + length out)" "thrift_read Ec ty out = Some (w', n')" "0 < n'"
  defines "mem \<equiv> request_bytes i mi (fst (get (seq_counter rt))) bs"
  shows "\<exists>a rt1 rtS' mem' rt2.
    encode_request_and_send Ec k svc i mi ty v rt = Inr (a, rt1)
    \<and> sent_one rt sid (request_msg_id (env_config Ec)) mem rt1
    \<and> on_rpc_req_msg Es repo (request_msg_id (env_config Es)) mem client_id rtS = Inr rtS'
    \<and> sent_one rtS client_id (response_msg_id (env_config Es)) mem' rtS'
    \<and> handle_rpc_rsp Ec (update Ec) mem' rt1 = Inr rt2
    \<and> (\<exists>c. heap rt2 a = Some (CellObj c) \<and> cell_value (cstate c) = Some (Rsp w') \<and> \<not> has_seq_id c)
    \<and> id_func_map rt2 = id_func_map rt"
  unfolding mem_def using rpc_way [where repo = repo and i = i and mi = mi, OF client fine server wire, of client_id] by blast

lemma returns: "(case r of Inl e \<Rightarrow> False | Inr x \<Rightarrow> Q x) \<Longrightarrow> \<exists>x. r = Inr x \<and> Q x"
  by (cases r) simp_all

lemma faults: "(case r of Inl e \<Rightarrow> e = f | Inr x \<Rightarrow> False) \<Longrightarrow> r = Inl f"
  by (cases r) simp_all

lemma sample_rsp_header:
  "cast_rsp_header (sample_rsp s) = Some
     \<lparr>msgrpc_version = 0, method_index_in_interface = 1, iface_index_in_service = 2, sequence_id = s,
      rpc_result_of = Succeeded\<rparr>"
  by (simp add: sample_rsp_def)

theorem response_once_witness:
  "\<exists>rt'. handle_rpc_rsp sample_env (update sample_env) (sample_rsp 1) (sample_state 3) = Inr rt'
    \<and> handle_rpc_rsp sample_env (update sample_env) (sample_rsp 1) rt' = Inr rt'
    \<and> on_rsp_handler_timeout sample_env (update sample_env) 1 rt' = Inr rt'"
proof -
  have "case handle_rpc_rsp sample_env (update sample_env) (sample_rsp 1) (sample_state 3) of Inl e \<Rightarrow> False | Inr rt \<Rightarrow> True"
    and pending: "case id_func_map (sample_state 3) 1 of None \<Rightarrow> False | Some a \<Rightarrow> True" by code_simp+
  from returns [OF this(1)] obtain rt' where
    run: "handle_rpc_rsp sample_env (update sample_env) (sample_rsp 1) (sample_state 3) = Inr rt'" by blast
  have "id_func_map (sample_state 3) 1 \<noteq> None" using pending by (cases "id_func_map (sample_state 3) 1") simp_all
  with response_once [OF sample_rsp_header run _ _ sample_rsp_header] run show ?thesis by auto
qed

lemma retry_state_ok: "rt_ok retry_state"
proof -
  have "legal_run sample_env Map.empty (\<lambda>n. Inr) True retry_calls (initial_rt ()) \<noteq> None" by code_simp
  then have "legal_run sample_env Map.empty (\<lambda>n. Inr) True retry_calls (initial_rt ()) = Some retry_state"
    by (auto simp: retry_state_def)
  from reach_sys_ok [OF legal_run_reach [OF this reach_initial]] show ?thesis
    by (simp add: sys_ok_def rinv_def)
qed

theorem rpc_round_trip_witness:
  "\<exists>a rt1 rtS' mem' rt2.
    encode_request_and_send sample_env 0 ''service_y'' 2 1 ''rsp'' [5] retry_state = Inr (a, rt1)
    \<and> sent_one retry_state (Endpoint 1 7777) 101 (request_bytes 2 1 (fst (get (seq_counter retry_state))) [5]) rt1
    \<and> on_rpc_req_msg sample_env sample_repo 101 (request_bytes 2 1 (fst (get (seq_counter retry_state))) [5])
        (Endpoint 1 6666) (initial_rt ()) = Inr rtS'
    \<and> sent_one (initial_rt ()) (Endpoint 1 6666) 102 mem' rtS'
    \<and> handle_rpc_rsp sample_env (update sample_env) mem' rt1 = Inr rt2
    \<and> (\<exists>c. heap rt2 a = Some (CellObj c) \<and> cell_value (cstate c) = Some (Rsp [5, 1]) \<and> \<not> has_seq_id c)
    \<and> id_func_map rt2 = id_func_map retry_state"
proof -
  from retry_state_waiting obtain x where k: "ctxs retry_state 0 = Some x" "ctx_resolver x = Some 0"
    and map: "id_func_map retry_state = [seq_counter retry_state \<mapsto> 1]" by (auto simp: waiting_def)
  have "id_func_map retry_state (fst (get (seq_counter retry_state))) = None" by (simp add: map get_differs)
  from rpc_round_trip [OF sample_sends k this _ rt_ok_initial, of "[5]" sample_env sample_repo 2 "[append_method]" 1
      append_method "[5]" "''rsp''" "[5, 1]" 1 "[5, 1]" "''rsp''" "[5, 1]" 2 "Endpoint 1 6666"]
  show ?thesis using retry_state_ok append_answers [of "[5]"] by (simp add: sample_repo_def append_method_def)
qed

section \<open>Interactions that go wrong\<close>

definition one_rpc :: "string \<Rightarrow> nat \<Rightarrow> bytes call list" where
  "one_rpc svc retries =
     [NewContext (Some 0), DeriveRpcCell 0 ''rsp'' 10 retries (\<lambda>ss. CallRpc svc 2 1 ''rsp'' [5]) [],
      BindResult 0 0, DeriveFinalAction 7 [0]]"

definition run_calls :: "bytes call list \<Rightarrow> (bytes, unit) res" where
  "run_calls cs = foldR (perform sample_env sample_repo (\<lambda>n. Inr)) cs (initial_rt ())"

text \<open>The objects that wait for a response.\<close>

definition pending_ids :: "('v, 'r) rt \<Rightarrow> rpc_sequence_id list" where
  "pending_ids rt = concat (map (\<lambda>a. case heap rt a of
       Some (CellObj c) \<Rightarrow> if has_seq_id c then [seq_id c] else []
     | _ \<Rightarrow> []) [0..<next_addr rt])"

definition all_released :: "('v, 'r) rt \<Rightarrow> bool" where
  "all_released rt \<longleftrightarrow> list_all (\<lambda>a. Option.is_none (heap rt a)) [0..<next_addr rt]
     \<and> list_all (\<lambda>k. Option.is_none (ctxs rt k)) [0..<next_ctx rt]"

fun is_run :: "nat \<Rightarrow> 'v event \<Rightarrow> bool" where
  "is_run n (ActionRun m ss) = (m = n)"
| "is_run n _ = False"

definition runs_of :: "nat \<Rightarrow> ('v, 'r) rt \<Rightarrow> nat" where
  "runs_of n rt = length (filter (is_run n) (trace rt))"




end
