(* ===== verification/Readers.thy ===== *)
theory Readers
  imports Prelude
begin

text \<open>
  Readers over a byte string, as the thrift codec composes them: a reader consumes a prefix, counts
  bytes in a \<^verbatim>\<open>uint32_t\<close> and may throw.  \<open>reads r out x\<close> says that \<open>r\<close> takes exactly the bytes \<open>out\<close>
  off the front, whatever follows, and yields \<open>x\<close>; the rules of \<open>reads_rules\<close> follow the structure
  of a reader.
\<close>

named_theorems reads_rules "rules that read back what was written, one reader at a time"

type_synonym 'a reader = "bytes \<Rightarrow> ('a \<times> 32 word \<times> bytes) option"

definition returnT :: "'a \<Rightarrow> 'a reader" where
  "returnT x = (\<lambda>bs. Some (x, 0, bs))"

definition throwT :: "'a reader" where
  "throwT = (\<lambda>bs. None)"

definition bindT :: "'a reader \<Rightarrow> ('a \<Rightarrow> 'b reader) \<Rightarrow> 'b reader" where
  "bindT r k =
     (\<lambda>bs. case r bs of
             None \<Rightarrow> None
           | Some (x, n, bs') \<Rightarrow>
               (case k x bs' of
                  None \<Rightarrow> None
                | Some (y, m, bs'') \<Rightarrow> Some (y, n + m, bs'')))"

definition mapT :: "('a \<Rightarrow> 'b) \<Rightarrow> 'a reader \<Rightarrow> 'b reader" where
  "mapT f r = bindT r (\<lambda>x. returnT (f x))"

text \<open>A loop that reads a given number of elements.\<close>

primrec read_times :: "nat \<Rightarrow> 'a reader \<Rightarrow> 'a list reader" where
  "read_times 0 r = returnT []"
| "read_times (Suc n) r = bindT r (\<lambda>x. bindT (read_times n r) (\<lambda>xs. returnT (x # xs)))"

section \<open>Reading back\<close>

definition reads :: "'a reader \<Rightarrow> bytes \<Rightarrow> 'a \<Rightarrow> bool" where
  "reads r out x \<longleftrightarrow> (\<forall>rest. r (out @ rest) = Some (x, of_nat (length out), rest))"

lemma readsD: "reads r out x \<Longrightarrow> r (out @ rest) = Some (x, of_nat (length out), rest)"
  by (simp add: reads_def)

lemma reads_return [reads_rules]: "reads (returnT x) [] x"
  by (simp add: reads_def returnT_def)

lemma reads_bind [reads_rules]:
  assumes "reads r out x" and "reads (k x) out' y"
  shows "reads (bindT r k) (out @ out') y"
  unfolding reads_def
proof
  fix rest
  show "bindT r k ((out @ out') @ rest) = Some (y, of_nat (length (out @ out')), rest)"
    using readsD [OF assms(1), of "out' @ rest"] readsD [OF assms(2), of rest] by (simp add: bindT_def)
qed

lemma reads_last: "reads r out x \<Longrightarrow> k x = returnT y \<Longrightarrow> reads (bindT r k) out y"
  using reads_bind [of r out x k "[]" y] by (simp add: reads_return)

lemma reads_map [reads_rules]: "reads r out x \<Longrightarrow> reads (mapT f r) out (f x)"
  using reads_bind [of r out x "\<lambda>x. returnT (f x)" "[]"] by (simp add: mapT_def reads_return)

lemma reads_mapI: "v = f x \<Longrightarrow> reads r out x \<Longrightarrow> reads (mapT f r) out v"
  by (simp add: reads_map)

lemma reads_times [reads_rules]:
  "list_all2 (reads r) outs xs \<Longrightarrow> reads (read_times (length xs) r) (concat outs) xs"
proof (induction xs arbitrary: outs)
  case (Cons x xs)
  then obtain out outs' where outs: "outs = out # outs'" "reads r out x" "list_all2 (reads r) outs' xs"
    by (auto simp: list_all2_Cons2)
  have "reads (bindT r (\<lambda>x. bindT (read_times (length xs) r) (\<lambda>xs. returnT (x # xs)))) (out @ concat outs' @ []) (x # xs)"
    by (rule reads_bind [OF outs(2)], rule reads_bind [OF Cons.IH [OF outs(3)]], rule reads_return)
  then show ?case by (simp add: outs)
qed (simp add: reads_return)

lemma reads_length:
  assumes "\<And>rest. r (length (out @ rest)) = r'" and "reads r' out x"
  shows "reads (\<lambda>bs. r (length bs) bs) out x"
  using assms by (simp add: reads_def)

lemma reads_result: "reads r out x \<Longrightarrow> \<exists>n. r out = Some (x, n, [])"
  using readsD [of r out x "[]"] by auto

end
