(* ===== verification/Thrift.thy ===== *)
theory Thrift
  imports Readers
begin

text \<open>
  The structs of an API and their thrift encoding: \<^verbatim>\<open>thrift_struct_declare.h\<close>,
  \<^verbatim>\<open>thrift_struct_define.h\<close> and \<^verbatim>\<open>thrift_types.h\<close>.  The macros generate one class for a list of
  fields; here the list is a value, and the members the macros generate are functions of it.  The
  thrift protocol is not part of the repository: \<open>thrift_lib\<close> holds its operations.  Not modelled:
  the recursion trackers of \<^verbatim>\<open>read\<close> and \<^verbatim>\<open>write\<close>, which throw when structs nest deeper than the
  library allows; how deep they nest is fixed by the declarations.
\<close>

section \<open>Types and fields\<close>

text \<open>\<^verbatim>\<open>TType\<close>; the values the code never uses are \<open>T_OTHER\<close>.\<close>

datatype ttype =
    T_STOP | T_BOOL | T_BYTE | T_I16 | T_I32 | T_I64 | T_DOUBLE | T_STRING | T_STRUCT
  | T_MAP | T_SET | T_LIST | T_OTHER byte

text \<open>
  \<open>Default\<close> is a field without a qualifier, which only the thrift compiler has: it is always
  written, its reading is recorded in \<^verbatim>\<open>__isset\<close>, and its absence is no error.
\<close>

datatype requiredness = Required | Optional | Default

text \<open>
  The flag of \<open>SET\<close> tells whether \<^verbatim>\<open>read\<close> clears the target first (compiler) or not (macros); that of
  \<open>BINARY\<close> whether \<^verbatim>\<open>writeBinary\<close> (compiler) or \<^verbatim>\<open>writeString\<close> (macros) writes it.
\<close>

datatype ftype =
    BOOL | I8 | I16 | I32 | I64 | DOUBLE | STRING | BINARY bool
  | LIST ftype | SET bool ftype | MAP ftype ftype | STRUCT string "field list"
  and field = Field (field_id: "16 word") (requirement: requiredness) (field_type: ftype) (field_name: string)

fun ttype_of :: "ftype \<Rightarrow> ttype" where
  "ttype_of BOOL = T_BOOL"
| "ttype_of I8 = T_BYTE"
| "ttype_of I16 = T_I16"
| "ttype_of I32 = T_I32"
| "ttype_of I64 = T_I64"
| "ttype_of DOUBLE = T_DOUBLE"
| "ttype_of STRING = T_STRING"
| "ttype_of (BINARY g) = T_STRING"
| "ttype_of (LIST t) = T_LIST"
| "ttype_of (SET g t) = T_SET"
| "ttype_of (MAP k v) = T_MAP"
| "ttype_of (STRUCT n fs) = T_STRUCT"

section \<open>Values\<close>

text \<open>
  A \<^verbatim>\<open>std::set\<close> and a \<^verbatim>\<open>std::map\<close> are lists in their order.  A struct has one slot per field: its
  \<^verbatim>\<open>__isset\<close> bit, which is \<open>True\<close> for a required field, where the class has none, and its value.
\<close>

datatype tval =
    VBool bool | VI8 "8 word" | VI16 "16 word" | VI32 "32 word" | VI64 "64 word" | VDouble "64 word"
  | VString bytes | VList "tval list" | VSet "tval list" | VMap "(tval \<times> tval) list"
  | VStruct "(bool \<times> tval) list"

fun as_bool where "as_bool (VBool b) = b" | "as_bool _ = False"
fun as_i8 where "as_i8 (VI8 w) = w" | "as_i8 _ = 0"
fun as_i16 where "as_i16 (VI16 w) = w" | "as_i16 _ = 0"
fun as_i32 where "as_i32 (VI32 w) = w" | "as_i32 _ = 0"
fun as_i64 where "as_i64 (VI64 w) = w" | "as_i64 _ = 0"
fun as_double where "as_double (VDouble w) = w" | "as_double _ = 0"
fun as_string where "as_string (VString s) = s" | "as_string _ = []"
fun as_list where "as_list (VList xs) = xs" | "as_list _ = []"
fun as_set where "as_set (VSet xs) = xs" | "as_set _ = []"
fun as_map where "as_map (VMap xs) = xs" | "as_map _ = []"
fun slots where "slots (VStruct ss) = ss" | "slots _ = []"

text \<open>The default constructor: every field is \<open>ftype_()\<close>, no \<^verbatim>\<open>__isset\<close> bit is set.\<close>

primrec default_val :: "ftype \<Rightarrow> tval" and default_slot :: "field \<Rightarrow> bool \<times> tval" where
  "default_val BOOL = VBool False"
| "default_val I8 = VI8 0"
| "default_val I16 = VI16 0"
| "default_val I32 = VI32 0"
| "default_val I64 = VI64 0"
| "default_val DOUBLE = VDouble 0"
| "default_val STRING = VString []"
| "default_val (BINARY g) = VString []"
| "default_val (LIST t) = VList []"
| "default_val (SET g t) = VSet []"
| "default_val (MAP k v) = VMap []"
| "default_val (STRUCT n fs) = VStruct (map default_slot fs)"
| "default_slot (Field i r t n) = (r = Required, default_val t)"

section \<open>The thrift library\<close>

text \<open>
  The operations of \<^verbatim>\<open>TProtocol\<close>: what a write appends to the buffer, and what a read takes from it
  (\<open>None\<close> is an exception).  \<open>resize_ok\<close> is the allocator's answer to \<^verbatim>\<open>resize\<close>, \<open>user_less\<close> the
  order of doubles, structs and containers in a \<^verbatim>\<open>std::set\<close> or \<^verbatim>\<open>std::map\<close>, and \<open>double_eq\<close> the
  machine's \<^verbatim>\<open>==\<close> on doubles, which are kept as their bits.
\<close>

record thrift_lib =
  writeStructBegin :: "string \<Rightarrow> bytes"
  readStructBegin :: "unit reader"
  writeStructEnd :: bytes
  readStructEnd :: "unit reader"
  writeFieldBegin :: "string \<Rightarrow> ttype \<Rightarrow> 16 word \<Rightarrow> bytes"
  writeFieldStop :: bytes
  readFieldBegin :: "(ttype \<times> 16 word) reader"
  writeFieldEnd :: bytes
  readFieldEnd :: "unit reader"
  writeBool :: "bool \<Rightarrow> bytes"
  readBool :: "bool reader"
  writeByte :: "8 word \<Rightarrow> bytes"
  readByte :: "8 word reader"
  writeI16 :: "16 word \<Rightarrow> bytes"
  readI16 :: "16 word reader"
  writeI32 :: "32 word \<Rightarrow> bytes"
  readI32 :: "32 word reader"
  writeI64 :: "64 word \<Rightarrow> bytes"
  readI64 :: "64 word reader"
  writeDouble :: "64 word \<Rightarrow> bytes"
  readDouble :: "64 word reader"
  writeString :: "bytes \<Rightarrow> bytes"
  readString :: "bytes reader"
  writeBinary :: "bytes \<Rightarrow> bytes"
  readBinary :: "bytes reader"
  writeListBegin :: "ttype \<Rightarrow> 32 word \<Rightarrow> bytes"
  readListBegin :: "(ttype \<times> 32 word) reader"
  writeListEnd :: bytes
  readListEnd :: "unit reader"
  writeSetBegin :: "ttype \<Rightarrow> 32 word \<Rightarrow> bytes"
  readSetBegin :: "(ttype \<times> 32 word) reader"
  writeSetEnd :: bytes
  readSetEnd :: "unit reader"
  writeMapBegin :: "ttype \<Rightarrow> ttype \<Rightarrow> 32 word \<Rightarrow> bytes"
  readMapBegin :: "((ttype \<times> ttype) \<times> 32 word) reader"
  writeMapEnd :: bytes
  readMapEnd :: "unit reader"
  skip :: "ttype \<Rightarrow> unit reader"
  resize_ok :: "nat \<Rightarrow> bool"
  user_less :: "tval \<Rightarrow> tval \<Rightarrow> bool"
  double_eq :: "64 word \<Rightarrow> 64 word \<Rightarrow> bool"

section \<open>Writing\<close>

primrec write_val :: "thrift_lib \<Rightarrow> ftype \<Rightarrow> tval \<Rightarrow> bytes"
  and write_field :: "thrift_lib \<Rightarrow> field \<Rightarrow> bool \<times> tval \<Rightarrow> bytes" where
  "write_val L BOOL = (\<lambda>v. writeBool L (as_bool v))"
| "write_val L I8 = (\<lambda>v. writeByte L (as_i8 v))"
| "write_val L I16 = (\<lambda>v. writeI16 L (as_i16 v))"
| "write_val L I32 = (\<lambda>v. writeI32 L (as_i32 v))"
| "write_val L I64 = (\<lambda>v. writeI64 L (as_i64 v))"
| "write_val L DOUBLE = (\<lambda>v. writeDouble L (as_double v))"
| "write_val L STRING = (\<lambda>v. writeString L (as_string v))"
| "write_val L (BINARY g) = (\<lambda>v. if g then writeBinary L (as_string v) else writeString L (as_string v))"
| "write_val L (LIST t) =
     (\<lambda>v. writeListBegin L (ttype_of t) (of_nat (length (as_list v)))
          @ concat (map (write_val L t) (as_list v)) @ writeListEnd L)"
| "write_val L (SET g t) =
     (\<lambda>v. writeSetBegin L (ttype_of t) (of_nat (length (as_set v)))
          @ concat (map (write_val L t) (as_set v)) @ writeSetEnd L)"
| "write_val L (MAP tk tv) =
     (\<lambda>v. writeMapBegin L (ttype_of tk) (ttype_of tv) (of_nat (length (as_map v)))
          @ concat (map (\<lambda>(x, y). write_val L tk x @ write_val L tv y) (as_map v)) @ writeMapEnd L)"
| "write_val L (STRUCT n fs) =
     (\<lambda>v. writeStructBegin L n
          @ concat (map (\<lambda>(w, s). w s) (zip (map (write_field L) fs) (slots v)))
          @ writeFieldStop L @ writeStructEnd L)"
| "write_field L (Field i r t n) =
     (\<lambda>(isset, v). if r = Optional \<and> \<not> isset then []
                   else writeFieldBegin L n (ttype_of t) i @ write_val L t v @ writeFieldEnd L)"

section \<open>Sets and maps\<close>

fun string_less :: "bytes \<Rightarrow> bytes \<Rightarrow> bool" where
  "string_less xs [] = False"
| "string_less [] (y # ys) = True"
| "string_less (x # xs) (y # ys) = (x < y \<or> x = y \<and> string_less xs ys)"

text \<open>\<^verbatim>\<open>operator<\<close>: integers are signed, strings compare their unsigned characters in order.\<close>

definition val_less :: "thrift_lib \<Rightarrow> tval \<Rightarrow> tval \<Rightarrow> bool" where
  "val_less L v w =
     (case v of
        VBool a \<Rightarrow> \<not> a \<and> as_bool w
      | VI8 a \<Rightarrow> sint a < sint (as_i8 w)
      | VI16 a \<Rightarrow> sint a < sint (as_i16 w)
      | VI32 a \<Rightarrow> sint a < sint (as_i32 w)
      | VI64 a \<Rightarrow> sint a < sint (as_i64 w)
      | VString a \<Rightarrow> string_less a (as_string w)
      | _ \<Rightarrow> user_less L v w)"

text \<open>\<^verbatim>\<open>operator[]\<close> followed by reading into the value: the old value, or a default one, is its start.\<close>

fun map_lookup :: "('a \<Rightarrow> 'a \<Rightarrow> bool) \<Rightarrow> 'a \<Rightarrow> ('a \<times> 'b) list \<Rightarrow> 'b option" where
  "map_lookup lt x [] = None"
| "map_lookup lt x ((a, b) # ps) = (if \<not> lt x a \<and> \<not> lt a x then Some b else map_lookup lt x ps)"

fun map_store :: "('a \<Rightarrow> 'a \<Rightarrow> bool) \<Rightarrow> 'a \<Rightarrow> 'b \<Rightarrow> ('a \<times> 'b) list \<Rightarrow> ('a \<times> 'b) list" where
  "map_store lt x y [] = [(x, y)]"
| "map_store lt x y ((a, b) # ps) =
     (if lt x a then (x, y) # (a, b) # ps
      else if lt a x then (a, b) # map_store lt x y ps
      else (a, y) # ps)"

primrec read_entries ::
  "('a \<Rightarrow> 'a \<Rightarrow> bool) \<Rightarrow> 'a reader \<Rightarrow> ('b \<Rightarrow> 'b reader) \<Rightarrow> 'b \<Rightarrow> nat \<Rightarrow> ('a \<times> 'b) list \<Rightarrow> ('a \<times> 'b) list reader" where
  "read_entries lt rk rv d 0 m = returnT m"
| "read_entries lt rk rv d (Suc n) m =
     bindT rk (\<lambda>key. bindT (rv (case map_lookup lt key m of None \<Rightarrow> d | Some y \<Rightarrow> y)) (\<lambda>val.
     read_entries lt rk rv d n (map_store lt key val m)))"

section \<open>Reading\<close>

text \<open>
  What \<^verbatim>\<open>read\<close> of a struct needs of a field: its id, qualifier and wire type, and how its value is
  read into the current one.  A slot of the loop says whether the field was read, and its value.
\<close>

type_synonym field_reader = "16 word \<times> requiredness \<times> ttype \<times> (tval \<Rightarrow> tval reader)"

text \<open>The \<^verbatim>\<open>switch\<close> over the field id.\<close>

fun read_case ::
  "thrift_lib \<Rightarrow> field_reader list \<Rightarrow> (bool \<times> tval) list \<Rightarrow> 16 word \<Rightarrow> ttype \<Rightarrow> (bool \<times> tval) list reader" where
  "read_case L ((i, r, tt, rd) # frs) ((seen, v) # ss) fid ft =
     (if fid = i
      then if ft = tt then mapT (\<lambda>v'. (True, v') # ss) (rd v) else mapT (\<lambda>_. (seen, v) # ss) (skip L ft)
      else mapT (\<lambda>ss'. (seen, v) # ss') (read_case L frs ss fid ft))"
| "read_case L frs ss fid ft = mapT (\<lambda>_. ss) (skip L ft)"

text \<open>
  The loop over the fields.  Every round takes a field header off the input, so the length of the
  input bounds the number of rounds; a protocol that takes nothing is not one.
\<close>

primrec read_fields ::
  "thrift_lib \<Rightarrow> field_reader list \<Rightarrow> nat \<Rightarrow> (bool \<times> tval) list \<Rightarrow> (bool \<times> tval) list reader" where
  "read_fields L frs 0 ss = throwT"
| "read_fields L frs (Suc n) ss =
     bindT (readFieldBegin L) (\<lambda>(ft, fid).
     if ft = T_STOP then returnT ss
     else bindT (read_case L frs ss fid ft) (\<lambda>ss'.
          bindT (readFieldEnd L) (\<lambda>_. read_fields L frs n ss')))"

text \<open>
  \<^verbatim>\<open>isset_\<close> variables start as false; a required field that was not read makes \<^verbatim>\<open>read\<close> throw, and the
  \<^verbatim>\<open>__isset\<close> bit of any other field is set when it was read and otherwise stays as it was.
\<close>

definition missing_required :: "field_reader list \<Rightarrow> (bool \<times> tval) list \<Rightarrow> bool" where
  "missing_required frs ss = list_ex (\<lambda>((i, r, tt, rd), (seen, v)). r = Required \<and> \<not> seen) (zip frs ss)"

definition finish_slots :: "(bool \<times> tval) list \<Rightarrow> (bool \<times> tval) list \<Rightarrow> (bool \<times> tval) list" where
  "finish_slots old new = map (\<lambda>((isset, _), (seen, v)). (isset \<or> seen, v)) (zip old new)"

definition read_struct :: "thrift_lib \<Rightarrow> field_reader list \<Rightarrow> tval \<Rightarrow> tval reader" where
  "read_struct L frs cur =
     bindT (readStructBegin L) (\<lambda>_.
     bindT (\<lambda>bs. read_fields L frs (Suc (length bs)) (map (\<lambda>(isset, v). (False, v)) (slots cur)) bs) (\<lambda>ss.
     bindT (readStructEnd L) (\<lambda>_.
     if missing_required frs ss then throwT else returnT (VStruct (finish_slots (slots cur) ss)))))"

primrec read_val :: "thrift_lib \<Rightarrow> ftype \<Rightarrow> tval \<Rightarrow> tval reader"
  and read_field :: "thrift_lib \<Rightarrow> field \<Rightarrow> field_reader" where
  "read_val L BOOL = (\<lambda>cur. mapT VBool (readBool L))"
| "read_val L I8 = (\<lambda>cur. mapT VI8 (readByte L))"
| "read_val L I16 = (\<lambda>cur. mapT VI16 (readI16 L))"
| "read_val L I32 = (\<lambda>cur. mapT VI32 (readI32 L))"
| "read_val L I64 = (\<lambda>cur. mapT VI64 (readI64 L))"
| "read_val L DOUBLE = (\<lambda>cur. mapT VDouble (readDouble L))"
| "read_val L STRING = (\<lambda>cur. mapT VString (readString L))"
| "read_val L (BINARY g) = (\<lambda>cur. mapT VString (readBinary L))"
| "read_val L (LIST t) =
     (\<lambda>cur. bindT (readListBegin L) (\<lambda>(etype, size).
            if \<not> resize_ok L (unat size) then throwT
            else bindT (read_times (unat size) (read_val L t (default_val t))) (\<lambda>xs.
                 bindT (readListEnd L) (\<lambda>_. returnT (VList xs)))))"
| "read_val L (SET clear t) =
     (\<lambda>cur. bindT (readSetBegin L) (\<lambda>(etype, size).
            bindT (read_times (unat size) (read_val L t (default_val t))) (\<lambda>xs.
            bindT (readSetEnd L) (\<lambda>_.
            returnT (VSet (foldl (\<lambda>s x. set_insert (val_less L) x s) (if clear then [] else as_set cur) xs))))))"
| "read_val L (MAP tk tv) =
     (\<lambda>cur. bindT (readMapBegin L) (\<lambda>(types, size).
            bindT (read_entries (val_less L) (read_val L tk (default_val tk)) (read_val L tv) (default_val tv)
                     (unat size) []) (\<lambda>m.
            bindT (readMapEnd L) (\<lambda>_. returnT (VMap m)))))"
| "read_val L (STRUCT n fs) = read_struct L (map (read_field L) fs)"
| "read_field L (Field i r t n) = (i, r, ttype_of t, read_val L t)"

section \<open>The other members of a struct\<close>

text \<open>\<^verbatim>\<open>__set_\<close> and \<^verbatim>\<open>get_\<close> of the \<open>k\<close>th field; reading an unset optional field is an assertion.\<close>

definition set_field :: "nat \<Rightarrow> tval \<Rightarrow> field list \<Rightarrow> tval \<Rightarrow> tval" where
  "set_field k v fs s =
     VStruct ((slots s)[k := (if requirement (fs ! k) = Optional then True else fst (slots s ! k), v)])"

definition get_field :: "nat \<Rightarrow> field list \<Rightarrow> tval \<Rightarrow> tval option" where
  "get_field k fs s =
     (if requirement (fs ! k) = Optional \<and> \<not> fst (slots s ! k) then None else Some (snd (slots s ! k)))"

text \<open>
  \<^verbatim>\<open>swap\<close>, and the copy constructor and \<^verbatim>\<open>operator=\<close>: every field, then \<^verbatim>\<open>__isset\<close>.
\<close>

definition assign_fields :: "field list \<Rightarrow> tval \<Rightarrow> tval" where
  "assign_fields fs other = VStruct (map (\<lambda>k. (fst (slots other ! k), snd (slots other ! k))) [0..<length fs])"

definition swap_fields :: "field list \<Rightarrow> tval \<Rightarrow> tval \<Rightarrow> tval \<times> tval" where
  "swap_fields fs a b = (assign_fields fs b, assign_fields fs a)"

text \<open>
  \<^verbatim>\<open>printTo\<close>; \<open>to_str\<close> is \<^verbatim>\<open>to_string\<close> of the thrift library.  Every field is preceded by a comma.
\<close>

definition print_field :: "(ftype \<Rightarrow> tval \<Rightarrow> string) \<Rightarrow> field \<Rightarrow> bool \<times> tval \<Rightarrow> string" where
  "print_field to_str f s =
     '', '' @ field_name f @ ''=''
     @ (if requirement f = Optional \<and> \<not> fst s then ''<null>'' else to_str (field_type f) (snd s))"

definition print_to :: "(ftype \<Rightarrow> tval \<Rightarrow> string) \<Rightarrow> string \<Rightarrow> field list \<Rightarrow> tval \<Rightarrow> string" where
  "print_to to_str n fs v =
     n @ ''('' @ concat (map (\<lambda>(f, s). print_field to_str f s) (zip fs (slots v))) @ '')''"

text \<open>\<^verbatim>\<open>operator ==\<close>: an optional field counts with its bit, and with its value only when the bit is set.\<close>

primrec val_eq :: "thrift_lib \<Rightarrow> ftype \<Rightarrow> tval \<Rightarrow> tval \<Rightarrow> bool" and slot_eq :: "thrift_lib \<Rightarrow> field \<Rightarrow> bool \<times> tval \<Rightarrow> bool \<times> tval \<Rightarrow> bool" where
  "val_eq L BOOL = (=)"
| "val_eq L I8 = (=)"
| "val_eq L I16 = (=)"
| "val_eq L I32 = (=)"
| "val_eq L I64 = (=)"
| "val_eq L DOUBLE = (\<lambda>v w. double_eq L (as_double v) (as_double w))"
| "val_eq L STRING = (=)"
| "val_eq L (BINARY g) = (=)"
| "val_eq L (LIST t) = (\<lambda>v w. list_all2 (val_eq L t) (as_list v) (as_list w))"
| "val_eq L (SET g t) = (\<lambda>v w. list_all2 (val_eq L t) (as_set v) (as_set w))"
| "val_eq L (MAP tk tv) =
     (\<lambda>v w. list_all2 (\<lambda>(x, y) (x', y'). val_eq L tk x x' \<and> val_eq L tv y y') (as_map v) (as_map w))"
| "val_eq L (STRUCT n fs) =
     (\<lambda>v w. list_all (\<lambda>(eq, s, s'). eq s s') (zip (map (slot_eq L) fs) (zip (slots v) (slots w))))"
| "slot_eq L (Field i r t n) =
     (\<lambda>(b, v) (b', v'). if r = Optional then b = b' \<and> (b \<longrightarrow> val_eq L t v v') else val_eq L t v v')"

end
