(* ===== verification/ThriftRoundTrip.thy ===== *)
theory ThriftRoundTrip
  imports Thrift
begin

text \<open>
  What is written can be read: a struct written under one declaration is read back, field for
  field, under any declaration with the same field ids and types, whichever of its fields are
  required.  Of the thrift library only the hypotheses \<open>protocol_ok\<close> are used.
\<close>

section \<open>What the code relies on\<close>

text \<open>The sizes of strings and containers are written as a positive 32-bit integer.\<close>

definition max_size :: nat where
  "max_size = 2 ^ 31"

definition protocol_ok :: "thrift_lib \<Rightarrow> bool" where
  "protocol_ok L \<longleftrightarrow>
     (\<forall>n. reads (readStructBegin L) (writeStructBegin L n) ())
     \<and> reads (readStructEnd L) (writeStructEnd L) ()
     \<and> (\<forall>n t i. reads (readFieldBegin L) (writeFieldBegin L n (ttype_of t) i) (ttype_of t, i)
          \<and> writeFieldBegin L n (ttype_of t) i \<noteq> [])
     \<and> (\<exists>i. reads (readFieldBegin L) (writeFieldStop L) (T_STOP, i))
     \<and> reads (readFieldEnd L) (writeFieldEnd L) ()
     \<and> (\<forall>b. reads (readBool L) (writeBool L b) b)
     \<and> (\<forall>w. reads (readByte L) (writeByte L w) w)
     \<and> (\<forall>w. reads (readI16 L) (writeI16 L w) w)
     \<and> (\<forall>w. reads (readI32 L) (writeI32 L w) w)
     \<and> (\<forall>w. reads (readI64 L) (writeI64 L w) w)
     \<and> (\<forall>w. reads (readDouble L) (writeDouble L w) w)
     \<and> (\<forall>s. length s < max_size \<longrightarrow> reads (readString L) (writeString L s) s
          \<and> reads (readBinary L) (writeString L s) s \<and> reads (readBinary L) (writeBinary L s) s)
     \<and> (\<forall>t n. unat n < max_size \<longrightarrow> reads (readListBegin L) (writeListBegin L (ttype_of t) n) (ttype_of t, n))
     \<and> reads (readListEnd L) (writeListEnd L) ()
     \<and> (\<forall>t n. unat n < max_size \<longrightarrow> reads (readSetBegin L) (writeSetBegin L (ttype_of t) n) (ttype_of t, n))
     \<and> reads (readSetEnd L) (writeSetEnd L) ()
     \<and> (\<forall>k t n. unat n < max_size
          \<longrightarrow> reads (readMapBegin L) (writeMapBegin L (ttype_of k) (ttype_of t) n) ((ttype_of k, ttype_of t), n))
     \<and> reads (readMapEnd L) (writeMapEnd L) ()"

section \<open>Values of a type\<close>

definition strictly_less :: "thrift_lib \<Rightarrow> tval \<Rightarrow> tval \<Rightarrow> bool" where
  "strictly_less L v w \<longleftrightarrow> val_less L v w \<and> \<not> val_less L w v"

text \<open>The values an object of the type can hold, within the lengths the encoding has room for.\<close>

primrec fits :: "thrift_lib \<Rightarrow> ftype \<Rightarrow> tval \<Rightarrow> bool"
  and fits_slot :: "thrift_lib \<Rightarrow> field \<Rightarrow> bool \<times> tval \<Rightarrow> bool" where
  "fits L BOOL = (\<lambda>v. v = VBool (as_bool v))"
| "fits L I8 = (\<lambda>v. v = VI8 (as_i8 v))"
| "fits L I16 = (\<lambda>v. v = VI16 (as_i16 v))"
| "fits L I32 = (\<lambda>v. v = VI32 (as_i32 v))"
| "fits L I64 = (\<lambda>v. v = VI64 (as_i64 v))"
| "fits L DOUBLE = (\<lambda>v. v = VDouble (as_double v))"
| "fits L STRING = (\<lambda>v. v = VString (as_string v) \<and> length (as_string v) < max_size)"
| "fits L (BINARY g) = (\<lambda>v. v = VString (as_string v) \<and> length (as_string v) < max_size)"
| "fits L (LIST t) =
     (\<lambda>v. v = VList (as_list v) \<and> length (as_list v) < max_size \<and> resize_ok L (length (as_list v))
          \<and> list_all (fits L t) (as_list v))"
| "fits L (SET g t) =
     (\<lambda>v. v = VSet (as_set v) \<and> length (as_set v) < max_size
          \<and> sorted_wrt (strictly_less L) (as_set v) \<and> list_all (fits L t) (as_set v))"
| "fits L (MAP tk tv) =
     (\<lambda>v. v = VMap (as_map v) \<and> length (as_map v) < max_size
          \<and> sorted_wrt (strictly_less L) (map fst (as_map v))
          \<and> list_all (\<lambda>(x, y). fits L tk x \<and> fits L tv y) (as_map v))"
| "fits L (STRUCT n fs) =
     (\<lambda>v. v = VStruct (slots v) \<and> length (slots v) = length fs
          \<and> list_all (\<lambda>(ok, s). ok s) (zip (map (fits_slot L) fs) (slots v)))"
| "fits_slot L (Field i r t n) = (\<lambda>(isset, v). if isset then fits L t v else r = Optional)"

text \<open>Same field ids and types; requiredness and names may differ, as may the flags of sets and binaries.\<close>

primrec compat :: "ftype \<Rightarrow> ftype \<Rightarrow> bool" and compat_field :: "field \<Rightarrow> field \<Rightarrow> bool" where
  "compat BOOL = (\<lambda>u. u = BOOL)"
| "compat I8 = (\<lambda>u. u = I8)"
| "compat I16 = (\<lambda>u. u = I16)"
| "compat I32 = (\<lambda>u. u = I32)"
| "compat I64 = (\<lambda>u. u = I64)"
| "compat DOUBLE = (\<lambda>u. u = DOUBLE)"
| "compat STRING = (\<lambda>u. u = STRING)"
| "compat (BINARY g) = (\<lambda>u. case u of BINARY g' \<Rightarrow> True | _ \<Rightarrow> False)"
| "compat (LIST t) = (\<lambda>u. case u of LIST t' \<Rightarrow> compat t t' | _ \<Rightarrow> False)"
| "compat (SET g t) = (\<lambda>u. case u of SET g' t' \<Rightarrow> compat t t' | _ \<Rightarrow> False)"
| "compat (MAP tk tv) = (\<lambda>u. case u of MAP tk' tv' \<Rightarrow> compat tk tk' \<and> compat tv tv' | _ \<Rightarrow> False)"
| "compat (STRUCT n fs) =
     (\<lambda>u. case u of
            STRUCT n' gs \<Rightarrow> length gs = length fs \<and> distinct (map field_id gs)
              \<and> list_all (\<lambda>(c, g). c g) (zip (map compat_field fs) gs)
          | _ \<Rightarrow> False)"
| "compat_field (Field i r t n) = (\<lambda>g. field_id g = i \<and> compat t (field_type g))"

text \<open>Nothing the reader requires is missing, and what is missing holds the reader's default value.\<close>

primrec accepts :: "ftype \<Rightarrow> tval \<Rightarrow> bool" and accepts_slot :: "field \<Rightarrow> bool \<times> tval \<Rightarrow> bool" where
  "accepts BOOL = (\<lambda>v. True)"
| "accepts I8 = (\<lambda>v. True)"
| "accepts I16 = (\<lambda>v. True)"
| "accepts I32 = (\<lambda>v. True)"
| "accepts I64 = (\<lambda>v. True)"
| "accepts DOUBLE = (\<lambda>v. True)"
| "accepts STRING = (\<lambda>v. True)"
| "accepts (BINARY g) = (\<lambda>v. True)"
| "accepts (LIST t) = (\<lambda>v. list_all (accepts t) (as_list v))"
| "accepts (SET g t) = (\<lambda>v. list_all (accepts t) (as_set v))"
| "accepts (MAP tk tv) = (\<lambda>v. list_all (\<lambda>(x, y). accepts tk x \<and> accepts tv y) (as_map v))"
| "accepts (STRUCT n fs) = (\<lambda>v. list_all (\<lambda>(ok, s). ok s) (zip (map accepts_slot fs) (slots v)))"
| "accepts_slot (Field i r t n) =
     (\<lambda>(isset, v). if isset then accepts t v else r \<noteq> Required \<and> v = default_val t)"

section \<open>Sets and maps are rebuilt in order\<close>

lemma set_insert_last:
  "\<forall>a\<in>set xs. strictly_less L a x \<Longrightarrow> set_insert (val_less L) x xs = xs @ [x]"
  by (induction xs) (auto simp: strictly_less_def)

lemma set_rebuilt_from:
  "sorted_wrt (strictly_less L) (ys @ xs) \<Longrightarrow> foldl (\<lambda>s x. set_insert (val_less L) x s) ys xs = ys @ xs"
proof (induction xs arbitrary: ys)
  case (Cons x xs)
  then have "set_insert (val_less L) x ys = ys @ [x]"
    by (intro set_insert_last) (auto simp: sorted_wrt_append)
  with Cons show ?case by simp
qed simp

lemmas set_rebuilt = set_rebuilt_from [of L "[]" for L, simplified]

lemma map_lookup_fresh:
  "\<forall>(a, b)\<in>set m. strictly_less L a x \<Longrightarrow> map_lookup (val_less L) x m = None"
  by (induction m) (auto simp: strictly_less_def)

lemma map_store_last:
  "\<forall>(a, b)\<in>set m. strictly_less L a x \<Longrightarrow> map_store (val_less L) x y m = m @ [(x, y)]"
  by (induction m) (auto simp: strictly_less_def)

lemma reads_entries:
  assumes "sorted_wrt (strictly_less L) (map fst (m @ ps))"
    and "\<And>x y. (x, y) \<in> set ps \<Longrightarrow> reads rk (wk x) x \<and> reads (rv d) (wv y) y"
  shows "reads (read_entries (val_less L) rk rv d (length ps) m) (concat (map (\<lambda>(x, y). wk x @ wv y) ps)) (m @ ps)"
  using assms
proof (induction ps arbitrary: m)
  case (Cons p ps)
  obtain x y where p: "p = (x, y)" by fastforce
  have last: "\<forall>(a, b)\<in>set m. strictly_less L a x" using Cons.prems(1) by (force simp: p sorted_wrt_append)
  have "reads (read_entries (val_less L) rk rv d (length ps) (m @ [(x, y)]))
      (concat (map (\<lambda>(x, y). wk x @ wv y) ps)) ((m @ [(x, y)]) @ ps)"
    using Cons.prems by (intro Cons.IH) (auto simp: p)
  moreover have rk: "reads rk (wk x) x" and rv: "reads (rv d) (wv y) y" using Cons.prems(2) [of x y] by (simp_all add: p)
  ultimately have "reads (read_entries (val_less L) rk rv d (Suc (length ps)) m)
      (wk x @ wv y @ concat (map (\<lambda>(x, y). wk x @ wv y) ps)) (m @ (x, y) # ps)"
    unfolding read_entries.simps
    by (intro reads_bind [OF rk]) (simp add: map_lookup_fresh [OF last] map_store_last [OF last] reads_bind)
  then show ?case by (simp add: p)
qed (simp add: reads_return)

section \<open>The loop over the fields\<close>

lemma reads_case:
  "length ss1 = length frs1 \<Longrightarrow> i \<notin> fst ` set frs1 \<Longrightarrow> reads (rd cur) out v \<Longrightarrow>
   reads (read_case L (frs1 @ (i, r, tt, rd) # frs2) (ss1 @ (s, cur) # ss2) i tt) out (ss1 @ (True, v) # ss2)"
proof (induction frs1 arbitrary: ss1)
  case Nil
  then show ?case using reads_map [of "rd cur" out v "\<lambda>v'. (True, v') # ss2"] by simp
next
  case (Cons fr frs1)
  obtain s0 ss0 where ss1: "ss1 = s0 # ss0" "length ss0 = length frs1" using Cons.prems(1) by (cases ss1) auto
  obtain i0 r0 tt0 rd0 where fr: "fr = (i0, r0, tt0, rd0)" using prod_cases4 by blast
  obtain b0 v0 where s0: "s0 = (b0, v0)" by fastforce
  from Cons.IH [OF ss1(2)] Cons.prems have
    "reads (read_case L (frs1 @ (i, r, tt, rd) # frs2) (ss0 @ (s, cur) # ss2) i tt) out (ss0 @ (True, v) # ss2)" by simp
  from reads_map [OF this, of "\<lambda>ss'. (b0, v0) # ss'"] show ?case
    using Cons.prems(2) by (auto simp: ss1 fr s0)
qed

text \<open>
  The loop reads back the written slots of the fields \<open>fs\<close>, the slots \<open>prev\<close> of the fields before
  them being read already.
\<close>

definition write_slots :: "thrift_lib \<Rightarrow> field list \<Rightarrow> (bool \<times> tval) list \<Rightarrow> bytes" where
  "write_slots L fs ss = concat (map (\<lambda>(w, s). w s) (zip (map (write_field L) fs) ss))"

lemma write_slots_simps [simp]:
  "write_slots L [] [] = []" "write_slots L (f # fs) (s # ss) = write_field L f s @ write_slots L fs ss"
  by (simp_all add: write_slots_def)

definition unread :: "field \<Rightarrow> bool \<times> tval" where
  "unread g = (False, default_val (field_type g))"

text \<open>A field is read back by the reader of \<open>g\<close>, or is missing and keeps the default value of \<open>g\<close>.\<close>

definition slot_readable :: "thrift_lib \<Rightarrow> field \<Rightarrow> field \<Rightarrow> bool \<times> tval \<Rightarrow> bool" where
  "slot_readable L f g s \<longleftrightarrow>
     field_id g = field_id f \<and> ttype_of (field_type g) = ttype_of (field_type f)
     \<and> (if fst s
        then reads (read_val L (field_type g) (default_val (field_type g)))
               (write_val L (field_type f) (snd s)) (snd s)
        else requirement f = Optional \<and> snd s = default_val (field_type g))"

lemma ttype_not_stop [simp]: "ttype_of t \<noteq> T_STOP"
  by (cases t) simp_all

lemma read_field_eq: "read_field L g = (field_id g, requirement g, ttype_of (field_type g), read_val L (field_type g))"
  by (cases g) simp

lemma write_field_eq:
  "write_field L f (b, v) =
     (if requirement f = Optional \<and> \<not> b then []
      else writeFieldBegin L (field_name f) (ttype_of (field_type f)) (field_id f)
             @ write_val L (field_type f) v @ writeFieldEnd L)"
  by (cases f) simp

definition all_readable :: "thrift_lib \<Rightarrow> field list \<Rightarrow> field list \<Rightarrow> (bool \<times> tval) list \<Rightarrow> bool" where
  "all_readable L fs gs ss \<longleftrightarrow>
     length gs = length fs \<and> length ss = length fs
     \<and> list_all (\<lambda>(f, g, s). slot_readable L f g s) (zip fs (zip gs ss))"

lemma all_readable_Cons:
  "all_readable L (f # fs) gs ss \<longleftrightarrow>
     (\<exists>g gs' s ss'. gs = g # gs' \<and> ss = s # ss' \<and> slot_readable L f g s \<and> all_readable L fs gs' ss')"
  by (cases gs; cases ss) (auto simp: all_readable_def)

lemma reads_fields:
  assumes L: "protocol_ok L"
  shows "all_readable L fs gs ss \<Longrightarrow> length prev = length gs1 \<Longrightarrow> distinct (map field_id (gs1 @ gs))
    \<Longrightarrow> length (write_slots L fs ss) < n
    \<Longrightarrow> reads (read_fields L (map (read_field L) (gs1 @ gs)) n (prev @ map unread gs))
          (write_slots L fs ss @ writeFieldStop L) (prev @ ss)"
proof (induction fs arbitrary: gs ss prev gs1 n)
  case Nil
  then obtain m where "n = Suc m" "gs = []" "ss = []" by (cases n) (auto simp: all_readable_def)
  moreover obtain i where "reads (readFieldBegin L) (writeFieldStop L) (T_STOP, i)"
    using L by (auto simp: protocol_ok_def)
  ultimately show ?case
    using reads_bind [of "readFieldBegin L" "writeFieldStop L" "(T_STOP, i)" _ "[]" "prev"] by (simp add: reads_return)
next
  case (Cons f fs)
  obtain g gs' b v ss' where gs: "gs = g # gs'" "ss = (b, v) # ss'" and ok: "slot_readable L f g (b, v)"
    and rest: "all_readable L fs gs' ss'"
    using Cons.prems(1) by (auto simp: all_readable_Cons)
  have IH: "reads (read_fields L (map (read_field L) ((gs1 @ [g]) @ gs')) m ((prev @ [(b, v)]) @ map unread gs'))
      (write_slots L fs ss' @ writeFieldStop L) ((prev @ [(b, v)]) @ ss')"
    if "length (write_slots L fs ss') < m" for m
    using Cons.prems that by (intro Cons.IH [OF rest]) (auto simp: gs)
  show ?case
  proof (cases b)
    case False
    with ok have "unread g = (b, v)" "requirement f = Optional" by (simp_all add: slot_readable_def unread_def)
    then show ?thesis using IH [of n] Cons.prems(4) False by (simp add: gs write_field_eq)
  next
    case True
    let ?t = "ttype_of (field_type f)"
    from ok True have g: "field_id g = field_id f" "ttype_of (field_type g) = ?t"
      and rd: "reads (read_val L (field_type g) (default_val (field_type g))) (write_val L (field_type f) v) v"
      by (simp_all add: slot_readable_def)
    have hd: "reads (readFieldBegin L) (writeFieldBegin L (field_name f) ?t (field_id f)) (?t, field_id f)"
      "writeFieldBegin L (field_name f) ?t (field_id f) \<noteq> []" and fin: "reads (readFieldEnd L) (writeFieldEnd L) ()"
      using L by (simp_all add: protocol_ok_def)
    from hd(2) Cons.prems(4) obtain m where m: "n = Suc m" "length (write_slots L fs ss') < m"
      by (cases n) (auto simp: gs write_field_eq True neq_Nil_conv)
    have cs: "reads (read_case L (map (read_field L) gs1 @ read_field L g # map (read_field L) gs')
        (prev @ unread g # map unread gs') (field_id f) ?t) (write_val L (field_type f) v)
        (prev @ (True, v) # map unread gs')"
      unfolding read_field_eq [of L g] g unread_def
      by (rule reads_case) (use Cons.prems(2,3) g rd in \<open>auto simp: gs read_field_eq\<close>)
    have more: "reads (read_fields L (map (read_field L) gs1 @ read_field L g # map (read_field L) gs') m
        (prev @ (True, v) # map unread gs')) (write_slots L fs ss' @ writeFieldStop L) (prev @ (True, v) # ss')"
      using IH [OF m(2)] True by simp
    have "reads (read_fields L (map (read_field L) (gs1 @ gs)) (Suc m) (prev @ map unread gs))
        (writeFieldBegin L (field_name f) ?t (field_id f) @ write_val L (field_type f) v @ writeFieldEnd L
          @ write_slots L fs ss' @ writeFieldStop L) (prev @ (True, v) # ss')"
      unfolding read_fields.simps
      by (rule reads_bind [OF hd(1)], simp add: gs, rule reads_bind [OF cs], rule reads_bind [OF fin], rule more)
    then show ?thesis by (simp add: m gs write_field_eq True)
  qed
qed

section \<open>Whole values\<close>

lemma default_slot_eq: "default_slot g = (requirement g = Required, default_val (field_type g))"
  by (cases g) simp

definition complete :: "field list \<Rightarrow> (bool \<times> tval) list \<Rightarrow> bool" where
  "complete gs ss \<longleftrightarrow> list_all (\<lambda>(g, s). fst s \<or> requirement g \<noteq> Required) (zip gs ss)"

lemma missing_iff: "missing_required (map (read_field L) gs) ss \<longleftrightarrow> \<not> complete gs ss"
  by (induction gs arbitrary: ss)
    (auto simp: missing_required_def complete_def read_field_eq zip_Cons1 split: list.split)

lemma finished:
  "length ss = length gs \<Longrightarrow> complete gs ss \<Longrightarrow> finish_slots (map default_slot gs) ss = ss"
  by (induction gs ss rule: list_induct2')
    (auto simp: complete_def finish_slots_def default_slot_eq)

lemma reads_body:
  assumes L: "protocol_ok L" and ok: "all_readable L fs gs ss" and ids: "distinct (map field_id gs)"
  shows "reads (\<lambda>bs. read_fields L (map (read_field L) gs) (Suc (length bs)) (map unread gs) bs)
    (write_slots L fs ss @ writeFieldStop L) ss"
proof -
  let ?out = "write_slots L fs ss @ writeFieldStop L"
  have "reads (read_fields L (map (read_field L) gs) (Suc (length (?out @ rest))) (map unread gs)) ?out ss" for rest
    using reads_fields [OF L ok, of "[]" "[]"] ids by (simp del: read_fields.simps)
  then show ?thesis by (simp add: reads_def del: read_fields.simps length_append)
qed

lemma init_slots: "map (\<lambda>(isset, v). (False, v)) (map default_slot gs) = map unread gs"
  by (simp add: default_slot_eq unread_def)

lemma reads_struct:
  assumes L: "protocol_ok L" and ok: "all_readable L fs gs ss" "complete gs ss" and ids: "distinct (map field_id gs)"
  shows "reads (read_struct L (map (read_field L) gs) (VStruct (map default_slot gs)))
    (writeStructBegin L n @ write_slots L fs ss @ writeFieldStop L @ writeStructEnd L) (VStruct ss)"
proof -
  have sb: "reads (readStructBegin L) (writeStructBegin L n) ()" and se: "reads (readStructEnd L) (writeStructEnd L) ()"
    using L by (simp_all add: protocol_ok_def)
  have "length ss = length gs" using ok by (simp add: all_readable_def)
  note fin = missing_iff [of L gs ss] finished [OF this ok(2)]
  have "reads (read_struct L (map (read_field L) gs) (VStruct (map default_slot gs)))
      (writeStructBegin L n @ (write_slots L fs ss @ writeFieldStop L) @ writeStructEnd L) (VStruct ss)"
    unfolding read_struct_def slots.simps init_slots
    by (rule reads_bind [OF sb], rule reads_bind [OF reads_body [OF L ok(1) ids]], rule reads_last [OF se])
      (simp add: fin ok(2))
  then show ?thesis by simp
qed

lemma bindT_None: "reads r out x \<Longrightarrow> k x rest = None \<Longrightarrow> bindT r k (out @ rest) = None"
  by (simp add: bindT_def readsD)

lemma refused_struct:
  assumes L: "protocol_ok L" and ok: "all_readable L fs gs ss" and ids: "distinct (map field_id gs)"
    and missing: "\<not> complete gs ss"
  shows "read_struct L (map (read_field L) gs) (VStruct (map default_slot gs))
    (writeStructBegin L n @ (write_slots L fs ss @ writeFieldStop L) @ writeStructEnd L @ rest) = None"
proof -
  have sb: "reads (readStructBegin L) (writeStructBegin L n) ()" and se: "reads (readStructEnd L) (writeStructEnd L) ()"
    using L by (simp_all add: protocol_ok_def)
  show ?thesis
    unfolding read_struct_def slots.simps init_slots
    by (rule bindT_None [OF sb], rule bindT_None [OF reads_body [OF L ok ids]], rule bindT_None [OF se])
      (simp add: missing_iff missing throwT_def)
qed

lemma unat_size: "n < max_size \<Longrightarrow> unat (of_nat n :: 32 word) = n"
  by (simp add: unsigned_of_nat take_bit_nat_eq_self max_size_def)

lemma compat_ttype: "compat t u \<Longrightarrow> ttype_of u = ttype_of t"
  by (cases t; cases u) auto

lemma list_all_zip_map:
  "length ys = length xs
   \<Longrightarrow> list_all (\<lambda>(p, y). p y) (zip (map f xs) ys) \<longleftrightarrow> (\<forall>k<length xs. f (xs ! k) (ys ! k))"
  by (simp add: list_all_length)

lemma reads_list:
  assumes "\<And>v. v \<in> set xs \<Longrightarrow> reads r (w v) v"
  shows "reads (read_times (length xs) r) (concat (map w xs)) xs"
  using assms by (intro reads_times) (auto simp: list_all2_map1 list_all2_same)

lemma slot_readableI:
  assumes "compat_field f g" and "fits_slot L f s"
    and "if fst s then accepts (field_type g) (snd s) else snd s = default_val (field_type g)"
    and rd: "compat (field_type f) (field_type g) \<Longrightarrow> fits L (field_type f) (snd s) \<Longrightarrow> accepts (field_type g) (snd s)
      \<Longrightarrow> reads (read_val L (field_type g) (default_val (field_type g))) (write_val L (field_type f) (snd s)) (snd s)"
  shows "slot_readable L f g s"
  using assms by (cases f; cases g; cases s) (auto simp: slot_readable_def compat_ttype split: if_splits)

lemma accepts_slot_eq:
  "accepts_slot g s \<longleftrightarrow>
     (if fst s then accepts (field_type g) (snd s)
      else requirement g \<noteq> Required \<and> snd s = default_val (field_type g))"
  by (cases g; cases s) simp

lemma reads_written:
  assumes L: "protocol_ok L"
  shows "compat t u \<Longrightarrow> fits L t v \<Longrightarrow> accepts u v \<Longrightarrow> reads (read_val L u (default_val u)) (write_val L t v) v"
    and "compat_field f g \<Longrightarrow> fits_slot L f s \<Longrightarrow> accepts_slot g s \<Longrightarrow> slot_readable L f g s"
proof (induction t and f arbitrary: u v and g s rule: ftype.induct field.induct)
  case (LIST t)
  then obtain t' where u: "u = LIST t'" by (cases u) auto
  let ?xs = "as_list v"
  have v: "v = VList ?xs" "length ?xs < max_size" "resize_ok L (length ?xs)" using LIST.prems by simp_all
  have tt: "ttype_of t' = ttype_of t" using LIST.prems u by (simp add: compat_ttype)
  have xs: "reads (read_times (length ?xs) (read_val L t' (default_val t'))) (concat (map (write_val L t) ?xs)) ?xs"
    using LIST u by (intro reads_list) (auto simp: list_all_iff)
  let ?n = "of_nat (length ?xs) :: 32 word"
  have sz: "unat ?n < max_size" using v(2) unat_size [OF v(2)] by simp
  have lib: "reads (readListBegin L) (writeListBegin L (ttype_of t) ?n) (ttype_of t, ?n)"
    "reads (readListEnd L) (writeListEnd L) ()" using L sz by (simp_all add: protocol_ok_def)
  have "reads (read_val L u (default_val u)) (writeListBegin L (ttype_of t) (of_nat (length ?xs))
      @ concat (map (write_val L t) ?xs) @ writeListEnd L) (VList ?xs)"
    unfolding u read_val.simps
    by (rule reads_bind, rule lib(1), simp add: unat_size [OF v(2)] v(3), rule reads_bind, rule xs, rule reads_last, rule lib(2)) simp
  then show ?case using v(1) by simp
next
  case (SET g' t)
  then obtain c t' where u: "u = SET c t'" by (cases u) auto
  let ?xs = "as_set v"
  have v: "v = VSet ?xs" "length ?xs < max_size" "sorted_wrt (strictly_less L) ?xs" using SET.prems by simp_all
  have xs: "reads (read_times (length ?xs) (read_val L t' (default_val t'))) (concat (map (write_val L t) ?xs)) ?xs"
    using SET u by (intro reads_list) (auto simp: list_all_iff)
  let ?n = "of_nat (length ?xs) :: 32 word"
  have sz: "unat ?n < max_size" using v(2) unat_size [OF v(2)] by simp
  have lib: "reads (readSetBegin L) (writeSetBegin L (ttype_of t) ?n) (ttype_of t, ?n)"
    "reads (readSetEnd L) (writeSetEnd L) ()" using L sz by (simp_all add: protocol_ok_def)
  have "reads (read_val L u (default_val u)) (writeSetBegin L (ttype_of t) (of_nat (length ?xs))
      @ concat (map (write_val L t) ?xs) @ writeSetEnd L) (VSet ?xs)"
    unfolding u read_val.simps
    by (rule reads_bind, rule lib(1), simp add: unat_size [OF v(2)] v(3), rule reads_bind, rule xs, rule reads_last, rule lib(2))
      (simp add: set_rebuilt [OF v(3)])
  then show ?case using v(1) by simp
next
  case (MAP tk tv)
  then obtain tk' tv' where u: "u = MAP tk' tv'" by (cases u) auto
  let ?xs = "as_map v"
  have v: "v = VMap ?xs" "length ?xs < max_size" "sorted_wrt (strictly_less L) (map fst ?xs)" using MAP.prems by simp_all
  have xs: "reads (read_entries (val_less L) (read_val L tk' (default_val tk')) (read_val L tv') (default_val tv')
      (length ?xs) []) (concat (map (\<lambda>(x, y). write_val L tk x @ write_val L tv y) ?xs)) ([] @ ?xs)"
    using MAP u v(3) by (intro reads_entries) (fastforce simp: list_all_iff)+
  let ?n = "of_nat (length ?xs) :: 32 word"
  have sz: "unat ?n < max_size" using v(2) unat_size [OF v(2)] by simp
  have lib: "reads (readMapBegin L) (writeMapBegin L (ttype_of tk) (ttype_of tv) ?n) ((ttype_of tk, ttype_of tv), ?n)"
    "reads (readMapEnd L) (writeMapEnd L) ()" using L sz by (simp_all add: protocol_ok_def)
  have "reads (read_val L u (default_val u)) (writeMapBegin L (ttype_of tk) (ttype_of tv) (of_nat (length ?xs))
      @ concat (map (\<lambda>(x, y). write_val L tk x @ write_val L tv y) ?xs) @ writeMapEnd L) (VMap ([] @ ?xs))"
    unfolding u read_val.simps
    by (rule reads_bind, rule lib(1), simp add: unat_size [OF v(2)] v(3), rule reads_bind, rule xs [simplified],
        rule reads_last, rule lib(2)) simp
  then show ?case using v(1) by simp
next
  case (STRUCT n fs)
  then obtain m gs where u: "u = STRUCT m gs" by (cases u) auto
  let ?ss = "slots v"
  have len: "length gs = length fs" "length ?ss = length fs" "distinct (map field_id gs)" "v = VStruct ?ss"
    using STRUCT.prems by (simp_all add: u)
  have "slot_readable L (fs ! k) (gs ! k) (?ss ! k)" if "k < length fs" for k
  proof (rule STRUCT.IH [OF nth_mem [OF that]])
    show "compat_field (fs ! k) (gs ! k)" "fits_slot L (fs ! k) (?ss ! k)" "accepts_slot (gs ! k) (?ss ! k)"
      using that STRUCT.prems len by (simp_all add: u list_all_zip_map)
  qed
  then have "all_readable L fs gs ?ss"
    using len by (simp add: all_readable_def list_all_length case_prod_beta)
  moreover have "complete gs ?ss"
    using STRUCT.prems len by (auto simp: u complete_def list_all_zip_map list_all_length accepts_slot_eq)
  ultimately have "reads (read_struct L (map (read_field L) gs) (VStruct (map default_slot gs)))
      (writeStructBegin L n @ write_slots L fs ?ss @ writeFieldStop L @ writeStructEnd L) (VStruct ?ss)"
    by (intro reads_struct [OF L _ _ len(3)])
  then show ?case
    using len(4) by (simp add: u write_slots_def)
next
  case (Field i r t n)
  then show ?case by (intro slot_readableI) (auto simp: accepts_slot_eq split: if_splits)
qed (use L in \<open>auto simp: protocol_ok_def split: ftype.splits intro: reads_mapI\<close>)

lemma struct_readable:
  assumes L: "protocol_ok L" and c: "compat (STRUCT n fs) (STRUCT m gs)" and v: "fits L (STRUCT n fs) v"
    and slots: "\<forall>k<length gs. if fst (slots v ! k) then accepts (field_type (gs ! k)) (snd (slots v ! k))
       else snd (slots v ! k) = default_val (field_type (gs ! k))"
  shows "all_readable L fs gs (slots v)"
proof -
  have len: "length gs = length fs" "length (slots v) = length fs" using c v by simp_all
  have "slot_readable L (fs ! k) (gs ! k) (slots v ! k)" if "k < length fs" for k
    using that c v slots len by (intro slot_readableI reads_written(1) [OF L]) (simp_all add: list_all_zip_map)
  then show ?thesis using len by (simp add: all_readable_def list_all_length case_prod_beta)
qed

section \<open>Properties of the codec\<close>

text \<open>
  C6: a value written under one declaration is read back as the same value, and no byte more is
  taken, under every declaration with the same field ids and types that requires nothing the value
  lacks.
\<close>

theorem struct_round_trip:
  assumes "protocol_ok L" and "compat t u" and "fits L t v" and "accepts u v"
  shows "read_val L u (default_val u) (write_val L t v @ rest) = Some (v, of_nat (length (write_val L t v)), rest)"
  by (rule readsD) (rule reads_written(1) [OF assms])

text \<open>
  A struct that lacks a field the reader requires is refused, whatever else it holds.
\<close>

theorem missing_required_refused:
  assumes "protocol_ok L" and "compat (STRUCT n fs) (STRUCT m gs)" and "fits L (STRUCT n fs) v"
    and "\<forall>k<length gs. if fst (slots v ! k) then accepts (field_type (gs ! k)) (snd (slots v ! k))
       else snd (slots v ! k) = default_val (field_type (gs ! k))"
    and "j < length gs" "requirement (gs ! j) = Required" "\<not> fst (slots v ! j)"
  shows "read_val L (STRUCT m gs) (default_val (STRUCT m gs)) (write_val L (STRUCT n fs) v @ rest) = None"
proof -
  have "length gs = length (slots v)" "distinct (map field_id gs)" using assms(2,3) by simp_all
  moreover from this(1) have "\<not> complete gs (slots v)"
    using assms(5-7) by (auto simp: complete_def list_all_length)
  ultimately show ?thesis
    using refused_struct [OF assms(1) struct_readable [OF assms(1-4)], of n rest] by (simp add: write_slots_def)
qed

end
