(* ===== verification/ThriftCanon.thy ===== *)
theory ThriftCanon
  imports ThriftRoundTrip
begin

text \<open>
  What the encoding keeps of a value.  \<open>canon\<close> is the value a reader of the same declaration ends up
  with: unset optional fields hold their default, and every field that is written has its \<^verbatim>\<open>__isset\<close>
  bit.  It is written like the original, and \<^verbatim>\<open>operator ==\<close> does not tell them apart.
\<close>

primrec canon :: "ftype \<Rightarrow> tval \<Rightarrow> tval" and canon_slot :: "field \<Rightarrow> bool \<times> tval \<Rightarrow> bool \<times> tval" where
  "canon BOOL = (\<lambda>v. v)"
| "canon I8 = (\<lambda>v. v)"
| "canon I16 = (\<lambda>v. v)"
| "canon I32 = (\<lambda>v. v)"
| "canon I64 = (\<lambda>v. v)"
| "canon DOUBLE = (\<lambda>v. v)"
| "canon STRING = (\<lambda>v. v)"
| "canon (BINARY g) = (\<lambda>v. v)"
| "canon (LIST t) = (\<lambda>v. VList (map (canon t) (as_list v)))"
| "canon (SET g t) = (\<lambda>v. VSet (map (canon t) (as_set v)))"
| "canon (MAP tk tv) = (\<lambda>v. VMap (map (\<lambda>(x, y). (canon tk x, canon tv y)) (as_map v)))"
| "canon (STRUCT n fs) = (\<lambda>v. VStruct (map (\<lambda>(c, s). c s) (zip (map canon_slot fs) (slots v))))"
| "canon_slot (Field i r t n) =
     (\<lambda>(isset, v). if r = Optional \<and> \<not> isset then (False, default_val t) else (True, canon t v))"

lemma zip_apply:
  "map (\<lambda>(w, s). w s) (zip ws ss) = map (\<lambda>k. (ws ! k) (ss ! k)) [0..<min (length ws) (length ss)]"
  by (rule nth_equalityI) simp_all

lemma list_all2_self_map: "list_all2 P xs (map f xs) \<longleftrightarrow> (\<forall>x\<in>set xs. P x (f x))"
  by (induction xs) auto

lemma write_canon:
  "write_val L t (canon t v) = write_val L t v"
  "write_field L f (canon_slot f s) = write_field L f s"
proof (induction t and f arbitrary: v and s rule: ftype.induct field.induct)
  case (STRUCT n fs)
  show ?case
    by (simp add: zip_apply) (rule arg_cong [of _ _ concat], simp add: STRUCT)
qed (simp_all add: o_def case_prod_beta cong: map_cong)

lemma val_eq_canon:
  "val_eq L t v v \<Longrightarrow> val_eq L t v (canon t v)"
  "slot_eq L f s s \<Longrightarrow> slot_eq L f s (canon_slot f s)"
proof (induction t and f arbitrary: v and s rule: ftype.induct field.induct)
  case (STRUCT n fs)
  then show ?case by (auto simp: list_all_length zip_apply)
next
  case (Field i r t n)
  then show ?case by (cases s) (auto split: if_splits)
qed (auto simp: list_all2_self_map list_all2_same)

lemma accepts_canon:
  "accepts t (canon t v)"
  "accepts_slot f (canon_slot f s)"
proof (induction t and f arbitrary: v and s rule: ftype.induct field.induct)
  case (STRUCT n fs)
  then show ?case by (auto simp: list_all_length zip_apply)
next
  case (Field i r t n)
  then show ?case by (cases s) auto
qed (auto simp: list_all_iff)

text \<open>Two declarations of a struct: what one writes, the other accepts, field by field.\<close>

definition field_accepts :: "thrift_lib \<Rightarrow> field \<Rightarrow> field \<Rightarrow> bool" where
  "field_accepts L f g \<longleftrightarrow>
     (\<forall>s. accepts_slot g (canon_slot f s) \<and> (fits_slot L f (canon_slot f s) \<longrightarrow> fits_slot L g (canon_slot f s)))"

lemma struct_accepts:
  assumes "list_all2 (field_accepts L) fs gs"
  shows "accepts (STRUCT m gs) (canon (STRUCT n fs) v)"
    and "fits L (STRUCT n fs) (canon (STRUCT n fs) v) \<Longrightarrow> fits L (STRUCT m gs) (canon (STRUCT n fs) v)"
  using assms
  by (auto simp: list_all_length zip_apply list_all2_conv_all_nth field_accepts_def simp del: split_paired_All)

lemma read_canon:
  assumes "protocol_ok L" and "compat t u" and "fits L t (canon t v)" and "accepts u (canon t v)"
  shows "read_val L u (default_val u) (write_val L t v) = Some (canon t v, of_nat (length (write_val L t v)), [])"
  using readsD [OF reads_written(1) [OF assms], of "[]"] by (simp add: write_canon)

text \<open>The second reader reads what the first wrote back.\<close>

lemma read_back:
  assumes L: "protocol_ok L" and c: "compat (STRUCT n fs) (STRUCT m gs)" "compat (STRUCT m gs) (STRUCT n fs)"
    and fg: "list_all2 (field_accepts L) fs gs"
    and v: "fits L (STRUCT n fs) (canon (STRUCT n fs) v)" "val_eq L (STRUCT n fs) v v"
  shows "\<exists>w n1 v' n2. read_val L (STRUCT m gs) (default_val (STRUCT m gs)) (write_val L (STRUCT n fs) v) = Some (w, n1, [])
    \<and> read_val L (STRUCT n fs) (default_val (STRUCT n fs)) (write_val L (STRUCT m gs) w) = Some (v', n2, [])
    \<and> val_eq L (STRUCT n fs) v v'"
proof -
  let ?w = "canon (STRUCT n fs) v"
  have "read_val L (STRUCT m gs) (default_val (STRUCT m gs)) (write_val L (STRUCT n fs) v)
      = Some (?w, of_nat (length (write_val L (STRUCT n fs) v)), [])"
    by (rule read_canon [OF L c(1) v(1) struct_accepts(1) [OF fg]])
  moreover have "read_val L (STRUCT n fs) (default_val (STRUCT n fs)) (write_val L (STRUCT m gs) ?w @ [])
      = Some (?w, of_nat (length (write_val L (STRUCT m gs) ?w)), [])"
    by (rule readsD [OF reads_written(1) [OF L c(2) struct_accepts(2) [OF fg v(1)] accepts_canon(1)]])
  ultimately show ?thesis using val_eq_canon(1) [OF v(2)] by auto
qed

end
