(* ===== verification/WellFormed.thy ===== *)
theory WellFormed
  imports ThriftRoundTrip
begin

text \<open>
  Objects stay well-formed.  Whatever bytes arrive and whatever the protocol makes of them, a read
  that returns leaves an object of the declared type: the constructor of the type, one slot per
  field, sets and maps in strictly increasing order.  Of the protocol nothing is assumed; of the
  orders the user supplies, what \<^verbatim>\<open>std::set\<close> and \<^verbatim>\<open>std::map\<close> require of a comparison.
\<close>

section \<open>Well-formed objects\<close>

primrec well_formed :: "thrift_lib \<Rightarrow> ftype \<Rightarrow> tval \<Rightarrow> bool"
  and well_formed_slot :: "thrift_lib \<Rightarrow> field \<Rightarrow> bool \<times> tval \<Rightarrow> bool" where
  "well_formed L BOOL = (\<lambda>v. v = VBool (as_bool v))"
| "well_formed L I8 = (\<lambda>v. v = VI8 (as_i8 v))"
| "well_formed L I16 = (\<lambda>v. v = VI16 (as_i16 v))"
| "well_formed L I32 = (\<lambda>v. v = VI32 (as_i32 v))"
| "well_formed L I64 = (\<lambda>v. v = VI64 (as_i64 v))"
| "well_formed L DOUBLE = (\<lambda>v. v = VDouble (as_double v))"
| "well_formed L STRING = (\<lambda>v. v = VString (as_string v))"
| "well_formed L (BINARY g) = (\<lambda>v. v = VString (as_string v))"
| "well_formed L (LIST t) = (\<lambda>v. v = VList (as_list v) \<and> list_all (well_formed L t) (as_list v))"
| "well_formed L (SET g t) =
     (\<lambda>v. v = VSet (as_set v) \<and> sorted_wrt (strictly_less L) (as_set v) \<and> list_all (well_formed L t) (as_set v))"
| "well_formed L (MAP tk tv) =
     (\<lambda>v. v = VMap (as_map v) \<and> sorted_wrt (strictly_less L) (map fst (as_map v))
          \<and> list_all (\<lambda>(x, y). well_formed L tk x \<and> well_formed L tv y) (as_map v))"
| "well_formed L (STRUCT n fs) =
     (\<lambda>v. v = VStruct (slots v) \<and> length fs = length (slots v)
          \<and> list_all (\<lambda>(ok, s). ok s) (zip (map (well_formed_slot L) fs) (slots v)))"
| "well_formed_slot L (Field i r t n) = (\<lambda>(isset, v). well_formed L t v \<and> (r = Required \<longrightarrow> isset))"

definition ordering :: "thrift_lib \<Rightarrow> bool" where
  "ordering L \<longleftrightarrow> asymp (user_less L) \<and> transp (user_less L)"

lemma well_formed_slot_iff:
  "well_formed_slot L f s \<longleftrightarrow> well_formed L (field_type f) (snd s) \<and> (requirement f = Required \<longrightarrow> fst s)"
  by (cases f; cases s) simp

lemma well_formed_struct [simp]:
  "well_formed L (STRUCT n fs) v \<longleftrightarrow> v = VStruct (slots v) \<and> list_all2 (well_formed_slot L) fs (slots v)"
  by (auto simp: list_all2_iff list_all_iff zip_map1)

declare well_formed.simps(12) [simp del]

section \<open>Orders\<close>

lemma string_less_trans: "string_less xs ys \<Longrightarrow> string_less ys zs \<Longrightarrow> string_less xs zs"
proof (induction xs ys arbitrary: zs rule: string_less.induct)
  case (2 y ys)
  then show ?case by (cases zs) auto
next
  case (3 x xs y ys)
  then show ?case by (cases zs) auto
qed simp

lemma string_less_asym: "string_less xs ys \<Longrightarrow> \<not> string_less ys xs"
  by (induction xs ys rule: string_less.induct) auto

text \<open>On objects of one type, \<open>val_less\<close> is the order of that type.\<close>

definition type_less :: "thrift_lib \<Rightarrow> ftype \<Rightarrow> tval \<Rightarrow> tval \<Rightarrow> bool" where
  "type_less L t v w =
     (case t of
        BOOL \<Rightarrow> \<not> as_bool v \<and> as_bool w
      | I8 \<Rightarrow> sint (as_i8 v) < sint (as_i8 w)
      | I16 \<Rightarrow> sint (as_i16 v) < sint (as_i16 w)
      | I32 \<Rightarrow> sint (as_i32 v) < sint (as_i32 w)
      | I64 \<Rightarrow> sint (as_i64 v) < sint (as_i64 w)
      | STRING \<Rightarrow> string_less (as_string v) (as_string w)
      | BINARY g \<Rightarrow> string_less (as_string v) (as_string w)
      | _ \<Rightarrow> user_less L v w)"

lemma val_less_type: "well_formed L t v \<Longrightarrow> val_less L v w = type_less L t v w"
  by (cases t; cases v) (simp_all add: val_less_def type_less_def)

lemma val_less_asym:
  assumes "ordering L" "well_formed L t v" "well_formed L t w" "val_less L v w"
  shows "\<not> val_less L w v"
  using assms(1,4) unfolding val_less_type [OF assms(2)] val_less_type [OF assms(3)]
  by (auto simp: type_less_def ordering_def string_less_asym dest: asympD split: ftype.splits)

lemma val_less_trans:
  assumes "ordering L" "well_formed L t u" "well_formed L t v" "val_less L u v" "val_less L v w"
  shows "val_less L u w"
  using assms(1,4,5) unfolding val_less_type [OF assms(2)] val_less_type [OF assms(3)]
  by (auto simp: type_less_def ordering_def intro: string_less_trans dest: transpD split: ftype.splits)

lemma set_insert_increasing:
  assumes L: "ordering L" and x: "well_formed L t x" and xs: "list_all (well_formed L t) xs" "sorted_wrt (strictly_less L) xs"
  shows "sorted_wrt (strictly_less L) (set_insert (val_less L) x xs) \<and> list_all (well_formed L t) (set_insert (val_less L) x xs)"
  using xs
proof (induction xs)
  case (Cons a xs)
  then have a: "well_formed L t a" and xs: "list_all (well_formed L t) xs" "\<forall>b\<in>set xs. strictly_less L a b" by simp_all
  have IH: "sorted_wrt (strictly_less L) (set_insert (val_less L) x xs)" "list_all (well_formed L t) (set_insert (val_less L) x xs)"
    using Cons by simp_all
  consider "val_less L x a" | "\<not> val_less L x a" "val_less L a x" | "\<not> val_less L x a" "\<not> val_less L a x" by blast
  then show ?case
  proof cases
    case 1
    then have "val_less L x b" if "b \<in> set xs" for b
      using that xs val_less_trans [OF L x a, of b] by (simp add: strictly_less_def)
    with 1 have "\<forall>b\<in>set (a # xs). strictly_less L x b"
      using a xs val_less_asym [OF L x] by (simp add: strictly_less_def list_all_iff)
    with 1 Cons.prems x show ?thesis by simp
  next
    case 2
    then have "\<forall>b\<in>set (set_insert (val_less L) x xs). strictly_less L a b"
      using xs set_insert_subset [of "val_less L" x xs] by (auto simp: strictly_less_def)
    with 2 IH a show ?thesis by simp
  next
    case 3
    with Cons.prems show ?thesis by simp
  qed
qed (simp add: x)

lemma map_store_increasing:
  assumes L: "ordering L" and x: "well_formed L t x" and m: "list_all (well_formed L t) (map fst m)" "sorted_wrt (strictly_less L) (map fst m)"
  shows "sorted_wrt (strictly_less L) (map fst (map_store (val_less L) x y m))
    \<and> list_all (well_formed L t) (map fst (map_store (val_less L) x y m))"
proof -
  have "map fst (map_store lt x y m) = set_insert lt x (map fst m)" for lt :: "tval \<Rightarrow> tval \<Rightarrow> bool"
    by (induction m) auto
  then show ?thesis using set_insert_increasing [OF L x m] by simp
qed

section \<open>What a reader yields\<close>

definition yields :: "('a \<Rightarrow> bool) \<Rightarrow> 'a reader \<Rightarrow> bool" where
  "yields P r \<longleftrightarrow> (\<forall>bs x n rest. r bs = Some (x, n, rest) \<longrightarrow> P x)"

lemma yields_return [intro]: "P x \<Longrightarrow> yields P (returnT x)"
  by (simp add: yields_def returnT_def)

lemma yields_throw [intro]: "yields P throwT"
  by (simp add: yields_def throwT_def)

lemma yields_any [intro]: "yields (\<lambda>_. True) r"
  by (simp add: yields_def)

lemma yields_bind: "yields Q r \<Longrightarrow> (\<And>x. Q x \<Longrightarrow> yields P (k x)) \<Longrightarrow> yields P (bindT r k)"
  unfolding yields_def bindT_def by (fastforce split: option.splits)

lemmas yields_then = yields_bind [where Q = "\<lambda>_. True", OF yields_any]

lemma yields_map: "yields Q r \<Longrightarrow> (\<And>x. Q x \<Longrightarrow> P (f x)) \<Longrightarrow> yields P (mapT f r)"
  unfolding mapT_def by (erule yields_bind) auto

lemmas yields_map_any = yields_map [where Q = "\<lambda>_. True", OF yields_any]

lemma yields_length: "(\<And>n. yields P (r n)) \<Longrightarrow> yields P (\<lambda>bs. r (Suc (length bs)) bs)"
  by (simp add: yields_def)

lemma yields_times: "yields P r \<Longrightarrow> yields (list_all P) (read_times n r)"
  by (induction n) (auto intro!: yields_bind)

text \<open>The entries of a map, each read into the value the map has for its key.\<close>

definition map_ok :: "thrift_lib \<Rightarrow> ftype \<Rightarrow> ftype \<Rightarrow> (tval \<times> tval) list \<Rightarrow> bool" where
  "map_ok L tk tv m \<longleftrightarrow>
     sorted_wrt (strictly_less L) (map fst m) \<and> list_all (well_formed L tk) (map fst m) \<and> list_all (well_formed L tv) (map snd m)"

lemma map_lookup_ok: "map_lookup lt x m = Some y \<Longrightarrow> list_all P (map snd m) \<Longrightarrow> P y"
  by (induction m) (auto split: if_splits)

lemma map_store_ok:
  assumes "ordering L" "well_formed L tk x" "well_formed L tv y" "map_ok L tk tv m"
  shows "map_ok L tk tv (map_store (val_less L) x y m)"
proof -
  have "list_all P (map snd m) \<Longrightarrow> P y \<Longrightarrow> list_all P (map snd (map_store (val_less L) x y m))" for P
    by (induction m) auto
  then show ?thesis using map_store_increasing [OF assms(1,2), of m y] assms by (simp add: map_ok_def)
qed

lemma yields_entries:
  assumes L: "ordering L" and key: "yields (well_formed L tk) rk" and d: "well_formed L tv d"
    and val: "\<And>v. well_formed L tv v \<Longrightarrow> yields (well_formed L tv) (rv v)"
  shows "map_ok L tk tv m \<Longrightarrow> yields (map_ok L tk tv) (read_entries (val_less L) rk rv d n m)"
proof (induction n arbitrary: m)
  case (Suc n)
  have "well_formed L tv (case map_lookup (val_less L) x m of None \<Rightarrow> d | Some y \<Rightarrow> y)" for x
    using Suc.prems d map_lookup_ok [of "val_less L" x m _ "well_formed L tv"] by (auto simp: map_ok_def split: option.split)
  then show ?case
    using Suc by (auto intro!: yields_bind [OF key] yields_bind [OF val] map_store_ok [OF L])
qed auto

section \<open>Structs\<close>

definition slots_ok :: "thrift_lib \<Rightarrow> field list \<Rightarrow> (bool \<times> tval) list \<Rightarrow> bool" where
  "slots_ok L fs ss \<longleftrightarrow> list_all2 (\<lambda>f s. well_formed L (field_type f) (snd s)) fs ss"

definition field_reads :: "thrift_lib \<Rightarrow> field \<Rightarrow> bool" where
  "field_reads L f \<longleftrightarrow>
     (\<forall>v. well_formed L (field_type f) v \<longrightarrow> yields (well_formed L (field_type f)) (read_val L (field_type f) v))"

lemma yields_case:
  assumes "list_all (field_reads L) fs" "slots_ok L fs ss"
  shows "yields (slots_ok L fs) (read_case L (map (read_field L) fs) ss fid ft)"
  using assms(2,1) unfolding slots_ok_def
proof (induction rule: list_all2_induct)
  case (Cons f fs s ss)
  obtain seen v where s: "s = (seen, v)" by (cases s)
  then have v: "yields (well_formed L (field_type f)) (read_val L (field_type f) v)"
    using Cons by (simp add: field_reads_def)
  have rest: "yields (list_all2 (\<lambda>f s. well_formed L (field_type f) (snd s)) (f # fs))
      (mapT ((#) (seen, v)) (read_case L (map (read_field L) fs) ss fid ft))"
    by (rule yields_map [OF Cons.IH]) (use Cons s in simp_all)
  show ?case
    using Cons rest by (auto simp: s read_field_eq [of L f] intro: yields_map [OF v] yields_map_any)
qed (auto intro: yields_map_any)

lemma yields_fields:
  assumes "list_all (field_reads L) fs"
  shows "slots_ok L fs ss \<Longrightarrow> yields (slots_ok L fs) (read_fields L (map (read_field L) fs) n ss)"
proof (induction n arbitrary: ss)
  case (Suc n)
  have "yields (slots_ok L fs) (bindT (read_case L (map (read_field L) fs) ss fid ft) (\<lambda>ss'.
      bindT (readFieldEnd L) (\<lambda>_. read_fields L (map (read_field L) fs) n ss')))" for ft fid
    by (rule yields_bind [OF yields_case [OF assms Suc.prems]]) (rule yields_then, rule Suc.IH)
  then show ?case using Suc.prems by (auto intro!: yields_then)
qed auto

lemma finish_ok:
  assumes "list_all2 (well_formed_slot L) fs old" "slots_ok L fs new"
  shows "list_all2 (well_formed_slot L) fs (finish_slots old new)"
  using assms by (auto simp: list_all2_conv_all_nth slots_ok_def finish_slots_def well_formed_slot_iff split: prod.split)

lemma yields_struct:
  assumes fs: "list_all (field_reads L) fs" and cur: "list_all2 (well_formed_slot L) fs (slots cur)"
  shows "yields (well_formed L (STRUCT n fs)) (read_struct L (map (read_field L) fs) cur)"
proof -
  have start: "slots_ok L fs (map (\<lambda>(isset, v). (False, v)) (slots cur))"
    using cur by (auto simp: slots_ok_def list_all2_conv_all_nth well_formed_slot_iff split: prod.split)
  note fields = yields_length [of "slots_ok L fs" "\<lambda>n. read_fields L (map (read_field L) fs) n (map (\<lambda>(isset, v). (False, v)) (slots cur))",
      OF yields_fields [OF fs start]]
  show ?thesis
    unfolding read_struct_def
  proof (rule yields_then, rule yields_bind [OF fields], rule yields_then)
    fix ss assume "slots_ok L fs ss"
    from finish_ok [OF cur this] show "yields (well_formed L (STRUCT n fs))
        (if missing_required (map (read_field L) fs) ss then throwT else returnT (VStruct (finish_slots (slots cur) ss)))"
      by auto
  qed
qed

section \<open>All types\<close>

lemma set_read_ok:
  assumes L: "ordering L"
  shows "list_all (well_formed L t) xs \<Longrightarrow> list_all (well_formed L t) s \<Longrightarrow> sorted_wrt (strictly_less L) s
    \<Longrightarrow> well_formed L (SET g t) (VSet (foldl (\<lambda>s x. set_insert (val_less L) x s) s xs))"
proof (induction xs arbitrary: s)
  case (Cons x xs)
  then show ?case using set_insert_increasing [OF L, of t x s] by simp
qed simp

lemma map_ok_iff: "map_ok L tk tv m \<longleftrightarrow> well_formed L (MAP tk tv) (VMap m)"
  by (auto simp: map_ok_def list_all_iff)

lemma default_ok: "well_formed L t (default_val t)" "well_formed_slot L f (default_slot f)"
proof (induction t and f rule: ftype.induct field.induct)
  case (STRUCT n fs)
  then show ?case by (simp add: list_all2_map2 list_all2_same)
qed simp_all

lemma yields_list:
  assumes "yields (well_formed L t) (read_val L t (default_val t))"
  shows "yields (well_formed L (LIST t)) (read_val L (LIST t) v)"
proof -
  have "yields (well_formed L (LIST t)) (bindT (read_times n (read_val L t (default_val t))) (\<lambda>xs.
      bindT (readListEnd L) (\<lambda>_. returnT (VList xs))))" for n
    by (rule yields_bind [OF yields_times [OF assms]]) (auto intro!: yields_then)
  then show ?thesis unfolding read_val.simps by (intro yields_then) (auto simp del: well_formed.simps)
qed

lemma yields_set:
  assumes L: "ordering L" and t: "yields (well_formed L t) (read_val L t (default_val t))"
    and v: "well_formed L (SET g t) v"
  shows "yields (well_formed L (SET g t)) (read_val L (SET g t) v)"
proof -
  from v have start: "list_all (well_formed L t) (if g then [] else as_set v)" "sorted_wrt (strictly_less L) (if g then [] else as_set v)"
    by auto
  have "yields (well_formed L (SET g t)) (bindT (read_times n (read_val L t (default_val t))) (\<lambda>xs.
      bindT (readSetEnd L) (\<lambda>_. returnT (VSet (foldl (\<lambda>s x. set_insert (val_less L) x s) (if g then [] else as_set v) xs)))))" for n
    by (rule yields_bind [OF yields_times [OF t]], rule yields_then, rule yields_return) (rule set_read_ok [OF L _ start])
  then show ?thesis unfolding read_val.simps by (intro yields_then) (auto simp del: well_formed.simps)
qed

lemma yields_map_type:
  assumes L: "ordering L" and tk: "yields (well_formed L tk) (read_val L tk (default_val tk))"
    and tv: "\<And>v. well_formed L tv v \<Longrightarrow> yields (well_formed L tv) (read_val L tv v)"
  shows "yields (well_formed L (MAP tk tv)) (read_val L (MAP tk tv) v)"
proof -
  have "map_ok L tk tv []" by (simp add: map_ok_def)
  note entries = yields_entries [OF L tk default_ok(1) tv this]
  have "yields (well_formed L (MAP tk tv)) (bindT (read_entries (val_less L) (read_val L tk (default_val tk)) (read_val L tv)
      (default_val tv) n []) (\<lambda>m. bindT (readMapEnd L) (\<lambda>_. returnT (VMap m))))" for n
    by (rule yields_bind [OF entries], assumption, rule yields_then, rule yields_return) (simp only: map_ok_iff)
  then show ?thesis unfolding read_val.simps by (intro yields_then) (auto simp del: well_formed.simps)
qed

lemma yields_val:
  assumes L: "ordering L"
  shows "\<forall>v. well_formed L t v \<longrightarrow> yields (well_formed L t) (read_val L t v)" "field_reads L f"
proof (induction t and f rule: ftype.induct field.induct)
  case (LIST t)
  then show ?case using default_ok yields_list by blast
next
  case (SET g t)
  then show ?case using default_ok yields_set [OF L] by blast
next
  case (MAP tk tv)
  then show ?case using default_ok yields_map_type [OF L] by blast
next
  case (STRUCT n fs)
  then have "list_all (field_reads L) fs" by (simp add: list_all_iff)
  from yields_struct [OF this] show ?case unfolding read_val.simps by (meson well_formed_struct)
qed (auto simp: field_reads_def intro: yields_map_any)


end
