(* ===== verification/DemoApi.thy ===== *)
theory DemoApi
  imports ThriftCanon WellFormed Types
begin

text \<open>
  The structs of \<^verbatim>\<open>demo/demo_service.api\<close> and those the thrift compiler made of the same API
  (\<^verbatim>\<open>demo/gen1\<close>), as the declarations \<open>read_val\<close> and \<open>write_val\<close> take; the order of \<^verbatim>\<open>EmbeddedStruct\<close>;
  a protocol to run them on; and what of a value survives the way from one to the other.
\<close>

section \<open>The declarations\<close>

text \<open>\<^verbatim>\<open>demo_service.api\<close>.\<close>

definition SingleOptionalFieldStruct :: "field list" where
  "SingleOptionalFieldStruct = [Field 1 Optional I16 ''value'', Field 2 Required I64 ''value64'']"

definition EmbeddedStruct :: "field list" where
  "EmbeddedStruct = [Field 1 Required I8 ''es_i8'', Field 2 Optional I16 ''es_i16'']"

abbreviation EMBEDDED :: ftype where
  "EMBEDDED \<equiv> STRUCT ''EmbeddedStruct'' EmbeddedStruct"

definition demo_ResponseData :: "field list" where
  "demo_ResponseData =
     [Field 1 Required I32 ''pet_id'',
      Field 2 Required STRING ''pet_name'',
      Field 3 Required I32 ''pet_weight'',
      Field 4 Required I8 ''pet_i8_value'',
      Field 5 Required I16 ''pet_i16_value'',
      Field 6 Required I64 ''pet_i64_value'',
      Field 7 Required DOUBLE ''pet_double_value'',
      Field 8 Required BOOL ''pet_bool_value'',
      Field 9 Required (BINARY False) ''pet_binary_value'',
      Field 10 Required EMBEDDED ''pet_embedded_struct'',
      Field 11 Required (LIST I32) ''pet_list_i32'',
      Field 12 Required (LIST EMBEDDED) ''pet_list_of_struct'',
      Field 13 Optional (LIST BOOL) ''pet_list_of_bool'',
      Field 14 Optional (SET False I32) ''pet_set_of_i32'',
      Field 15 Optional (SET False EMBEDDED) ''pet_set_of_struct'',
      Field 16 Optional (MAP I32 STRING) ''pet_map_i32_string'',
      Field 17 Optional (MAP STRING EMBEDDED) ''pet_map_string_struct'']"

definition RequestFoo :: "field list" where
  "RequestFoo = [Field 1 Required I32 ''reqa'', Field 2 Optional I32 ''reqb'']"

definition ResponseBar :: "field list" where
  "ResponseBar = [Field 1 Required I32 ''rspa'', Field 2 Optional I32 ''rspb'']"

text \<open>
  \<^verbatim>\<open>gen1\<close>: the two small structs are declared as above; no field of \<^verbatim>\<open>ResponseData\<close> has a qualifier.
\<close>

definition gen_ResponseData :: "field list" where
  "gen_ResponseData =
     [Field 1 Default I32 ''pet_id'',
      Field 2 Default STRING ''pet_name'',
      Field 3 Default I32 ''pet_weight'',
      Field 4 Default I8 ''pet_i8_value'',
      Field 5 Default I16 ''pet_i16_value'',
      Field 6 Default I64 ''pet_i64_value'',
      Field 7 Default DOUBLE ''pet_double_value'',
      Field 8 Default BOOL ''pet_bool_value'',
      Field 9 Default (BINARY True) ''pet_binary_value'',
      Field 10 Default EMBEDDED ''pet_embedded_struct'',
      Field 11 Default (LIST I32) ''pet_list_i32'',
      Field 12 Default (LIST EMBEDDED) ''pet_list_of_struct'',
      Field 13 Default (LIST BOOL) ''pet_list_of_bool'',
      Field 14 Default (SET True I32) ''pet_set_of_i32'',
      Field 15 Default (SET True EMBEDDED) ''pet_set_of_struct'',
      Field 16 Default (MAP I32 STRING) ''pet_map_i32_string'',
      Field 17 Default (MAP STRING EMBEDDED) ''pet_map_string_struct'']"

text \<open>\<^verbatim>\<open>operator<\<close> of \<^verbatim>\<open>EmbeddedStruct\<close>, which looks at \<^verbatim>\<open>es_i16\<close> whether it is set or not.\<close>

definition EmbeddedStruct_less :: "tval \<Rightarrow> tval \<Rightarrow> bool" where
  "EmbeddedStruct_less v w =
     (let a = sint (as_i8 (snd (slots v ! 0))); b = sint (as_i8 (snd (slots w ! 0)));
          c = sint (as_i16 (snd (slots v ! 1))); d = sint (as_i16 (snd (slots w ! 1)))
      in if a < b then True else if a > b then False else c < d)"

section \<open>A protocol\<close>

text \<open>
  A protocol in the layout of thrift's binary one, with which the theorems can be run.  Its \<open>skip\<close>
  knows the scalars and strings only.
\<close>

definition take_bytes :: "nat \<Rightarrow> bytes reader" where
  "take_bytes n = (\<lambda>bs. if length bs < n then None else Some (take n bs, of_nat n, drop n bs))"

lemma reads_take_bytes: "length out = n \<Longrightarrow> reads (take_bytes n) out out"
  by (simp add: reads_def take_bytes_def)

definition read16 :: "16 word reader" where
  "read16 = mapT (\<lambda>bs. un16 (bs ! 1) (bs ! 0)) (take_bytes 2)"

definition read32 :: "32 word reader" where
  "read32 = mapT (\<lambda>bs. un32 (bs ! 3) (bs ! 2) (bs ! 1) (bs ! 0)) (take_bytes 4)"

definition read64 :: "64 word reader" where
  "read64 = mapT (\<lambda>bs. un64 (rev bs)) (take_bytes 8)"

definition read8 :: "byte reader" where
  "read8 = mapT (\<lambda>bs. bs ! 0) (take_bytes 1)"

fun code_of :: "ttype \<Rightarrow> byte" where
  "code_of T_STOP = 0" | "code_of T_BOOL = 2" | "code_of T_BYTE = 3" | "code_of T_DOUBLE = 4"
| "code_of T_I16 = 6" | "code_of T_I32 = 8" | "code_of T_I64 = 10" | "code_of T_STRING = 11"
| "code_of T_STRUCT = 12" | "code_of T_MAP = 13" | "code_of T_SET = 14" | "code_of T_LIST = 15"
| "code_of (T_OTHER b) = b"

definition ttype_of_code :: "byte \<Rightarrow> ttype" where
  "ttype_of_code b =
     (case List.find (\<lambda>t. code_of t = b)
        [T_STOP, T_BOOL, T_BYTE, T_I16, T_I32, T_I64, T_DOUBLE, T_STRING, T_STRUCT, T_MAP, T_SET, T_LIST]
      of Some t \<Rightarrow> t | None \<Rightarrow> T_OTHER b)"

definition read_field_header :: "(ttype \<times> 16 word) reader" where
  "read_field_header =
     bindT read8 (\<lambda>b. if b = 0 then returnT (T_STOP, 0) else mapT (Pair (ttype_of_code b)) read16)"

definition read_size :: "32 word reader" where
  "read_size = bindT read32 (\<lambda>n. if unat n < max_size then returnT n else throwT)"

definition read_string :: "bytes reader" where
  "read_string = bindT read_size (\<lambda>n. take_bytes (unat n))"

definition read_list_header :: "(ttype \<times> 32 word) reader" where
  "read_list_header = bindT (mapT ttype_of_code read8) (\<lambda>t. mapT (Pair t) read_size)"

definition read_map_header :: "((ttype \<times> ttype) \<times> 32 word) reader" where
  "read_map_header =
     bindT (mapT ttype_of_code read8) (\<lambda>k. bindT (mapT ttype_of_code read8) (\<lambda>t. mapT (Pair (k, t)) read_size))"

fun skip_scalar :: "ttype \<Rightarrow> unit reader" where
  "skip_scalar T_BOOL = mapT (\<lambda>_. ()) read8"
| "skip_scalar T_BYTE = mapT (\<lambda>_. ()) read8"
| "skip_scalar T_I16 = mapT (\<lambda>_. ()) read16"
| "skip_scalar T_I32 = mapT (\<lambda>_. ()) read32"
| "skip_scalar T_I64 = mapT (\<lambda>_. ()) read64"
| "skip_scalar T_DOUBLE = mapT (\<lambda>_. ()) read64"
| "skip_scalar T_STRING = mapT (\<lambda>_. ()) read_string"
| "skip_scalar _ = throwT"

text \<open>\<^verbatim>\<open>==\<close> of doubles: no \<open>NaN\<close> is equal to anything, and the two zeros are equal.\<close>

definition is_nan :: "64 word \<Rightarrow> bool" where
  "is_nan w = (0x7FF0000000000000 < and w 0x7FFFFFFFFFFFFFFF)"

definition ieee_eq :: "64 word \<Rightarrow> 64 word \<Rightarrow> bool" where
  "ieee_eq v w = (\<not> is_nan v \<and> \<not> is_nan w \<and> (v = w \<or> and (or v w) 0x7FFFFFFFFFFFFFFF = 0))"

definition sample_lib :: thrift_lib where
  "sample_lib =
     \<lparr>writeStructBegin = (\<lambda>n. []), readStructBegin = returnT (), writeStructEnd = [], readStructEnd = returnT (),
      writeFieldBegin = (\<lambda>n t i. code_of t # rev (le16 i)), writeFieldStop = [0], readFieldBegin = read_field_header,
      writeFieldEnd = [], readFieldEnd = returnT (),
      writeBool = (\<lambda>b. [if b then 1 else 0]), readBool = mapT (\<lambda>b. b \<noteq> 0) read8,
      writeByte = (\<lambda>w. [w]), readByte = read8,
      writeI16 = (\<lambda>w. rev (le16 w)), readI16 = read16, writeI32 = (\<lambda>w. rev (le32 w)), readI32 = read32,
      writeI64 = (\<lambda>w. rev (le64 w)), readI64 = read64, writeDouble = (\<lambda>w. rev (le64 w)), readDouble = read64,
      writeString = (\<lambda>s. rev (le32 (of_nat (length s))) @ s), readString = read_string,
      writeBinary = (\<lambda>s. rev (le32 (of_nat (length s))) @ s), readBinary = read_string,
      writeListBegin = (\<lambda>t n. code_of t # rev (le32 n)), readListBegin = read_list_header,
      writeListEnd = [], readListEnd = returnT (),
      writeSetBegin = (\<lambda>t n. code_of t # rev (le32 n)), readSetBegin = read_list_header,
      writeSetEnd = [], readSetEnd = returnT (),
      writeMapBegin = (\<lambda>k t n. code_of k # code_of t # rev (le32 n)), readMapBegin = read_map_header,
      writeMapEnd = [], readMapEnd = returnT (),
      skip = skip_scalar, resize_ok = (\<lambda>n. True), user_less = EmbeddedStruct_less, double_eq = ieee_eq\<rparr>"

lemma reads8: "reads read8 [b] b"
  using reads_map [OF reads_take_bytes [of "[b]"], of 1 "\<lambda>bs. bs ! 0"] by (simp add: read8_def)

lemma reads16: "reads read16 (rev (le16 w)) w"
  using reads_map [OF reads_take_bytes [of "rev (le16 w)" 2], of "\<lambda>bs. un16 (bs ! 1) (bs ! 0)"]
  by (simp add: read16_def le16_def numeral_2_eq_2 un16_le16)

lemma reads32: "reads read32 (rev (le32 w)) w"
  using reads_map [OF reads_take_bytes [of "rev (le32 w)" 4], of "\<lambda>bs. un32 (bs ! 3) (bs ! 2) (bs ! 1) (bs ! 0)"]
  by (simp add: read32_def le32_def un32_le32 numeral_3_eq_3 numeral_2_eq_2)

lemma reads64: "reads read64 (rev (le64 w)) w"
  using reads_map [OF reads_take_bytes [of "rev (le64 w)" 8], of "\<lambda>bs. un64 (rev bs)"]
  by (simp add: read64_def)

lemma reads_size: "unat n < max_size \<Longrightarrow> reads read_size (rev (le32 n)) n"
  using reads_bind [OF reads32 [of n], of "\<lambda>n. if unat n < max_size then returnT n else throwT" "[]" n]
  by (simp add: read_size_def reads_return)

lemma reads_string: "length s < max_size \<Longrightarrow> reads read_string (rev (le32 (of_nat (length s))) @ s) s"
  unfolding read_string_def
  by (rule reads_bind [OF reads_size]) (simp_all add: unat_size reads_take_bytes)

lemma code_not_0 [simp]: "code_of (ttype_of t) \<noteq> 0"
  by (cases t) simp_all

lemma ttype_of_code_of [simp]: "ttype_of_code (code_of (ttype_of t)) = ttype_of t"
  by (cases t) (simp_all add: ttype_of_code_def)

lemma reads_ttype: "reads (mapT ttype_of_code read8) [code_of (ttype_of t)] (ttype_of t)"
  using reads_map [OF reads8, of ttype_of_code "code_of (ttype_of t)"] by simp

lemma reads_cons: "reads r [b] x \<Longrightarrow> reads (k x) out y \<Longrightarrow> reads (bindT r k) (b # out) y"
  using reads_bind [of r "[b]" x k out y] by simp

lemma sample_protocol_ok: "protocol_ok sample_lib"
  unfolding protocol_ok_def sample_lib_def thrift_lib.simps
  by (intro conjI allI impI)
    (auto simp: reads_return reads8 reads16 reads32 reads64 reads_string read_field_header_def read_list_header_def
       read_map_header_def reads_size intro!: reads_cons [OF reads8] reads_cons [OF reads_ttype] reads_mapI
       reads_mapI [OF _ reads8] exI [of _ 0])

section \<open>From one declaration to the other\<close>

abbreviation GEN_DATA :: ftype where
  "GEN_DATA \<equiv> STRUCT ''ResponseData'' gen_ResponseData"

abbreviation DEMO_DATA :: ftype where
  "DEMO_DATA \<equiv> STRUCT ''ResponseData'' demo_ResponseData"

lemma field_accepts_default:
  "(\<And>v. accepts u (canon t v)) \<Longrightarrow> (\<And>v. fits L t (canon t v) \<Longrightarrow> fits L u (canon t v))
   \<Longrightarrow> field_accepts L (Field i Default t n) (Field j r u m)"
  by (auto simp: field_accepts_def)

lemma gen_to_demo: "list_all2 (field_accepts L) gen_ResponseData demo_ResponseData"
proof -
  have "field_accepts L (Field i Default t n) (Field j r t m)" for i j t r n m
    by (rule field_accepts_default [OF accepts_canon(1)])
  moreover have "field_accepts L (Field i Default (SET g t) n) (Field j r (SET g' t) m)" for i j g g' t r n m
    by (rule field_accepts_default) (use accepts_canon(1) [of t] in \<open>auto simp: list_all_iff\<close>)
  moreover have "field_accepts L (Field i Default (BINARY g) n) (Field j r (BINARY g') m)" for i j g g' r n m
    by (rule field_accepts_default) simp_all
  ultimately show ?thesis by (simp add: gen_ResponseData_def demo_ResponseData_def)
qed

lemma compat_data: "compat GEN_DATA DEMO_DATA" "compat DEMO_DATA GEN_DATA"
  by (simp_all add: gen_ResponseData_def demo_ResponseData_def EmbeddedStruct_def)

text \<open>The values of \<^verbatim>\<open>test_complex_data_types\<close>: no \<^verbatim>\<open>__isset\<close> bit of them is set.\<close>

definition embedded :: "8 word \<Rightarrow> 16 word \<Rightarrow> tval" where
  "embedded a b = VStruct [(True, VI8 a), (False, VI16 b)]"

definition test_data :: tval where
  "test_data = VStruct (map (Pair False)
     [VI32 11, VString (map (of_nat \<circ> of_char) ''pet_name_foo''), VI32 32, VI8 8, VI16 16, VI64 64,
      VDouble 0x400A666666666666, VBool True, VString (map (of_nat \<circ> of_char) ''abcd''), embedded 99 1616,
      VList [VI32 9, VI32 10], VList [embedded 97 116, embedded 98 216],
      VList [VBool True, VBool False, VBool True], VSet [VI32 100, VI32 101, VI32 102],
      VSet [embedded 97 116, embedded 98 216],
      VMap [(VI32 200, VString (map (of_nat \<circ> of_char) ''hello'')), (VI32 201, VString (map (of_nat \<circ> of_char) ''world''))],
      VMap [(VString (map (of_nat \<circ> of_char) ''bar''), embedded 98 216), (VString (map (of_nat \<circ> of_char) ''foo''), embedded 97 116)]])"

lemma test_data_fits: "fits sample_lib GEN_DATA (canon GEN_DATA test_data)"
  by (simp add: test_data_def gen_ResponseData_def EmbeddedStruct_def embedded_def sample_lib_def max_size_def
      strictly_less_def val_less_def EmbeddedStruct_less_def)

lemma test_data_eq: "val_eq sample_lib GEN_DATA test_data test_data"
  by (simp add: test_data_def gen_ResponseData_def EmbeddedStruct_def embedded_def sample_lib_def ieee_eq_def is_nan_def)

text \<open>
  C13: an object of the class the thrift compiler made, decoded by the class of \<^verbatim>\<open>demo_service.api\<close>,
  encoded by it again and decoded by the first, is equal to the original, whichever \<^verbatim>\<open>__isset\<close> bits
  it had, if its sets and maps of structs keep their order without the unset fields.
\<close>

theorem gen_and_demo_agree:
  assumes "protocol_ok L" and "fits L GEN_DATA (canon GEN_DATA v)" and "val_eq L GEN_DATA v v"
  shows "\<exists>w n1 v' n2. read_val L DEMO_DATA (default_val DEMO_DATA) (write_val L GEN_DATA v) = Some (w, n1, [])
    \<and> read_val L GEN_DATA (default_val GEN_DATA) (write_val L DEMO_DATA w) = Some (v', n2, [])
    \<and> val_eq L GEN_DATA v v'"
  by (rule read_back [OF assms(1) compat_data gen_to_demo assms(2,3)])

theorem gen_and_demo_agree_witness:
  "\<exists>w n1 v' n2. read_val sample_lib DEMO_DATA (default_val DEMO_DATA) (write_val sample_lib GEN_DATA test_data) = Some (w, n1, [])
    \<and> read_val sample_lib GEN_DATA (default_val GEN_DATA) (write_val sample_lib DEMO_DATA w) = Some (v', n2, [])
    \<and> val_eq sample_lib GEN_DATA test_data v'"
  by (rule gen_and_demo_agree [OF sample_protocol_ok test_data_fits test_data_eq])

text \<open>
  The other way round this fails.  The compiler's class writes its fields unset or not, so an
  optional field that an object of \<^verbatim>\<open>demo_service.api\<close> lacks comes back as set and empty, and the
  objects are not equal.
\<close>

theorem unset_fields_gained:
  assumes L: "protocol_ok L" and "resize_ok L 0"
  shows "\<exists>w n1 v' n2. read_val L GEN_DATA (default_val GEN_DATA) (write_val L DEMO_DATA (default_val DEMO_DATA)) = Some (w, n1, [])
    \<and> read_val L DEMO_DATA (default_val DEMO_DATA) (write_val L GEN_DATA w) = Some (v', n2, [])
    \<and> \<not> val_eq L DEMO_DATA (default_val DEMO_DATA) v'"
proof -
  let ?d = "default_val DEMO_DATA" let ?w = "canon DEMO_DATA ?d" let ?v = "canon GEN_DATA ?w"
  note data = gen_ResponseData_def demo_ResponseData_def EmbeddedStruct_def max_size_def
  have ok: "fits L DEMO_DATA ?w" "accepts GEN_DATA ?w" "fits L GEN_DATA ?v" "accepts DEMO_DATA ?v"
    using assms(2) by (simp_all add: data)
  have "\<not> val_eq L DEMO_DATA ?d ?v" by (simp add: data)
  then show ?thesis
    using read_canon [OF L compat_data(2) ok(1,2)] read_canon [OF L compat_data(1) ok(3,4)] by blast
qed

theorem unset_fields_gained_witness:
  "\<exists>w n1 v' n2. read_val sample_lib GEN_DATA (default_val GEN_DATA) (write_val sample_lib DEMO_DATA (default_val DEMO_DATA)) = Some (w, n1, [])
    \<and> read_val sample_lib DEMO_DATA (default_val DEMO_DATA) (write_val sample_lib GEN_DATA w) = Some (v', n2, [])
    \<and> \<not> val_eq sample_lib DEMO_DATA (default_val DEMO_DATA) v'"
  by (rule unset_fields_gained [OF sample_protocol_ok]) (simp add: sample_lib_def)

section \<open>Sets\<close>

lemma reads_embedded:
  "protocol_ok L \<Longrightarrow> reads (read_val L EMBEDDED (default_val EMBEDDED)) (write_val L EMBEDDED (embedded a b)) (VStruct [(True, VI8 a), (False, VI16 0)])"
  using reads_written(1) [of L EMBEDDED EMBEDDED "canon EMBEDDED (embedded a b)"]
  by (simp only: write_canon) (simp add: EmbeddedStruct_def embedded_def)

lemma read_set_bytes:
  assumes L: "protocol_ok L" and len: "length xs < max_size"
    and xs: "\<And>x. x \<in> set xs \<Longrightarrow> reads (read_val L t (default_val t)) (write_val L t x) (h x)"
  shows "read_val L (SET c t) cur (write_val L (SET g t) (VSet xs) @ rest)
    = Some (VSet (foldl (\<lambda>s x. set_insert (val_less L) x s) (if c then [] else as_set cur) (map h xs)),
        of_nat (length (write_val L (SET g t) (VSet xs))), rest)"
proof -
  let ?n = "of_nat (length xs) :: 32 word"
  have n: "unat ?n = length xs" using len by (rule unat_size)
  have lib: "reads (readSetBegin L) (writeSetBegin L (ttype_of t) ?n) (ttype_of t, ?n)"
    "reads (readSetEnd L) (writeSetEnd L) ()" using L len by (simp_all add: protocol_ok_def n)
  have "reads (read_times (length (map h xs)) (read_val L t (default_val t))) (concat (map (write_val L t) xs)) (map h xs)"
    by (rule reads_times) (use xs in \<open>auto simp: list_all2_map1 list_all2_map2 list_all2_same\<close>)
  then have body: "reads (read_times (length xs) (read_val L t (default_val t))) (concat (map (write_val L t) xs)) (map h xs)"
    by simp
  have "reads (read_val L (SET c t) cur) (writeSetBegin L (ttype_of t) ?n @ concat (map (write_val L t) xs) @ writeSetEnd L)
      (VSet (foldl (\<lambda>s x. set_insert (val_less L) x s) (if c then [] else as_set cur) (map h xs)))"
    unfolding read_val.simps
    by (rule reads_bind, rule lib(1), simp add: n split del: if_split, rule reads_bind, rule body, rule reads_last, rule lib(2)) simp
  from readsD [OF this, of rest] show ?thesis by simp
qed

text \<open>
  C38: the order of a set of structs looks at a field that is not set, and so is not written; two
  elements that differ in it only are one after a round trip.
\<close>

theorem struct_set_shrinks:
  assumes L: "protocol_ok L" and less: "user_less L = EmbeddedStruct_less" and b: "sint b < sint c"
  shows "sorted_wrt (strictly_less L) [embedded a b, embedded a c]
    \<and> (\<exists>n. read_val L (SET g EMBEDDED) (VSet []) (write_val L (SET g EMBEDDED) (VSet [embedded a b, embedded a c]))
      = Some (VSet [embedded a 0], n, []))"
proof (rule conjI)
  show "sorted_wrt (strictly_less L) [embedded a b, embedded a c]"
    using b by (simp add: strictly_less_def val_less_def less EmbeddedStruct_less_def embedded_def)
  have "reads (read_val L EMBEDDED (default_val EMBEDDED)) (write_val L EMBEDDED x) (embedded a 0)"
    if "x \<in> set [embedded a b, embedded a c]" for x
    using that reads_embedded [OF L] by (auto simp: embedded_def)
  from read_set_bytes [where xs = "[embedded a b, embedded a c]" and h = "\<lambda>_. embedded a 0", OF L _ this, where c = g and g = g and cur = "VSet []" and rest = "[]"]
  show "\<exists>n. read_val L (SET g EMBEDDED) (VSet []) (write_val L (SET g EMBEDDED) (VSet [embedded a b, embedded a c]))
      = Some (VSet [embedded a 0], n, [])"
    by (simp del: read_val.simps write_val.simps
        add: max_size_def val_less_def less EmbeddedStruct_less_def embedded_def)
qed

theorem struct_set_shrinks_witness:
  "sorted_wrt (strictly_less sample_lib) [embedded 97 1, embedded 97 2]
   \<and> (\<exists>n. read_val sample_lib (SET True EMBEDDED) (VSet []) (write_val sample_lib (SET True EMBEDDED) (VSet [embedded 97 1, embedded 97 2]))
      = Some (VSet [embedded 97 0], n, []))"
  using struct_set_shrinks [OF sample_protocol_ok, where b = 1 and c = 2 and a = 97 and g = True] by (simp add: sample_lib_def)

text \<open>
  Decoding a set into an object that holds one gives, with the compiler's class, the set that was
  sent, and with the macros its union with the old one.
\<close>

theorem set_read_into_old:
  assumes L: "protocol_ok L" and xs: "fits L (SET g t) (VSet xs)" "list_all (accepts t) xs" and c: "compat t t"
  shows "(\<exists>n. read_val L (SET True t) cur (write_val L (SET g t) (VSet xs) @ rest) = Some (VSet xs, n, rest))
    \<and> (\<exists>n. read_val L (SET False t) cur (write_val L (SET g t) (VSet xs) @ rest)
      = Some (VSet (foldl (\<lambda>s x. set_insert (val_less L) x s) (as_set cur) xs), n, rest))"
proof -
  have len: "length xs < max_size" and sorted: "sorted_wrt (strictly_less L) xs" using xs(1) by simp_all
  have each: "reads (read_val L t (default_val t)) (write_val L t x) x" if "x \<in> set xs" for x
    using that xs c by (intro reads_written(1) [OF L]) (auto simp: list_all_iff)
  note rd = read_set_bytes [where h = "\<lambda>x. x", OF L len each]
  have "\<exists>n. read_val L (SET True t) cur (write_val L (SET g t) (VSet xs) @ rest) = Some (VSet xs, n, rest)"
    using rd [where c = True and cur = cur and g = g and rest = rest] by (simp only: if_True set_rebuilt [OF sorted] list.map_ident) blast
  moreover have "\<exists>n. read_val L (SET False t) cur (write_val L (SET g t) (VSet xs) @ rest)
      = Some (VSet (foldl (\<lambda>s x. set_insert (val_less L) x s) (as_set cur) xs), n, rest)"
    using rd [where c = False and cur = cur and g = g and rest = rest] by (simp only: if_False list.map_ident) blast
  ultimately show ?thesis ..
qed

theorem set_read_into_old_witness:
  "(\<exists>n. read_val sample_lib (SET True I32) (VSet [VI32 7]) (write_val sample_lib (SET True I32) (VSet [VI32 1]) @ []) = Some (VSet [VI32 1], n, []))
   \<and> (\<exists>n. read_val sample_lib (SET False I32) (VSet [VI32 7]) (write_val sample_lib (SET True I32) (VSet [VI32 1]) @ [])
      = Some (VSet [VI32 1, VI32 7], n, []))"
  using set_read_into_old [OF sample_protocol_ok, of True I32 "[VI32 1]" "VSet [VI32 7]" "[]"]
  by (simp add: max_size_def val_less_def)

section \<open>Instances of the codec's theorems\<close>

theorem struct_round_trip_witness:
  "read_val sample_lib EMBEDDED (default_val EMBEDDED) (write_val sample_lib EMBEDDED (embedded 97 0) @ [])
    = Some (embedded 97 0, of_nat (length (write_val sample_lib EMBEDDED (embedded 97 0))), [])"
  by (rule struct_round_trip [OF sample_protocol_ok]) (simp_all add: EmbeddedStruct_def embedded_def)

theorem missing_required_refused_witness:
  "read_val sample_lib (STRUCT ''b'' [Field 1 Optional I8 ''x'', Field 2 Required I16 ''y''])
     (default_val (STRUCT ''b'' [Field 1 Optional I8 ''x'', Field 2 Required I16 ''y'']))
     (write_val sample_lib (STRUCT ''a'' [Field 1 Required I8 ''x'', Field 2 Optional I16 ''y''])
        (VStruct [(True, VI8 5), (False, VI16 0)]) @ []) = None"
  by (rule missing_required_refused [OF sample_protocol_ok, where j = 1])
    (simp_all add: less_Suc_eq numeral_2_eq_2 all_conj_distrib)

lemma sample_ordering: "ordering sample_lib"
proof -
  have "asymp EmbeddedStruct_less" "transp EmbeddedStruct_less"
    by (auto intro!: asympI transpI simp: EmbeddedStruct_less_def Let_def split: if_splits)
  then show ?thesis by (simp add: ordering_def sample_lib_def)
qed


end
