(* ===== verification/ApiMessages.thy ===== *)
theory ApiMessages
  imports Protocol DemoApi
begin

text \<open>
  The messages of the example services and of the library's tests, declared as in their \<^verbatim>\<open>.api\<close> files and encoded by the thrift
  codec of \<open>Thrift\<close> under any protocol.  The runtime takes its codec as an argument; the contract it
  relies on is \<open>message_codec\<close>, under which a remote call is shown to succeed, and the codec of the
  services keeps it.
\<close>

section \<open>The contract of a codec\<close>

text \<open>An environment in which memory never runs out, every message is sent and the service is known.\<close>

definition connected :: "('v, 'r) env \<Rightarrow> nat \<Rightarrow> string \<Rightarrow> service_id \<Rightarrow> bool" where
  "connected E r svc sid \<longleftrightarrow>
     (\<forall>n. malloc_ok E n) \<and> (\<forall>mem reg. fst (resolve E r svc mem reg) = Some sid) \<and> (\<forall>m mem. channel_ok E sid m mem)
     \<and> msg_channel (env_config E) \<noteq> None \<and> timer_adapter (env_config E) \<noteq> None"

locale message_codec =
  fixes write_msg :: "'v \<Rightarrow> bytes option"
    and read_msg :: "string \<Rightarrow> bytes \<Rightarrow> ('v \<times> nat) option"
    and type_name :: "'v \<Rightarrow> string"
    and sendable :: "'v \<Rightarrow> bool"
  assumes read_written: "sendable v \<Longrightarrow> \<exists>bs n. write_msg v = Some bs \<and> bs \<noteq> [] \<and> read_msg (type_name v) bs = Some (v, n) \<and> 0 < n"
begin

lemma remote_call:
  assumes codec: "thrift_write Ec = write_msg" "thrift_read Ec = read_msg" "thrift_write Es = write_msg" "thrift_read Es = read_msg"
    and E: "connected Ec r svc sid" "connected Es rs svcs sids" and v: "sendable v" "sendable w"
    and client: "ctxs rt k = Some x" "ctx_resolver x = Some r" "id_func_map rt (fst (get (seq_counter rt))) = None"
    and fine: "rt_ok rt" "rt_ok rtS"
    and server: "repo i = Some ms" "find (\<lambda>m. method_index m = mi) ms = Some m" "req_type m = type_name v"
      "answers m v (type_name w) w"
  shows "\<exists>a rt1 mem rtS' mem' rt2.
    encode_request_and_send Ec k svc i mi (type_name w) v rt = Inr (a, rt1)
    \<and> sent_one rt sid (request_msg_id (env_config Ec)) mem rt1
    \<and> on_rpc_req_msg Es repo (request_msg_id (env_config Es)) mem client_id rtS = Inr rtS'
    \<and> sent_one rtS client_id (response_msg_id (env_config Es)) mem' rtS'
    \<and> handle_rpc_rsp Ec (update Ec) mem' rt1 = Inr rt2
    \<and> (\<exists>c. heap rt2 a = Some (CellObj c) \<and> cell_value (cstate c) = Some (Rsp w))
    \<and> id_func_map rt2 = id_func_map rt"
proof -
  from read_written [OF v(1)] obtain bs n where bs: "write_msg v = Some bs" "bs \<noteq> []" "read_msg (type_name v) bs = Some (v, n)" "0 < n"
    by blast
  from read_written [OF v(2)] obtain out n' where out: "write_msg w = Some out" "out \<noteq> []" "read_msg (type_name w) out = Some (w, n')" "0 < n'"
    by blast
  have sends: "sends_to Ec r svc v bs sid" using E(1) codec bs by (simp add: sends_to_def connected_def)
  have wire: "thrift_read Es (req_type m) bs = Some (v, n)" "thrift_write Es w = Some out"
    "malloc_ok Es (sizeof_rsp_header + length out)" "thrift_read Ec (type_name w) out = Some (w, n')" "msg_channel (env_config Es) \<noteq> None"
    using E codec bs out server(3) by (simp_all add: connected_def)
  show ?thesis
    using rpc_way [where repo = repo and i = i and mi = mi, OF sends client fine wire(5) server(1,2,4) wire(1) bs(4) wire(2)
        out(2) wire(3,4) out(4), of client_id]
    by blast
qed

end

section \<open>The messages\<close>

text \<open>
  The structs of \<^verbatim>\<open>service_y.api\<close>, \<^verbatim>\<open>service_z.api\<close>, \<^verbatim>\<open>service_k.api\<close> and those of the interfaces
  of \<^verbatim>\<open>demo_service.api\<close>.  An optional field without a
  value is \<open>None\<close>; a string is its bytes.
\<close>

datatype api_msg =
    YReq "32 word" "32 word option"
  | YRsp "32 word" "32 word option"
  | ZReq bytes "32 word option"
  | ZRsp "32 word" "32 word option"
  | KReq bytes "32 word option"
  | KRsp "32 word" "32 word option"
  | RequestFoo "32 word" "32 word option"
  | ResponseBar "32 word" "32 word option"

fun type_name :: "api_msg \<Rightarrow> string" where
  "type_name (YReq a b) = ''YReq''" | "type_name (YRsp a b) = ''YRsp''" | "type_name (ZReq s b) = ''ZReq''"
| "type_name (ZRsp a b) = ''ZRsp''" | "type_name (KReq s b) = ''KReq''" | "type_name (KRsp a b) = ''KRsp''"
| "type_name (RequestFoo a b) = ''RequestFoo''" | "type_name (ResponseBar a b) = ''ResponseBar''"

definition YReq_fields :: "field list" where
  "YReq_fields = [Field 1 Required I32 ''yreqa'', Field 2 Optional I32 ''yreqb'']"

definition YRsp_fields :: "field list" where
  "YRsp_fields = [Field 1 Required I32 ''yrspa'', Field 2 Optional I32 ''yrspb'']"

definition ZReq_fields :: "field list" where
  "ZReq_fields = [Field 1 Required STRING ''zreqa'', Field 2 Optional I32 ''zreqb'']"

definition ZRsp_fields :: "field list" where
  "ZRsp_fields = [Field 1 Required I32 ''zrspa'', Field 2 Optional I32 ''zrspb'']"

definition KReq_fields :: "field list" where
  "KReq_fields = [Field 1 Required STRING ''kreqa'', Field 2 Optional I32 ''kreqb'']"

definition KRsp_fields :: "field list" where
  "KRsp_fields = [Field 1 Required I32 ''krspa'', Field 2 Optional I32 ''krspb'']"

definition RequestFoo_fields :: "field list" where
  "RequestFoo_fields = [Field 1 Required I32 ''reqa'', Field 2 Optional I32 ''reqb'']"

definition ResponseBar_fields :: "field list" where
  "ResponseBar_fields = [Field 1 Required I32 ''rspa'', Field 2 Optional I32 ''rspb'']"

text \<open>
  \<^verbatim>\<open>service_z\<close>, which reads the responses of \<^verbatim>\<open>service_k\<close>, has a copy of \<^verbatim>\<open>service_k.api\<close> that lacks
  \<^verbatim>\<open>krspb\<close>.  The other copies agree.
\<close>

definition KRsp_fields_in_z :: "field list" where
  "KRsp_fields_in_z = [Field 1 Required I32 ''krspa'']"

fun written_fields :: "api_msg \<Rightarrow> field list" where
  "written_fields (YReq a b) = YReq_fields" | "written_fields (YRsp a b) = YRsp_fields"
| "written_fields (ZReq s b) = ZReq_fields" | "written_fields (ZRsp a b) = ZRsp_fields"
| "written_fields (KReq s b) = KReq_fields" | "written_fields (KRsp a b) = KRsp_fields"
| "written_fields (RequestFoo a b) = RequestFoo_fields" | "written_fields (ResponseBar a b) = ResponseBar_fields"

text \<open>An object as the codec sees it, and back.\<close>

definition opt_slot :: "32 word option \<Rightarrow> bool \<times> tval" where
  "opt_slot b = (b \<noteq> None, VI32 (case b of None \<Rightarrow> 0 | Some w \<Rightarrow> w))"

definition slot_opt :: "bool \<times> tval \<Rightarrow> 32 word option" where
  "slot_opt s = (if fst s then Some (as_i32 (snd s)) else None)"

fun api_val :: "api_msg \<Rightarrow> tval" where
  "api_val (YReq a b) = VStruct [(True, VI32 a), opt_slot b]"
| "api_val (YRsp a b) = VStruct [(True, VI32 a), opt_slot b]"
| "api_val (ZReq s b) = VStruct [(True, VString s), opt_slot b]"
| "api_val (ZRsp a b) = VStruct [(True, VI32 a), opt_slot b]"
| "api_val (KReq s b) = VStruct [(True, VString s), opt_slot b]"
| "api_val (KRsp a b) = VStruct [(True, VI32 a), opt_slot b]"
| "api_val (RequestFoo a b) = VStruct [(True, VI32 a), opt_slot b]"
| "api_val (ResponseBar a b) = VStruct [(True, VI32 a), opt_slot b]"

definition number_msg :: "(32 word \<Rightarrow> 32 word option \<Rightarrow> api_msg) \<Rightarrow> tval \<Rightarrow> api_msg" where
  "number_msg f v = f (as_i32 (snd (slots v ! 0))) (slot_opt (slots v ! 1))"

definition string_msg :: "(bytes \<Rightarrow> 32 word option \<Rightarrow> api_msg) \<Rightarrow> tval \<Rightarrow> api_msg" where
  "string_msg f v = f (as_string (snd (slots v ! 0))) (slot_opt (slots v ! 1))"

definition krsp_in_z :: "tval \<Rightarrow> api_msg" where
  "krsp_in_z v = KRsp (as_i32 (snd (slots v ! 0))) None"

definition msg_readers :: "(string \<times> field list \<times> (tval \<Rightarrow> api_msg)) list" where
  "msg_readers =
     [(''YReq'', YReq_fields, number_msg YReq), (''YRsp'', YRsp_fields, number_msg YRsp),
      (''ZReq'', ZReq_fields, string_msg ZReq), (''ZRsp'', ZRsp_fields, number_msg ZRsp),
      (''KReq'', KReq_fields, string_msg KReq), (''KRsp'', KRsp_fields_in_z, krsp_in_z),
      (''RequestFoo'', RequestFoo_fields, number_msg RequestFoo), (''ResponseBar'', ResponseBar_fields, number_msg ResponseBar)]"

definition api_write :: "thrift_lib \<Rightarrow> api_msg \<Rightarrow> bytes option" where
  "api_write L v = Some (write_val L (STRUCT (type_name v) (written_fields v)) (api_val v))"

definition api_read :: "thrift_lib \<Rightarrow> string \<Rightarrow> bytes \<Rightarrow> (api_msg \<times> nat) option" where
  "api_read L ty bs =
     (case map_of msg_readers ty of
        None \<Rightarrow> None
      | Some (fs, msg) \<Rightarrow>
          (case read_val L (STRUCT ty fs) (default_val (STRUCT ty fs)) bs of
             None \<Rightarrow> None
           | Some (v, n, rest) \<Rightarrow> Some (msg v, unat n)))"

section \<open>The services' codec keeps the contract\<close>

text \<open>
  A message can be sent if its string is not too long, the count of its bytes, modulo the width of
  \<^verbatim>\<open>uint32_t\<close>, is not 0, and \<^verbatim>\<open>service_z\<close> knows its fields.
\<close>

fun text_of :: "api_msg \<Rightarrow> bytes" where
  "text_of (ZReq s b) = s" | "text_of (KReq s b) = s" | "text_of v = []"

fun known_fields :: "api_msg \<Rightarrow> bool" where
  "known_fields (KRsp a b) = False" | "known_fields v = True"

definition api_sendable :: "thrift_lib \<Rightarrow> api_msg \<Rightarrow> bool" where
  "api_sendable L v \<longleftrightarrow>
     protocol_ok L \<and> length (text_of v) < max_size \<and> known_fields v
     \<and> (of_nat (length (the (api_write L v))) :: 32 word) \<noteq> 0"

lemmas field_lists = YReq_fields_def YRsp_fields_def ZReq_fields_def ZRsp_fields_def KReq_fields_def KRsp_fields_def
  RequestFoo_fields_def ResponseBar_fields_def

lemma opt_slot_simps [simp]:
  "slot_opt (opt_slot b) = b" "snd (opt_slot b) = VI32 (as_i32 (snd (opt_slot b)))"
  "\<not> fst (opt_slot b) \<Longrightarrow> snd (opt_slot b) = VI32 0"
  by (cases b; simp add: slot_opt_def opt_slot_def)+

lemma api_fits:
  "length (text_of v) < max_size \<Longrightarrow> fits L (STRUCT n (written_fields v)) (api_val v)
    \<and> accepts (STRUCT n (written_fields v)) (api_val v)"
  by (cases v rule: api_val.cases) (auto simp: field_lists opt_slot_def split: option.splits)

lemma api_reader:
  "known_fields v \<Longrightarrow> \<exists>msg. map_of msg_readers (type_name v) = Some (written_fields v, msg) \<and> msg (api_val v) = v"
  by (cases v rule: api_val.cases) (simp_all add: msg_readers_def number_msg_def string_msg_def)

lemma written_is_read:
  assumes v: "api_sendable L v"
  shows "api_read L (type_name v) (the (api_write L v)) = Some (v, unat (of_nat (length (the (api_write L v))) :: 32 word))"
proof -
  let ?t = "STRUCT (type_name v) (written_fields v)" and ?bs = "the (api_write L v)"
  from v have L: "protocol_ok L" and fits: "fits L ?t (api_val v)" "accepts ?t (api_val v)"
    using api_fits [of v L "type_name v"] by (simp_all add: api_sendable_def)
  have compat: "compat ?t ?t" by (cases v rule: api_val.cases) (simp_all add: field_lists)
  have "read_val L ?t (default_val ?t) (write_val L ?t (api_val v)) = Some (api_val v, of_nat (length ?bs), [])"
    using readsD [OF reads_written(1) [OF L compat fits], of "[]"] by (simp add: api_write_def)
  moreover obtain msg where "map_of msg_readers (type_name v) = Some (written_fields v, msg)" "msg (api_val v) = v"
    using api_reader v by (auto simp: api_sendable_def)
  ultimately show ?thesis by (simp add: api_read_def api_write_def)
qed

interpretation api_codec: message_codec "api_write L" "api_read L" type_name "api_sendable L" for L
proof
  fix v assume v: "api_sendable L v"
  then have n: "(of_nat (length (the (api_write L v))) :: 32 word) \<noteq> 0" by (simp add: api_sendable_def)
  then have "0 < unat (of_nat (length (the (api_write L v))) :: 32 word)" by (simp add: unat_gt_0)
  moreover have "the (api_write L v) \<noteq> []" using n by auto
  ultimately show "\<exists>bs n. api_write L v = Some bs \<and> bs \<noteq> [] \<and> api_read L (type_name v) bs = Some (v, n) \<and> 0 < n"
    using written_is_read [OF v] by (auto simp: api_write_def)
qed

section \<open>The codec on the sample protocol\<close>

text \<open>
  The codec the demo network uses, with equations by which it is evaluated: what is written is
  written out, and a reader guesses the message, writes it, and compares.  By the contract above, a
  guess that is confirmed is what the codec reads.
\<close>

definition wire_write :: "api_msg \<Rightarrow> bytes option" where
  "wire_write v = api_write sample_lib v"

definition wire_read :: "string \<Rightarrow> bytes \<Rightarrow> (api_msg \<times> nat) option" where
  "wire_read ty bs = api_read sample_lib ty bs"

definition opt_bytes :: "32 word option \<Rightarrow> bytes" where
  "opt_bytes b = (case b of None \<Rightarrow> [0] | Some w \<Rightarrow> 8 # rev (le16 2) @ rev (le32 w) @ [0])"

definition number_bytes :: "32 word \<Rightarrow> 32 word option \<Rightarrow> bytes" where
  "number_bytes a b = 8 # rev (le16 1) @ rev (le32 a) @ opt_bytes b"

definition string_bytes :: "bytes \<Rightarrow> 32 word option \<Rightarrow> bytes" where
  "string_bytes s b = 11 # rev (le16 1) @ rev (le32 (of_nat (length s))) @ s @ opt_bytes b"

fun msg_bytes :: "api_msg \<Rightarrow> bytes" where
  "msg_bytes (YReq a b) = number_bytes a b" | "msg_bytes (YRsp a b) = number_bytes a b"
| "msg_bytes (ZReq s b) = string_bytes s b" | "msg_bytes (ZRsp a b) = number_bytes a b"
| "msg_bytes (KReq s b) = string_bytes s b" | "msg_bytes (KRsp a b) = number_bytes a b"
| "msg_bytes (RequestFoo a b) = number_bytes a b" | "msg_bytes (ResponseBar a b) = number_bytes a b"

lemma wire_write_code [code]: "wire_write v = Some (msg_bytes v)"
  by (cases v rule: msg_bytes.cases)
    (simp_all add: wire_write_def api_write_def field_lists opt_slot_def sample_lib_def number_bytes_def string_bytes_def
      opt_bytes_def split: option.splits)

definition guess_opt :: "bytes \<Rightarrow> 32 word option" where
  "guess_opt bs = (if length bs = 8 then Some (un32 (bs ! 6) (bs ! 5) (bs ! 4) (bs ! 3)) else None)"

definition guess_number :: "(32 word \<Rightarrow> 32 word option \<Rightarrow> api_msg) \<Rightarrow> bytes \<Rightarrow> api_msg" where
  "guess_number f bs = f (un32 (bs ! 6) (bs ! 5) (bs ! 4) (bs ! 3)) (guess_opt (drop 7 bs))"

definition guess_string :: "(bytes \<Rightarrow> 32 word option \<Rightarrow> api_msg) \<Rightarrow> bytes \<Rightarrow> api_msg" where
  "guess_string f bs = (let n = unat (bs ! 6) in f (take n (drop 7 bs)) (guess_opt (drop (7 + n) bs)))"

definition guesses :: "(string \<times> (bytes \<Rightarrow> api_msg)) list" where
  "guesses =
     [(''YReq'', guess_number YReq), (''YRsp'', guess_number YRsp), (''ZReq'', guess_string ZReq),
      (''ZRsp'', guess_number ZRsp), (''KReq'', guess_string KReq),
      (''RequestFoo'', guess_number RequestFoo), (''ResponseBar'', guess_number ResponseBar)]"

definition confirmed :: "string \<Rightarrow> bytes \<Rightarrow> api_msg \<Rightarrow> bool" where
  "confirmed ty bs v \<longleftrightarrow> type_name v = ty \<and> known_fields v \<and> length bs < 100 \<and> msg_bytes v = bs"

lemma confirmed_read:
  assumes "confirmed ty bs v"
  shows "wire_read ty bs = Some (v, length bs)"
proof -
  have "length (text_of v) \<le> length (msg_bytes v) \<and> msg_bytes v \<noteq> []"
    by (cases v rule: msg_bytes.cases) (simp_all add: number_bytes_def string_bytes_def)
  moreover from assms have bs: "api_write sample_lib v = Some bs" "length (msg_bytes v) < 100" "msg_bytes v = bs"
    using wire_write_code [of v] by (simp_all add: confirmed_def wire_write_def)
  moreover from this have n: "unat (of_nat (length bs) :: 32 word) = length bs"
    by (simp add: unsigned_of_nat take_bit_nat_eq_self)
  ultimately have "api_sendable sample_lib v"
    using assms sample_protocol_ok
    by (auto simp: api_sendable_def confirmed_def max_size_def simp flip: unat_eq_zero)
  then show ?thesis using written_is_read [of sample_lib v] bs n assms by (auto simp: wire_read_def confirmed_def)
qed

text \<open>A message that is one number needs no comparison.\<close>

definition plain_number :: "bytes \<Rightarrow> 32 word option" where
  "plain_number bs =
     (if length bs = 8 \<and> take 3 bs = [8, 0, 1] \<and> bs ! 7 = 0 then Some (un32 (bs ! 6) (bs ! 5) (bs ! 4) (bs ! 3)) else None)"

definition number_types :: "(string \<times> (32 word \<Rightarrow> 32 word option \<Rightarrow> api_msg)) list" where
  "number_types =
     [(''YReq'', YReq), (''YRsp'', YRsp), (''ZRsp'', ZRsp), (''RequestFoo'', RequestFoo), (''ResponseBar'', ResponseBar)]"

lemma plain_number_read:
  assumes "plain_number bs = Some a" "map_of number_types ty = Some f"
  shows "wire_read ty bs = Some (f a None, 8)"
proof -
  from assms(1) have "length bs = 8" by (simp add: plain_number_def split: if_splits)
  then obtain b0 b1 b2 b3 b4 b5 b6 b7 where bs: "bs = [b0, b1, b2, b3, b4, b5, b6, b7]"
    by (auto simp: numeral_eq_Suc length_Suc_conv)
  with assms(1) have "number_bytes a None = bs"
    by (auto simp: plain_number_def number_bytes_def opt_bytes_def le16_def split: if_splits)
  then have "confirmed ty bs (f a None)"
    using assms(2) bs by (auto simp: number_types_def confirmed_def split: if_splits)
  from confirmed_read [OF this] show ?thesis by (simp add: bs)
qed

lemma wire_read_code [code]:
  "wire_read ty bs =
     (case (plain_number bs, map_of number_types ty) of
        (Some a, Some f) \<Rightarrow> Some (f a None, 8)
      | _ \<Rightarrow>
          if 7 < length bs
          then case map_of guesses ty of
                 None \<Rightarrow> api_read sample_lib ty bs
               | Some g \<Rightarrow> (let v = g bs in if confirmed ty bs v then Some (v, length bs) else api_read sample_lib ty bs)
          else api_read sample_lib ty bs)"
proof (cases "plain_number bs = None \<or> map_of number_types ty = None")
  case True
  then show ?thesis by (auto simp: Let_def confirmed_read wire_read_def [symmetric] split: option.split)
qed (auto simp: plain_number_read)

end
