(* ===== verification/Services.thy ===== *)
theory Services
  imports ApiMessages
begin

text \<open>
  The example services of \<^verbatim>\<open>demo_services\<close>: their methods and service interactions, the
  repositories their registration objects fill, and a network of such services, which delivers
  every message that is sent.  The methods keep the invariant of the runtime, so the properties of
  \<open>Runs\<close> hold for these programs.
\<close>

section \<open>Messages\<close>

text \<open>The required number.\<close>

fun number_of :: "api_msg \<Rightarrow> 32 word" where
  "number_of (YReq a b) = a"
| "number_of (YRsp a b) = a"
| "number_of (ZRsp a b) = a"
| "number_of (KRsp a b) = a"
| "number_of (RequestFoo a b) = a"
| "number_of (ResponseBar a b) = a"
| "number_of _ = 0"

type_synonym 'r srt = "(api_msg, 'r) rt"
type_synonym 'r senv = "(api_msg, 'r) env"

text \<open>A synchronous method returns \<^verbatim>\<open>cell_with_value(rsp)\<close>.\<close>

definition sync_method :: "string \<Rightarrow> (api_msg \<Rightarrow> api_msg) \<Rightarrow> api_msg \<Rightarrow> 'r srt \<Rightarrow> fault + addr option \<times> 'r srt" where
  "sync_method ty f req rt = (case cell_with_value ty (f req) rt of (a, rt) \<Rightarrow> Inr (Some a, rt))"

text \<open>An interaction that maps the response of one remote call, in the way of \<^verbatim>\<open>map_zrsp_to_yrsp\<close>.\<close>

definition map_response :: "(api_msg \<Rightarrow> api_msg) \<Rightarrow> api_msg logic" where
  "map_response f ss =
     (case ss of
        [s] \<Rightarrow> (case cell_value s of
                  Some (Rsp v) \<Rightarrow> Some (SetValue (Rsp (f v)))
                | _ \<Rightarrow> Some (SetFailedReason (failed_reason s)))
      | _ \<Rightarrow> None)"

definition call_and_map ::
  "'r senv \<Rightarrow> int \<Rightarrow> api_msg rpc_start \<Rightarrow> string \<Rightarrow> string \<Rightarrow> api_msg logic \<Rightarrow> ctx_id \<Rightarrow> 'r srt
   \<Rightarrow> fault + addr option \<times> 'r srt" where
  "call_and_map E ms call ty1 ty2 logic ctxt rt =
     bindR (derive_rpc_cell E ctxt ty1 ms 0 (\<lambda>ss. call) [] rt) (\<lambda>(c1, rt).
     bindR (derive_cell E ctxt ty2 logic [c1] rt) (\<lambda>(c2, rt). Inr (Some c2, rt)))"

definition default_resolver :: nat where
  "default_resolver = 0"

section \<open>service_y\<close>

definition y_f1m1 :: "api_msg \<Rightarrow> 'r srt \<Rightarrow> fault + addr option \<times> 'r srt" where
  "y_f1m1 = sync_method ''YRsp'' (\<lambda>req. YRsp (number_of req * 2) None)"

definition map_zrsp_to_yrsp :: "api_msg logic" where
  "map_zrsp_to_yrsp = map_response (\<lambda>zrsp. YRsp (number_of zrsp * 2) None)"

definition SI_call_z_async :: "'r senv \<Rightarrow> api_msg \<Rightarrow> ctx_id \<Rightarrow> 'r srt \<Rightarrow> fault + addr option \<times> 'r srt" where
  "SI_call_z_async E req =
     call_and_map E 5000 (CallRpc ''service_z'' 1 1 ''ZRsp'' (ZReq [] None)) ''ZRsp'' ''YRsp'' map_zrsp_to_yrsp"

definition y_async_f1m2 :: "'r senv \<Rightarrow> api_msg \<Rightarrow> 'r srt \<Rightarrow> fault + addr option \<times> 'r srt" where
  "y_async_f1m2 E req rt =
     bindR (run_si default_resolver (SI_call_z_async E req) rt) (\<lambda>(a, rt). Inr (Some a, rt))"

definition IY_impl :: "'r senv \<Rightarrow> (api_msg, 'r) iface" where
  "IY_impl E =
     [\<lparr>method_index = 1, req_type = ''YReq'', method_impl = y_f1m1\<rparr>,
      \<lparr>method_index = 2, req_type = ''YReq'', method_impl = y_async_f1m2 E\<rparr>]"

definition service_y_repo :: "'r senv \<Rightarrow> fault + (api_msg, 'r) repository" where
  "service_y_repo E = add_iface_impl 2 (Some (IY_impl E)) Map.empty"

section \<open>service_z and service_k\<close>

definition z_f1m1 :: "api_msg \<Rightarrow> 'r srt \<Rightarrow> fault + addr option \<times> 'r srt" where
  "z_f1m1 = sync_method ''ZRsp'' (\<lambda>req. ZRsp 7 None)"

definition map_krsp_to_zrsp :: "api_msg logic" where
  "map_krsp_to_zrsp = map_response (\<lambda>krsp. ZRsp (number_of krsp * 2) None)"

definition SI_call_k_async :: "'r senv \<Rightarrow> api_msg \<Rightarrow> ctx_id \<Rightarrow> 'r srt \<Rightarrow> fault + addr option \<times> 'r srt" where
  "SI_call_k_async E req =
     call_and_map E 5000 (CallRpc ''service_k'' 1 1 ''KRsp'' (KReq [] None)) ''KRsp'' ''ZRsp'' map_krsp_to_zrsp"

definition z_async_f1m1 :: "'r senv \<Rightarrow> api_msg \<Rightarrow> 'r srt \<Rightarrow> fault + addr option \<times> 'r srt" where
  "z_async_f1m1 E req rt =
     bindR (run_si default_resolver (SI_call_k_async E req) rt) (\<lambda>(a, rt). Inr (Some a, rt))"

definition IZ_impl :: "'r senv \<Rightarrow> (api_msg, 'r) iface" where
  "IZ_impl E =
     [\<lparr>method_index = 1, req_type = ''ZReq'', method_impl = z_f1m1\<rparr>,
      \<lparr>method_index = 2, req_type = ''ZReq'', method_impl = z_async_f1m1 E\<rparr>]"

definition service_z_repo :: "'r senv \<Rightarrow> fault + (api_msg, 'r) repository" where
  "service_z_repo E = add_iface_impl 1 (Some (IZ_impl E)) Map.empty"

definition k_f1m1 :: "api_msg \<Rightarrow> 'r srt \<Rightarrow> fault + addr option \<times> 'r srt" where
  "k_f1m1 = sync_method ''KRsp'' (\<lambda>req. KRsp 2016 (Some 2017))"

definition IK_impl :: "(api_msg, 'r) iface" where
  "IK_impl = [\<lparr>method_index = 1, req_type = ''KReq'', method_impl = k_f1m1\<rparr>]"

definition service_k_repo :: "fault + (api_msg, 'r) repository" where
  "service_k_repo = add_iface_impl 1 (Some IK_impl) Map.empty"

section \<open>service_x\<close>

text \<open>The interactions of the test cases; a \<open>resolver\<close> is \<^verbatim>\<open>MyServiceResolver\<close> or the default one.\<close>

definition call_only ::
  "'r senv \<Rightarrow> int \<Rightarrow> api_msg rpc_start \<Rightarrow> string \<Rightarrow> ctx_id \<Rightarrow> 'r srt \<Rightarrow> fault + addr option \<times> 'r srt" where
  "call_only E ms call ty ctxt rt =
     bindR (derive_rpc_cell E ctxt ty ms 0 (\<lambda>ss. call) [] rt) (\<lambda>(c, rt). Inr (Some c, rt))"

definition SI_call_y_f1m1 :: "'r senv \<Rightarrow> api_msg \<Rightarrow> ctx_id \<Rightarrow> 'r srt \<Rightarrow> fault + addr option \<times> 'r srt" where
  "SI_call_y_f1m1 E req = call_only E 10 (CallRpc ''service_y'' 2 1 ''YRsp'' req) ''YRsp''"

definition SI_call_z_f1m1 :: "'r senv \<Rightarrow> api_msg \<Rightarrow> ctx_id \<Rightarrow> 'r srt \<Rightarrow> fault + addr option \<times> 'r srt" where
  "SI_call_z_f1m1 E req = call_only E 10 (CallRpc ''service_z'' 1 1 ''ZRsp'' req) ''ZRsp''"

definition SI_call_y_async_f1m2 :: "'r senv \<Rightarrow> api_msg \<Rightarrow> ctx_id \<Rightarrow> 'r srt \<Rightarrow> fault + addr option \<times> 'r srt" where
  "SI_call_y_async_f1m2 E req = call_only E 10000 (CallRpc ''service_y'' 2 2 ''YRsp'' req) ''YRsp''"

definition testcase ::
  "'r senv \<Rightarrow> nat \<Rightarrow> (ctx_id \<Rightarrow> 'r srt \<Rightarrow> fault + addr option \<times> 'r srt) \<Rightarrow> nat \<Rightarrow> 'r srt \<Rightarrow> (api_msg, 'r) res" where
  "testcase E resolver si n rt =
     bindR (run_si resolver si rt) (\<lambda>(rsp, rt).
     drop_result (derive_final_action (update E) (UserAction n) [rsp] rt))"

definition testcase_0000 :: "'r senv \<Rightarrow> nat \<Rightarrow> 'r srt \<Rightarrow> (api_msg, 'r) res" where
  "testcase_0000 E my_resolver = testcase E my_resolver (SI_call_y_f1m1 E (YReq 100 None)) 0"

text \<open>\<^verbatim>\<open>zreq.zreqa = 100\<close> assigns the character with that code to the string.\<close>

definition testcase_0001 :: "'r senv \<Rightarrow> 'r srt \<Rightarrow> (api_msg, 'r) res" where
  "testcase_0001 E = testcase E default_resolver (SI_call_z_f1m1 E (ZReq [100] None)) 1"

definition testcase_0002 :: "'r senv \<Rightarrow> 'r srt \<Rightarrow> (api_msg, 'r) res" where
  "testcase_0002 E = testcase E default_resolver (SI_call_y_async_f1m2 E (YReq 100 None)) 2"

section \<open>The methods keep the invariant\<close>

lemma sync_method_inv:
  "sys_ok safe P rt \<Longrightarrow> outcome (\<lambda>(r, rt'). sys_ok safe P rt') (ok_fault safe) (sync_method ty f req rt)"
  using cell_with_value_inv [of safe P rt ty "f req"] by (auto simp: sync_method_def split: prod.split)

lemma derive_rpc_cell_bound:
  assumes ok: "sys_ok False P rt" and ctx: "PinCtx k \<in> P"
  shows "outcome (\<lambda>(a, rt'). sys_ok False P rt' \<and> a < next_addr rt') (ok_fault False)
    (derive_rpc_cell E k ty ms retries f [] rt)"
  by (rule outcome_mono [OF derive_rpc_cell_pinned [OF ok _ ctx]]) (auto simp: sys_ok_insert live_cells_def)

lemma call_and_map_inv:
  fixes rt :: "'r srt"
  assumes ok: "sys_ok False P rt" and ctx: "PinCtx k \<in> P"
  shows "outcome (\<lambda>(r, rt'). sys_ok False P rt') (ok_fault False) (call_and_map E ms call ty1 ty2 logic k rt)"
  unfolding call_and_map_def
proof (rule outcome_bind [OF derive_rpc_cell_bound [OF ok ctx]], clarify)
  fix c and rt1 :: "'r srt" assume "sys_ok False P rt1" "c < next_addr rt1"
  from derive_cell_weak [OF this ctx] show "outcome (\<lambda>(r, rt'). sys_ok False P rt') (ok_fault False)
      (bindR (derive_cell E k ty2 logic [c] rt1) (\<lambda>(c2, rt). Inr (Some c2, rt)))"
    by (rule outcome_bind) auto
qed

lemma run_interaction_inv:
  fixes rt :: "'r srt"
  assumes ok: "sys_ok False P rt"
    and si: "\<And>k P rt1. sys_ok False P rt1 \<Longrightarrow> PinCtx k \<in> P
      \<Longrightarrow> outcome (\<lambda>(r, rt'). sys_ok False P rt') (ok_fault False) (si k rt1)"
  shows "outcome (\<lambda>(r, rt'). sys_ok False P rt') (ok_fault False)
    (bindR (run_si resolver si rt) (\<lambda>(a, rt). Inr (Some a, rt)))"
proof (rule outcome_bind [OF run_si_inv [OF ok]])
  fix k and rt1 :: "'r srt" assume "sys_ok False (insert (PinCtx k) P) rt1"
  from si [OF this insertI1] show "outcome (\<lambda>(r, rt'). sys_ok False (insert (PinCtx k) P) rt'
      \<and> (\<forall>a. False \<longrightarrow> r = Some a \<longrightarrow> live_cells rt' [a])) (ok_fault False) (si k rt1)" by simp
qed auto

text \<open>A task of the service register updates the register.\<close>

definition run_register_task :: "(nat \<Rightarrow> 'r \<Rightarrow> 'r) \<Rightarrow> nat \<Rightarrow> ('v, 'r) rt \<Rightarrow> ('v, 'r) res" where
  "run_register_task task n rt = Inr (rt\<lparr>register_state := task n (register_state rt)\<rparr>)"

lemma run_register_task_inv:
  "sys_ok safe P rt \<Longrightarrow> outcome (sys_ok safe P) (ok_fault safe) (run_register_task task n rt)"
  by (simp add: run_register_task_def) (rule quiet_sys_ok, simp_all add: quiet_def)

lemmas service_method_inv = sync_method_inv run_interaction_inv call_and_map_inv

lemma IY_impl_inv:
  "m \<in> set (IY_impl E) \<Longrightarrow> sys_ok False P rt
   \<Longrightarrow> outcome (\<lambda>(r, rt'). sys_ok False P rt') (ok_fault False) (method_impl m v rt)"
  by (auto simp: IY_impl_def y_f1m1_def y_async_f1m2_def SI_call_z_async_def intro!: service_method_inv)

lemma IZ_impl_inv:
  "m \<in> set (IZ_impl E) \<Longrightarrow> sys_ok False P rt
   \<Longrightarrow> outcome (\<lambda>(r, rt'). sys_ok False P rt') (ok_fault False) (method_impl m v rt)"
  by (auto simp: IZ_impl_def z_f1m1_def z_async_f1m1_def SI_call_k_async_def intro!: service_method_inv)

lemma IK_impl_inv:
  "m \<in> set IK_impl \<Longrightarrow> sys_ok False P rt
   \<Longrightarrow> outcome (\<lambda>(r, rt'). sys_ok False P rt') (ok_fault False) (method_impl m v rt)"
  by (auto simp: IK_impl_def k_f1m1_def intro!: service_method_inv)

lemma repositories:
  "service_y_repo E = Inr [2 \<mapsto> IY_impl E]" "service_z_repo E = Inr [1 \<mapsto> IZ_impl E]"
  "service_k_repo = Inr [1 \<mapsto> IK_impl]"
  by (simp_all add: service_y_repo_def service_z_repo_def service_k_repo_def add_iface_impl_def)

interpretation service_y: service_code "[2 \<mapsto> IY_impl E]" "run_register_task task" for E task
  by unfold_locales (auto split: if_splits intro: IY_impl_inv run_register_task_inv)

interpretation service_z: service_code "[1 \<mapsto> IZ_impl E]" "run_register_task task" for E task
  by unfold_locales (auto split: if_splits intro: IZ_impl_inv run_register_task_inv)

interpretation service_k: service_code "[1 \<mapsto> IK_impl]" "run_register_task task" for task
  by unfold_locales (auto split: if_splits intro: IK_impl_inv run_register_task_inv)

section \<open>The synchronous methods over the wire\<close>

text \<open>
  What the services promise of the methods that answer at once: the service and interface that take
  a request, and the response.
\<close>

fun sync_answer :: "'r senv \<Rightarrow> api_msg \<Rightarrow> (string \<times> 16 word \<times> (api_msg, 'r) iface \<times> api_msg) option" where
  "sync_answer E (YReq a b) = Some (''service_y'', 2, IY_impl E, YRsp (a * 2) None)"
| "sync_answer E (ZReq s b) = Some (''service_z'', 1, IZ_impl E, ZRsp 7 None)"
| "sync_answer E (KReq s b) = Some (''service_k'', 1, IK_impl, KRsp 2016 (Some 2017))"
| "sync_answer E v = None"

lemma sync_answer_method:
  assumes "sync_answer E v = Some (svc, i, ms, w)"
  shows "\<exists>m. find (\<lambda>m. method_index m = 1) ms = Some m \<and> req_type m = type_name v \<and> answers m v (type_name w) w"
  using assms
  by (cases v rule: api_val.cases)
    (auto simp: IY_impl_def IZ_impl_def IK_impl_def answers_def sync_method_def y_f1m1_def z_f1m1_def k_f1m1_def)


section \<open>A network of services\<close>

text \<open>Every message a node sent is put in one queue; the head goes to its addressee, if there is one.\<close>

record 'r node =
  node_repo :: "(api_msg, 'r) repository"
  node_rt :: "'r srt"

type_synonym packet = "service_id \<times> service_id \<times> 16 word \<times> bytes"
type_synonym 'r network = "(service_id \<rightharpoonup> 'r node) \<times> packet list"

fun packet_of :: "service_id \<Rightarrow> 'v event \<Rightarrow> packet list" where
  "packet_of me (Sent to m bs ok) = (if ok then [(me, to, m, bs)] else [])"
| "packet_of me (SentToSelf m bs ok) = (if ok then [(me, me, m, bs)] else [])"
| "packet_of me _ = []"

definition new_packets :: "service_id \<Rightarrow> ('v, 'r) rt \<Rightarrow> ('v, 'r) rt \<Rightarrow> packet list" where
  "new_packets me rt rt' = concat (map (packet_of me) (drop (length (trace rt)) (trace rt')))"

definition deliver_next :: "'r senv \<Rightarrow> (nat \<Rightarrow> 'r \<Rightarrow> 'r) \<Rightarrow> 'r network \<Rightarrow> fault + 'r network" where
  "deliver_next E task net =
     (case net of
        (nodes, []) \<Rightarrow> Inr net
      | (nodes, (from, to, m, bs) # q) \<Rightarrow>
          (case nodes to of
             None \<Rightarrow> Inr (nodes, q)
           | Some nd \<Rightarrow>
               bindR (handle_msg E (node_repo nd) (run_register_task task) m bs from (node_rt nd)) (\<lambda>(b, rt).
               Inr (nodes(to \<mapsto> nd\<lparr>node_rt := rt\<rparr>), q @ new_packets to (node_rt nd) rt))))"

definition deliver_all :: "nat \<Rightarrow> 'r senv \<Rightarrow> (nat \<Rightarrow> 'r \<Rightarrow> 'r) \<Rightarrow> 'r network \<Rightarrow> fault + 'r network" where
  "deliver_all n E task net = foldR (\<lambda>_. deliver_next E task) [0..<n] net"

section \<open>The demo network\<close>

definition demo_resolve :: "nat \<Rightarrow> string \<Rightarrow> bytes \<Rightarrow> unit \<Rightarrow> service_id option \<times> unit" where
  "demo_resolve r name mem reg =
     (map_of [(''service_y'', Endpoint 1 7777), (''service_z'', Endpoint 1 10000),
              (''service_k'', Endpoint 1 12000)] name, reg)"

definition demo_env :: "unit senv" where
  "demo_env =
     \<lparr>env_config = sample_config, thrift_write = wire_write, thrift_read = wire_read,
      resolve = demo_resolve, thrift_default_size = 1024, malloc_ok = (\<lambda>n. True),
      channel_ok = (\<lambda>sid m bs. True), self_channel_ok = (\<lambda>m bs. True), stack_pad = (0, 0),
      cast_timer_info = (\<lambda>bs. None)\<rparr>"

definition demo_nodes :: "service_id \<rightharpoonup> unit node" where
  "demo_nodes =
     [Endpoint 1 6666 \<mapsto> \<lparr>node_repo = Map.empty, node_rt = initial_rt ()\<rparr>,
      Endpoint 1 7777 \<mapsto> \<lparr>node_repo = [2 \<mapsto> IY_impl demo_env], node_rt = initial_rt ()\<rparr>,
      Endpoint 1 10000 \<mapsto> \<lparr>node_repo = [1 \<mapsto> IZ_impl demo_env], node_rt = initial_rt ()\<rparr>,
      Endpoint 1 12000 \<mapsto> \<lparr>node_repo = [1 \<mapsto> IK_impl], node_rt = initial_rt ()\<rparr>]"

text \<open>A test case runs on service_x, then the network delivers \<open>n\<close> packets.\<close>

definition run_testcase ::
  "(service_id \<rightharpoonup> unit node) \<Rightarrow> (unit srt \<Rightarrow> (api_msg, unit) res) \<Rightarrow> nat \<Rightarrow> fault + unit network" where
  "run_testcase nodes test n =
     bindR (test (initial_rt ())) (\<lambda>rt.
     deliver_all n demo_env (\<lambda>_. id)
       (nodes(Endpoint 1 6666 \<mapsto> \<lparr>node_repo = Map.empty, node_rt = rt\<rparr>),
        new_packets (Endpoint 1 6666) (initial_rt ()) rt))"

definition node_released :: "unit network \<Rightarrow> service_id \<Rightarrow> bool" where
  "node_released net sid = (case fst net sid of None \<Rightarrow> False | Some nd \<Rightarrow> all_released (node_rt nd))"

fun run_with :: "'v \<Rightarrow> nat \<Rightarrow> 'v event \<Rightarrow> bool" where
  "run_with v n (ActionRun m [s]) = (m = n \<and> (case cell_value s of Some (Rsp w) \<Rightarrow> w = v | _ \<Rightarrow> False))"
| "run_with v n _ = False"

definition saw :: "unit network \<Rightarrow> nat \<Rightarrow> api_msg \<Rightarrow> bool" where
  "saw net n v =
     (case fst net (Endpoint 1 6666) of
        None \<Rightarrow> False
      | Some nd \<Rightarrow> length (filter (run_with v n) (trace (node_rt nd))) = 1)"

definition all_nodes :: "service_id list" where
  "all_nodes = [Endpoint 1 6666, Endpoint 1 7777, Endpoint 1 10000, Endpoint 1 12000]"

definition ends_with :: "(unit srt \<Rightarrow> (api_msg, unit) res) \<Rightarrow> nat \<Rightarrow> nat \<Rightarrow> api_msg \<Rightarrow> bool" where
  "ends_with test n k v =
     (case run_testcase demo_nodes test n of
        Inl e \<Rightarrow> False
      | Inr net \<Rightarrow> saw net k v \<and> snd net = [] \<and> list_all (node_released net) all_nodes)"



text \<open>A client with one context.\<close>

definition demo_client :: "unit srt" where
  "demo_client = (case legal_run demo_env Map.empty (\<lambda>n. Inr) True [NewContext (Some 0)] (initial_rt ()) of
     None \<Rightarrow> initial_rt () | Some rt \<Rightarrow> rt)"

lemma demo_client_ok: "rt_ok demo_client"
proof -
  have "legal_run demo_env Map.empty (\<lambda>n. Inr) True [NewContext (Some 0)] (initial_rt ()) \<noteq> None" by code_simp
  then have "legal_run demo_env Map.empty (\<lambda>n. Inr) True [NewContext (Some 0)] (initial_rt ()) = Some demo_client"
    by (auto simp: demo_client_def)
  from reach_sys_ok [OF legal_run_reach [OF this reach_initial]] show ?thesis
    by (simp add: sys_ok_def rinv_def)
qed


end
