(* ===== verification/Endpoints.thy ===== *)
theory Endpoints
  imports Types "HOL-Library.Char_ord" "HOL-Library.List_Lexorder"
begin

text \<open>
  Service instances as they are named in zookeeper: \<^verbatim>\<open>address:port@session#version\<close>.  The parsing
  functions of \<^verbatim>\<open>zk_service_register.cpp\<close>, with \<^verbatim>\<open>strtoul\<close> and \<^verbatim>\<open>std::to_string\<close> of the C library.
\<close>

section \<open>Numbers in text\<close>

definition is_space :: "char \<Rightarrow> bool" where
  "is_space c = (of_char c \<in> {9, 10, 11, 12, 13, 32 :: nat})"

definition digit_of :: "char \<Rightarrow> nat option" where
  "digit_of c =
     (let n = of_char c
      in if 48 \<le> n \<and> n \<le> 57 then Some (n - 48)
         else if 97 \<le> n \<and> n \<le> 122 then Some (n - 87)
         else if 65 \<le> n \<and> n \<le> 90 then Some (n - 55)
         else None)"

fun read_digits :: "nat \<Rightarrow> nat \<Rightarrow> string \<Rightarrow> nat" where
  "read_digits base acc [] = acc"
| "read_digits base acc (c # cs) =
     (case digit_of c of
        Some d \<Rightarrow> if d < base then read_digits base (acc * base + d) cs else acc
      | None \<Rightarrow> acc)"

text \<open>\<^verbatim>\<open>strtoul(s, NULL, 0)\<close>: the prefix of the number chooses its base; too big a number is \<^verbatim>\<open>ULONG_MAX\<close>.\<close>

fun strip_sign :: "string \<Rightarrow> bool \<times> string" where
  "strip_sign (c # cs) = (if c = CHR ''-'' then (True, cs) else if c = CHR ''+'' then (False, cs) else (False, c # cs))"
| "strip_sign [] = (False, [])"

fun read_based :: "string \<Rightarrow> nat" where
  "read_based (c # x # cs) =
     (if c = CHR ''0''
      then if x = CHR ''x'' \<or> x = CHR ''X'' then read_digits 16 0 cs else read_digits 8 0 (x # cs)
      else read_digits 10 0 (c # x # cs))"
| "read_based cs = read_digits 10 0 cs"

definition strtoul :: "string \<Rightarrow> 64 word" where
  "strtoul s =
     (let (neg, s') = strip_sign (dropWhile is_space s); n = read_based s'
      in if 2 ^ 64 \<le> n then - 1 else if neg then - of_nat n else of_nat n)"

definition digit_char :: "nat \<Rightarrow> char" where
  "digit_char d = char_of (48 + d)"

function show_nat :: "nat \<Rightarrow> string" where
  "show_nat n = (if n < 10 then [digit_char n] else show_nat (n div 10) @ [digit_char (n mod 10)])"
  by auto
termination by (relation "measure id") auto

declare show_nat.simps [simp del]

text \<open>\<^verbatim>\<open>std::to_string\<close> of a signed integer.\<close>

definition show_int :: "int \<Rightarrow> string" where
  "show_int i = (if i < 0 then CHR ''-'' # show_nat (nat (- i)) else show_nat (nat i))"

section \<open>Instances\<close>

record instance_info =
  inst_id :: service_id
  inst_version :: string

text \<open>
  Boost's \<^verbatim>\<open>address::from_string\<close> throws on anything but an address; \<open>BadAddress\<close> is that exception.
  \<open>BadPath\<close> is the assertion of the instance watcher, \<open>NullZk\<close> a use of the null \<^verbatim>\<open>zk_\<close>.
\<close>

datatype register_error = BadAddress string | BadPath string | NullZk

definition str_to_service_id :: "(string \<Rightarrow> int option) \<Rightarrow> string \<Rightarrow> register_error + service_id option" where
  "str_to_service_id address_of endpoint =
     (if CHR '':'' \<notin> set endpoint then Inr None
      else let ip = takeWhile (\<lambda>c. c \<noteq> CHR '':'') endpoint;
               port = ucast (strtoul (drop (Suc (length ip)) endpoint))
           in case address_of ip of
                None \<Rightarrow> Inl (BadAddress ip)
              | Some a \<Rightarrow> Inr (Some (Endpoint a port)))"

definition service_version_of :: "string \<Rightarrow> string" where
  "service_version_of endpoint =
     (if CHR ''#'' \<notin> set endpoint then []
      else drop (Suc (length (takeWhile (\<lambda>c. c \<noteq> CHR ''#'') endpoint))) endpoint)"

text \<open>\<^verbatim>\<open>instance_set_t\<close> compares service ids only, so the first of several instances at one endpoint stays.\<close>

definition strings_to_instances :: "(string \<Rightarrow> int option) \<Rightarrow> string list \<Rightarrow> register_error + instance_info list" where
  "strings_to_instances address_of =
     (\<lambda>ss. foldR (\<lambda>si instance_set.
          bindR (str_to_service_id address_of si) (\<lambda>sid.
          Inr (case sid of
                 None \<Rightarrow> instance_set
               | Some s \<Rightarrow> set_insert (key_less inst_id) \<lparr>inst_id = s, inst_version = service_version_of si\<rparr> instance_set)))
        ss [])"

text \<open>The name of the node that stands for an instance.\<close>

definition instance_node :: "string \<Rightarrow> int \<Rightarrow> string \<Rightarrow> string" where
  "instance_node end_point client_id version = end_point @ ''@'' @ show_int client_id @ ''#'' @ version"

section \<open>Lemmas\<close>

lemma digit_of_char [simp]: "d < 10 \<Longrightarrow> digit_of (digit_char d) = Some d"
  by (simp add: digit_of_def digit_char_def of_char_of Let_def)

lemma read_digits_append:
  "(\<And>c. c \<in> set cs \<Longrightarrow> \<exists>d < base. digit_of c = Some d)
   \<Longrightarrow> read_digits base acc (cs @ ds) = read_digits base (read_digits base acc cs) ds"
proof (induction cs arbitrary: acc)
  case (Cons c cs)
  then obtain d where "d < base" "digit_of c = Some d" by fastforce
  with Cons show ?case by simp
qed simp

lemma show_nat_digits: "c \<in> set (show_nat n) \<Longrightarrow> \<exists>d < 10. c = digit_char d"
proof (induction n rule: show_nat.induct)
  case (1 n)
  have "\<exists>d<10. digit_char (n mod 10) = digit_char d" by (rule exI [of _ "n mod 10"]) simp
  with 1 show ?case by (cases "n < 10") (auto simp: show_nat.simps [of n])
qed

lemma show_nat_digit_of: "c \<in> set (show_nat n) \<Longrightarrow> \<exists>d < 10. digit_of c = Some d"
  using show_nat_digits by fastforce

definition ends_number :: "string \<Rightarrow> bool" where
  "ends_number cs \<longleftrightarrow> cs = [] \<or> digit_of (hd cs) = None"

lemma read_digits_stop: "ends_number cs \<Longrightarrow> read_digits base acc cs = acc"
  by (cases cs) (auto simp: ends_number_def)

lemma read_show_nat: "ends_number cs \<Longrightarrow> read_digits 10 0 (show_nat n @ cs) = n"
proof (induction n arbitrary: cs rule: show_nat.induct)
  case (1 n)
  show ?case
  proof (cases "n < 10")
    case False
    let ?m = "n div 10"
    have "read_digits 10 0 (show_nat ?m @ []) = ?m" using 1(1) [OF False, of "[]"] by (simp add: ends_number_def)
    then have m: "read_digits 10 0 (show_nat ?m) = ?m" by simp
    have "read_digits 10 0 (show_nat ?m @ digit_char (n mod 10) # cs) = ?m * 10 + n mod 10"
      using 1(2) by (simp add: read_digits_append show_nat_digit_of m read_digits_stop)
    then show ?thesis using False by (simp add: show_nat.simps [of n])
  qed (simp add: show_nat.simps [of n] read_digits_stop 1(2))
qed

lemma show_nat_hd: "\<exists>d cs. show_nat n = digit_char d # cs \<and> d < 10 \<and> (d = 0 \<longrightarrow> cs = [])"
proof (induction n rule: show_nat.induct)
  case (1 n)
  show ?case
  proof (cases "n < 10")
    case False
    from 1 [OF False] obtain d cs where m: "show_nat (n div 10) = digit_char d # cs" "d < 10" "d = 0 \<longrightarrow> cs = []" by blast
    moreover have "d \<noteq> 0"
    proof
      assume "d = 0"
      with m read_show_nat [of "[]" "n div 10"] have "n div 10 = 0" by (simp add: ends_number_def)
      with False show False by simp
    qed
    ultimately show ?thesis using False by (auto simp: show_nat.simps [of n])
  qed (auto simp: show_nat.simps [of n])
qed

lemma digit_char_code: "d < 10 \<Longrightarrow> of_char (digit_char d) = 48 + d"
  by (simp add: digit_char_def of_char_of)

lemma digit_char_neq:
  assumes "d < 10" and "of_char c < (48 :: nat) \<or> (57 :: nat) < of_char c"
  shows "digit_char d \<noteq> c"
proof
  assume "digit_char d = c"
  then have "of_char c = 48 + d" using digit_char_code [OF assms(1)] by simp
  with assms show False by simp
qed

lemma show_nat_no_mark: "of_char c < (48 :: nat) \<or> (57 :: nat) < of_char c \<Longrightarrow> c \<notin> set (show_nat n)"
  using show_nat_digits digit_char_neq by blast

lemma show_int_no_mark:
  "of_char c < (48 :: nat) \<or> (57 :: nat) < of_char c \<Longrightarrow> c \<noteq> CHR ''-'' \<Longrightarrow> c \<notin> set (show_int i)"
  by (auto simp: show_int_def show_nat_no_mark)

text \<open>A port in decimal is read as that port, whatever follows it.\<close>

lemma strtoul_show_nat:
  assumes "n < 2 ^ 64" and "ends_number cs" and "cs = [] \<or> hd cs \<notin> {CHR ''x'', CHR ''X''}"
  shows "strtoul (show_nat n @ cs) = of_nat n"
proof -
  obtain d ds where s: "show_nat n = digit_char d # ds" "d < 10" "d = 0 \<longrightarrow> ds = []" using show_nat_hd by blast
  have code: "of_char (digit_char d) = 48 + d" by (rule digit_char_code [OF s(2)])
  then have sp: "\<not> is_space (digit_char d)" using s(2) by (simp add: is_space_def)
  have sg: "digit_char d \<noteq> CHR ''-''" "digit_char d \<noteq> CHR ''+''" using s(2) by (simp_all add: digit_char_neq)
  have z: "digit_char d = CHR ''0'' \<longleftrightarrow> d = 0"
    using code by (simp add: of_char_eq_iff [symmetric, where 'a = nat])
  have n: "read_digits 10 0 (digit_char d # ds @ cs) = n" using read_show_nat [OF assms(2), of n] s(1) by simp
  have "read_based (digit_char d # ds @ cs) = n"
  proof (cases "d = 0")
    case True
    with s n have "n = 0" "ds = []" using read_digits_stop [OF assms(2)] by auto
    with True z assms(2,3) n show ?thesis by (cases cs) (auto simp: read_digits_stop ends_number_def)
  next
    case False
    with z n show ?thesis by (cases "ds @ cs") simp_all
  qed
  then show ?thesis using assms(1) sp sg by (simp add: strtoul_def s(1))
qed

section \<open>What is found in a list of nodes\<close>

abbreviation collect_instance :: "(string \<Rightarrow> int option) \<Rightarrow> string \<Rightarrow> instance_info list \<Rightarrow> register_error + instance_info list" where
  "collect_instance address_of si instance_set \<equiv>
     bindR (str_to_service_id address_of si) (\<lambda>sid.
     Inr (case sid of
            None \<Rightarrow> instance_set
          | Some s \<Rightarrow> set_insert (key_less inst_id) \<lparr>inst_id = s, inst_version = service_version_of si\<rparr> instance_set))"

definition names_instance :: "(string \<Rightarrow> int option) \<Rightarrow> string \<Rightarrow> instance_info \<Rightarrow> bool" where
  "names_instance address_of si i \<longleftrightarrow>
     str_to_service_id address_of si = Inr (Some (inst_id i)) \<and> inst_version i = service_version_of si"

lemma collected:
  "foldR (collect_instance address_of) ss S = Inr is \<Longrightarrow>
   (sorted_wrt (key_less inst_id) S \<longrightarrow> sorted_wrt (key_less inst_id) is)
   \<and> inst_id ` set is = inst_id ` set S \<union> {s. \<exists>si\<in>set ss. str_to_service_id address_of si = Inr (Some s)}
   \<and> (\<forall>i\<in>set is. i \<in> set S \<or> (\<exists>si\<in>set ss. names_instance address_of si i))"
proof (induction ss arbitrary: S)
  case (Cons si ss)
  then obtain sid where sid: "str_to_service_id address_of si = Inr sid" by (auto simp: bindR_eq_Inr)
  show ?case
  proof (cases sid)
    case None
    with Cons.prems sid show ?thesis using Cons.IH [of S] by auto
  next
    case (Some s)
    let ?i = "\<lparr>inst_id = s, inst_version = service_version_of si\<rparr>"
    let ?S = "set_insert (key_less inst_id) ?i S"
    have "foldR (collect_instance address_of) ss ?S = Inr is" using Cons.prems sid Some by simp
    from Cons.IH [OF this] show ?thesis
      using set_insert_sorted [of inst_id S ?i] set_insert_keys [of inst_id ?i S]
        set_insert_subset [of "key_less inst_id" ?i S]
      by (auto simp: sid Some names_instance_def)
  qed
qed simp

lemmas instances_collected = collected [where S = "[]", folded strings_to_instances_def, simplified]

lemma collect_fails:
  "(\<exists>e. foldR (collect_instance address_of) ss S = Inl e) \<longleftrightarrow> (\<exists>si\<in>set ss. \<exists>e. str_to_service_id address_of si = Inl e)"
proof (induction ss arbitrary: S)
  case (Cons si ss)
  then show ?case by (cases "str_to_service_id address_of si") (auto simp: bindR_def)
qed simp

text \<open>
  The instances of a service are listed once per endpoint, in the order of their endpoints, and
  are those whose node names an endpoint.
\<close>

theorem instances_of_nodes:
  assumes "strings_to_instances address_of ss = Inr is"
  shows "sorted_wrt (key_less inst_id) is \<and> distinct (map inst_id is)
    \<and> inst_id ` set is = {s. \<exists>si\<in>set ss. str_to_service_id address_of si = Inr (Some s)}
    \<and> (\<forall>i\<in>set is. \<exists>si\<in>set ss. names_instance address_of si i)"
  using collected [of address_of ss "[]" "is"] assms by (auto simp: strings_to_instances_def sorted_keys_distinct)

theorem instances_of_nodes_witness:
  "\<exists>is. strings_to_instances (\<lambda>ip. Some (int (length ip))) [''b:2'', ''none'', ''a:1#v''] = Inr is
    \<and> distinct (map inst_id is)"
proof -
  have "\<exists>is. strings_to_instances (\<lambda>ip. Some (int (length ip))) [''b:2'', ''none'', ''a:1#v''] = Inr is"
    by (simp add: strings_to_instances_def str_to_service_id_def)
  then show ?thesis using instances_of_nodes by blast
qed

text \<open>
  One node whose name holds a colon but no address before it makes the exception of
  \<^verbatim>\<open>from_string\<close> leave the function, whatever the other nodes are; an address in IPv6 form is such a
  name.
\<close>

theorem bad_address_escapes:
  "((\<exists>e. strings_to_instances address_of ss = Inl e) \<longleftrightarrow>
      (\<exists>si\<in>set ss. CHR '':'' \<in> set si \<and> address_of (takeWhile (\<lambda>c. c \<noteq> CHR '':'') si) = None))
   \<and> str_to_service_id address_of ''::1:8080'' = (case address_of [] of None \<Rightarrow> Inl (BadAddress []) | Some a \<Rightarrow> Inr (Some (Endpoint a 0)))"
proof -
  have "(\<exists>e. str_to_service_id address_of si = Inl e) \<longleftrightarrow>
      CHR '':'' \<in> set si \<and> address_of (takeWhile (\<lambda>c. c \<noteq> CHR '':'') si) = None" for si
    by (simp add: str_to_service_id_def Let_def split: option.split)
  moreover have "str_to_service_id address_of ''::1:8080''
      = (case address_of [] of None \<Rightarrow> Inl (BadAddress []) | Some a \<Rightarrow> Inr (Some (Endpoint a 0)))"
    by (simp add: str_to_service_id_def strtoul_def is_space_def digit_of_def split: option.split)
  ultimately show ?thesis by (simp add: strings_to_instances_def collect_fails)
qed

section \<open>Registering and finding\<close>

lemma takeWhile_mark: "c \<notin> set xs \<Longrightarrow> takeWhile (\<lambda>x. x \<noteq> c) (xs @ c # ys) = xs"
  by (induction xs) auto

lemma port_kept: "ucast (ucast p :: 64 word) = (p :: 16 word)"
  by (rule bit_word_eqI) (auto simp: bit_unsigned_iff)

lemma node_endpoint:
  assumes "CHR '':'' \<notin> set ip" and "address_of ip = Some a"
  shows "str_to_service_id address_of (instance_node (ip @ '':'' @ show_nat (unat p)) cid ver) = Inr (Some (Endpoint a p))"
proof -
  have "unat p < 2 ^ 16" using unsigned_less [of p] by simp
  then have "unat p < 2 ^ 64" by simp
  then have "strtoul (show_nat (unat p) @ ''@'' @ show_int cid @ ''#'' @ ver) = of_nat (unat p)"
    by (intro strtoul_show_nat) (simp_all add: ends_number_def digit_of_def)
  then show ?thesis
    using assms by (simp add: str_to_service_id_def instance_node_def takeWhile_mark port_kept)
qed

lemma node_version:
  assumes "CHR ''#'' \<notin> set end_point"
  shows "service_version_of (instance_node end_point cid ver) = ver"
proof -
  let ?pre = "end_point @ ''@'' @ show_int cid"
  have pre: "CHR ''#'' \<notin> set ?pre" using assms by (simp add: show_int_no_mark)
  have node: "instance_node end_point cid ver = ?pre @ CHR ''#'' # ver" by (simp add: instance_node_def)
  show ?thesis unfolding node service_version_of_def takeWhile_mark [OF pre] by simp
qed

text \<open>
  C21: the node under which an instance is registered is read back as its endpoint and version.
\<close>

theorem registered_instance_found:
  assumes "CHR '':'' \<notin> set ip" and "CHR ''#'' \<notin> set ip" and "address_of ip = Some a"
    and "instance_node (ip @ '':'' @ show_nat (unat p)) cid ver \<in> set ss"
    and "strings_to_instances address_of ss = Inr is"
  shows "names_instance address_of (instance_node (ip @ '':'' @ show_nat (unat p)) cid ver) \<lparr>inst_id = Endpoint a p, inst_version = ver\<rparr>
    \<and> Endpoint a p \<in> inst_id ` set is"
proof -
  let ?node = "instance_node (ip @ '':'' @ show_nat (unat p)) cid ver"
  have "CHR ''#'' \<notin> set (ip @ '':'' @ show_nat (unat p))" using assms(2) by (simp add: show_nat_no_mark)
  then have "names_instance address_of ?node \<lparr>inst_id = Endpoint a p, inst_version = ver\<rparr>"
    using node_endpoint [of ip address_of a p cid ver] assms(1,3) node_version by (simp add: names_instance_def)
  moreover have "inst_id ` set is = {s. \<exists>si\<in>set ss. str_to_service_id address_of si = Inr (Some s)}"
    using collected [of address_of ss "[]" "is"] assms(5) by (simp add: strings_to_instances_def)
  ultimately show ?thesis using assms(4) by (auto simp: names_instance_def)
qed

theorem registered_instance_found_witness:
  "\<exists>is. strings_to_instances (\<lambda>ip. Some 1) [instance_node (''h'' @ '':'' @ show_nat (unat (7777 :: 16 word))) (- 5) ''1.0''] = Inr is
    \<and> Endpoint 1 7777 \<in> inst_id ` set is"
proof -
  let ?node = "instance_node (''h'' @ '':'' @ show_nat (unat (7777 :: 16 word))) (- 5) ''1.0''"
  have "\<exists>is. strings_to_instances (\<lambda>ip. Some 1) [?node] = Inr is"
    using node_endpoint [of "''h''" "\<lambda>ip. Some 1" 1 7777 "- 5" "''1.0''"] by (simp add: strings_to_instances_def)
  then show ?thesis
    using registered_instance_found [of "''h''" "\<lambda>ip. Some 1" 1 7777 "- 5" "''1.0''" "[?node]"] by auto
qed

end
