(* ===== verification/ServiceRegister.thy ===== *)
theory ServiceRegister
  imports Endpoints
begin

text \<open>
  \<^verbatim>\<open>ZkServiceRegister\<close> of \<^verbatim>\<open>zk_service_register.cpp\<close>: the cache of the services and their instances, kept
  up to date by the watches of a zookeeper client, the listeners of the services, and the choice of
  an instance.  The watchers run on the client's thread, which may not touch the cache: they
  dispatch tasks that run on the main one, \<open>main_queue\<close> here.
\<close>

section \<open>State\<close>

text \<open>
  The zookeeper client library and server are outside: what starting the \<open>n\<close>th client, creating a
  node and reading the session's id give.  \<open>Started\<close> tells whether the new client is connected.  A
  listener is a number, the order of its address; \<open>tracked_listeners\<close> and \<open>filters\<close> are what the
  two \<^verbatim>\<open>InstancesCollector\<close>s hold.
\<close>

datatype zk_event = SESSION_EVENT | CHILD_EVENT | OTHER_EVENT int
datatype zk_rc = ZOK | ZNODEEXISTS | ZERROR int
datatype started = StartThrew string | Started bool

record zk_env =
  zk_start :: "nat \<Rightarrow> started"
  zk_create :: "string \<Rightarrow> bool \<Rightarrow> zk_rc"
  client_id :: "nat \<Rightarrow> int option"
  parse_address :: "string \<Rightarrow> int option"
  service_to_listener :: "nat \<Rightarrow> string"
  tracked_listeners :: "nat list"
  filters :: "(string \<Rightarrow> instance_info list \<Rightarrow> instance_info list) list"

text \<open>
  \<open>zk_up\<close> is whether \<^verbatim>\<open>zk_\<close> reports a connected state, \<open>zk_children\<close> the server's tree and \<open>watched\<close>
  the paths whose child watch is set; they change from outside.  \<open>notified\<close> is the list each
  listener was given last, and \<open>created\<close> the nodes asked for, with the flag of ephemeral ones.
\<close>

record register =
  zk_handle :: "nat option"
  zk_up :: bool
  zk_attempts :: nat
  exit_handlers :: nat
  zk_children :: "string \<Rightarrow> string list"
  watched :: "string set"
  created :: "(string \<times> bool) list"
  listeners_map :: "string \<rightharpoonup> nat list"
  round_robin_map :: "string \<rightharpoonup> 64 word"
  services_cache :: "string \<rightharpoonup> instance_info list"
  old_services :: "string list"
  main_queue :: "(string \<times> instance_info list) list"
  notified :: "nat \<rightharpoonup> instance_info list"

definition k_services_root :: string where
  "k_services_root = ''/services''"

definition service_path :: "string \<Rightarrow> string" where
  "service_path service = k_services_root @ ''/'' @ service"

section \<open>Choosing an instance\<close>

definition service_name_to_id :: "string \<Rightarrow> register \<Rightarrow> service_id option \<times> register" where
  "service_name_to_id service_name r =
     (case services_cache r service_name of
        None \<Rightarrow> (None, r)
      | Some instances \<Rightarrow>
          if instances = [] then (None, r)
          else if length instances = 1 then (Some (inst_id (instances ! 0)), r)
          else let next_rr_index = (case round_robin_map r service_name of None \<Rightarrow> 0 | Some i \<Rightarrow> i)
               in (Some (inst_id (instances ! (unat next_rr_index mod length instances))),
                   r\<lparr>round_robin_map := (round_robin_map r)(service_name \<mapsto> next_rr_index + 1)\<rparr>))"

definition instances_of :: "string \<Rightarrow> register \<Rightarrow> instance_info list" where
  "instances_of service_name r =
     (case services_cache r service_name of None \<Rightarrow> [] | Some instances \<Rightarrow> instances)"

section \<open>Listeners\<close>

definition do_notify_listeners :: "string \<Rightarrow> instance_info list \<Rightarrow> register \<Rightarrow> register" where
  "do_notify_listeners service_name iv r =
     (case listeners_map r service_name of
        None \<Rightarrow> r
      | Some ls \<Rightarrow> fold (\<lambda>l r. r\<lparr>notified := (notified r)(l \<mapsto> iv)\<rparr>) ls r)"

definition zk_register_listener :: "zk_env \<Rightarrow> nat \<Rightarrow> register \<Rightarrow> register" where
  "zk_register_listener E l r =
     (let service_name = service_to_listener E l;
          ls = (case listeners_map r service_name of None \<Rightarrow> [] | Some ls \<Rightarrow> ls);
          r' = r\<lparr>listeners_map := (listeners_map r)(service_name \<mapsto> set_insert (<) l ls)\<rparr>
      in case services_cache r' service_name of
           None \<Rightarrow> r'
         | Some iv \<Rightarrow> do_notify_listeners service_name iv r')"

definition zk_unregister_listener :: "zk_env \<Rightarrow> nat \<Rightarrow> register \<Rightarrow> register" where
  "zk_unregister_listener E l r =
     (case listeners_map r (service_to_listener E l) of
        None \<Rightarrow> r
      | Some ls \<Rightarrow>
          r\<lparr>listeners_map := (listeners_map r)(service_to_listener E l \<mapsto> filter (\<lambda>x. x \<noteq> l) ls)\<rparr>)"

section \<open>The connection\<close>

definition is_zk_connected :: "register \<Rightarrow> bool" where
  "is_zk_connected r = (zk_handle r \<noteq> None \<and> zk_up r)"

definition try_connect_zk :: "zk_env \<Rightarrow> register \<Rightarrow> bool \<times> register" where
  "try_connect_zk E r =
     (if is_zk_connected r then (True, r)
      else let r1 = (if zk_handle r = None then r\<lparr>exit_handlers := Suc (exit_handlers r)\<rparr> else r);
               n = zk_attempts r1;
               r2 = r1\<lparr>zk_attempts := Suc n\<rparr>
           in case zk_start E n of
                StartThrew msg \<Rightarrow> (False, r2)
              | Started up \<Rightarrow> if \<not> up then (False, r2) else (True, r2\<lparr>zk_handle := Some n, zk_up := True\<rparr>))"

text \<open>A loop that ends only when an attempt succeeds.\<close>

partial_function (option) wait_util_zk_is_connected :: "zk_env \<Rightarrow> register \<Rightarrow> register option" where
  "wait_util_zk_is_connected E r =
     (case try_connect_zk E r of
        (connected, r') \<Rightarrow> if connected then Some r' else wait_util_zk_is_connected E r')"

section \<open>Registering an instance\<close>

definition create_node :: "string \<Rightarrow> bool \<Rightarrow> register \<Rightarrow> register" where
  "create_node path ephemeral r = r\<lparr>created := created r @ [(path, ephemeral)]\<rparr>"

definition watch_children :: "string \<Rightarrow> register \<Rightarrow> register" where
  "watch_children path r = r\<lparr>watched := insert path (watched r)\<rparr>"

definition create_ephemeral_node_for_service_instance ::
  "zk_env \<Rightarrow> string \<Rightarrow> string \<Rightarrow> string \<Rightarrow> register \<Rightarrow> register_error + bool \<times> register" where
  "create_ephemeral_node_for_service_instance E service_name version end_point r =
     (case zk_handle r of
        None \<Rightarrow> Inl NullZk
      | Some zk \<Rightarrow>
          let r1 = create_node (service_path service_name) False
                     (watch_children k_services_root (create_node k_services_root False r))
          in case client_id E zk of
               None \<Rightarrow> Inr (False, r1)
             | Some session_id \<Rightarrow>
                 let path = service_path service_name @ ''/'' @ instance_node end_point session_id version
                 in Inr (zk_create E path True \<in> {ZOK, ZNODEEXISTS}, create_node path True r1))"

text \<open>\<open>None\<close> is a null pointer; the outer \<open>None\<close> of the result is the loop that does not end.\<close>

definition register_service ::
  "zk_env \<Rightarrow> string option \<Rightarrow> string \<Rightarrow> string option \<Rightarrow> register \<Rightarrow> (register_error + bool \<times> register) option" where
  "register_service E service_name version end_point r =
     (case (service_name, end_point) of
        (Some name, Some ep) \<Rightarrow>
          (case wait_util_zk_is_connected E r of
             None \<Rightarrow> None
           | Some r' \<Rightarrow> Some (create_ephemeral_node_for_service_instance E name version ep r'))
      | _ \<Rightarrow> Some (Inr (False, r)))"

section \<open>Fetching\<close>

definition fetch_service_instances_from_zk ::
  "zk_env \<Rightarrow> string \<Rightarrow> register \<Rightarrow> register_error + instance_info list option \<times> register" where
  "fetch_service_instances_from_zk E service r =
     (case try_connect_zk E r of
        (connected, r1) \<Rightarrow>
          if \<not> connected then Inr (None, r1)
          else let r2 = watch_children (service_path service) r1
               in bindR (strings_to_instances (parse_address E) (zk_children r2 (service_path service)))
                    (\<lambda>instances. Inr (Some instances, r2)))"

definition fetch_and_update_instances :: "zk_env \<Rightarrow> string \<Rightarrow> register \<Rightarrow> register_error + register" where
  "fetch_and_update_instances E service_name r =
     bindR (fetch_service_instances_from_zk E service_name r) (\<lambda>(fetched, r1).
     Inr (case fetched of
            None \<Rightarrow> r1
          | Some iv \<Rightarrow> r1\<lparr>main_queue := main_queue r1 @ [(service_name, iv)]\<rparr>))"

text \<open>The task that \<open>fetch_and_update_instances\<close> dispatches.\<close>

definition run_update_task :: "string \<times> instance_info list \<Rightarrow> register \<Rightarrow> register" where
  "run_update_task = (\<lambda>(service_name, iv) r.
     do_notify_listeners service_name iv (r\<lparr>services_cache := (services_cache r)(service_name \<mapsto> iv)\<rparr>))"

definition fetch_and_filter :: "zk_env \<Rightarrow> string \<Rightarrow> register \<Rightarrow> register_error + register" where
  "fetch_and_filter E service r =
     bindR (fetch_service_instances_from_zk E service r) (\<lambda>(fetched, r1).
     Inr (case fetched of
            None \<Rightarrow> r1
          | Some iv \<Rightarrow>
              let iv' = fold (\<lambda>f iv. f service iv) (filters E) iv
              in do_notify_listeners service iv' (r1\<lparr>services_cache := (services_cache r1)(service \<mapsto> iv')\<rparr>)))"

definition try_fetch_services_from_zk :: "zk_env \<Rightarrow> register \<Rightarrow> register_error + bool \<times> register" where
  "try_fetch_services_from_zk E r =
     (case try_connect_zk E r of
        (connected, r1) \<Rightarrow>
          if \<not> connected then Inr (False, r1)
          else let latest_services = zk_children r1 k_services_root;
                   r2 = (watch_children k_services_root r1)\<lparr>old_services := sort latest_services\<rparr>
               in bindR (foldR (fetch_and_filter E) latest_services r2) (\<lambda>r3. Inr (True, r3)))"

definition register_init :: "zk_env \<Rightarrow> register \<Rightarrow> (register_error + bool \<times> register) option" where
  "register_init E r =
     (case wait_util_zk_is_connected E (fold (zk_register_listener E) (tracked_listeners E) r) of
        None \<Rightarrow> None
      | Some r' \<Rightarrow> Some (try_fetch_services_from_zk E r'))"

section \<open>Watchers\<close>

text \<open>\<^verbatim>\<open>std::set_difference\<close> of two sorted ranges.\<close>

fun set_difference :: "'a::linorder list \<Rightarrow> 'a list \<Rightarrow> 'a list" where
  "set_difference [] ys = []"
| "set_difference (x # xs) [] = x # xs"
| "set_difference (x # xs) (y # ys) =
     (if x < y then x # set_difference xs (y # ys)
      else if y < x then set_difference (x # xs) ys
      else set_difference xs ys)"

definition changed_services :: "string list \<Rightarrow> string list \<Rightarrow> string list" where
  "changed_services services old = set_difference services old @ set_difference old services"

definition try_fetch_services :: "register \<Rightarrow> string list \<times> register" where
  "try_fetch_services r = (zk_children r k_services_root, watch_children k_services_root r)"

definition service_child_watcher_fn :: "zk_env \<Rightarrow> zk_event \<Rightarrow> register \<Rightarrow> register_error + register" where
  "service_child_watcher_fn E type r =
     (if type \<noteq> CHILD_EVENT then Inr r
      else case try_fetch_services r of
             (fetched, r1) \<Rightarrow>
               let services = sort fetched
               in bindR (foldR (fetch_and_update_instances E) (changed_services services (old_services r1)) r1)
                    (\<lambda>r2. Inr (r2\<lparr>old_services := services\<rparr>)))"

definition instance_child_watcher_fn :: "zk_env \<Rightarrow> zk_event \<Rightarrow> string \<Rightarrow> register \<Rightarrow> register_error + register" where
  "instance_child_watcher_fn E type path r =
     (if type \<noteq> CHILD_EVENT then Inr r
      else if \<not> length path > length k_services_root + 1 then Inl (BadPath path)
      else fetch_and_update_instances E (drop (length k_services_root + 1) path) r)"

text \<open>The session watcher only logs.\<close>

datatype zk_state = ZOO_CONNECTING_STATE | ZOO_CONNECTED_STATE | ZOO_STATE int

definition session_watcher_fn :: "zk_event \<Rightarrow> zk_state \<Rightarrow> string option" where
  "session_watcher_fn type state =
     (if type = SESSION_EVENT
      then Some (''zookeeper connection status changed to: ''
                 @ (case state of
                      ZOO_CONNECTING_STATE \<Rightarrow> ''ZOO_CONNECTING_STATE''
                    | ZOO_CONNECTED_STATE \<Rightarrow> ''ZOO_CONNECTED_STATE''
                    | ZOO_STATE n \<Rightarrow> show_int n))
      else None)"

end
