(* ===== verification/Discovery.thy ===== *)
theory Discovery
  imports ServiceRegister "HOL-Library.Multiset"
begin

text \<open>
  The runs of a service register: its operations and watchers as the steps of a process whose
  zookeeper changes under it, the invariant of the states it reaches, and what a change of the
  server's tree leads to.
\<close>

section \<open>Connecting\<close>

definition same_data :: "register \<Rightarrow> register \<Rightarrow> bool" where
  "same_data r r' \<longleftrightarrow>
     zk_children r' = zk_children r \<and> listeners_map r' = listeners_map r
     \<and> round_robin_map r' = round_robin_map r \<and> services_cache r' = services_cache r
     \<and> main_queue r' = main_queue r \<and> notified r' = notified r"

lemma same_data_refl [simp]: "same_data r r"
  by (simp add: same_data_def)

lemma same_data_trans: "same_data r r' \<Longrightarrow> same_data r' r'' \<Longrightarrow> same_data r r''"
  by (simp add: same_data_def)

lemma try_connect_same: "try_connect_zk E r = (b, r') \<Longrightarrow> same_data r r' \<and> old_services r' = old_services r \<and> (b \<longrightarrow> is_zk_connected r')"
  by (auto simp: try_connect_zk_def Let_def same_data_def is_zk_connected_def split: if_splits started.splits)

lemma try_connect_up [simp]: "is_zk_connected r \<Longrightarrow> try_connect_zk E r = (True, r)"
  by (simp add: try_connect_zk_def)

lemma wait_connected: "is_zk_connected r \<Longrightarrow> wait_util_zk_is_connected E r = Some r"
  by (simp add: wait_util_zk_is_connected.simps)

lemma try_connect_fails:
  "try_connect_zk E r = (False, r') \<Longrightarrow> \<not> is_zk_connected r \<and> \<not> is_zk_connected r' \<and> zk_attempts r' = Suc (zk_attempts r)"
  by (auto simp: try_connect_zk_def Let_def is_zk_connected_def split: if_splits started.splits)

lemma try_connect_succeeds:
  "try_connect_zk E r = (True, r') \<Longrightarrow> is_zk_connected r \<or> zk_start E (zk_attempts r) = Started True"
  by (auto simp: try_connect_zk_def Let_def split: if_splits started.splits)

definition waited :: "zk_env \<Rightarrow> register \<Rightarrow> register \<Rightarrow> bool" where
  "waited E r r' \<longleftrightarrow>
     same_data r r' \<and> old_services r' = old_services r \<and> is_zk_connected r'
     \<and> (is_zk_connected r \<or> (\<exists>n\<ge>zk_attempts r. zk_start E n = Started True))"

lemma wait_result: "wait_util_zk_is_connected E r = Some r' \<Longrightarrow> waited E r r'"
proof (rule wait_util_zk_is_connected.raw_induct [where P = waited])
  fix wait and E :: zk_env and r r' :: register
  assume IH: "\<And>E r r'. wait E r = Some r' \<Longrightarrow> waited E r r'"
    and step: "(case try_connect_zk E r of (connected, r') \<Rightarrow> if connected then Some r' else wait E r') = Some r'"
  obtain b r1 where t: "try_connect_zk E r = (b, r1)" by fastforce
  show "waited E r r'"
  proof (cases b)
    case True
    with t step show ?thesis using try_connect_same [OF t] try_connect_succeeds [of E r r1] by (auto simp: waited_def)
  next
    case False
    with t step have "waited E r1 r'" by (intro IH) simp
    with False t show ?thesis
      using try_connect_same [OF t] try_connect_fails [of E r r1] by (auto simp: waited_def intro: same_data_trans Suc_leD)
  qed
qed

text \<open>Only the attempts before the first success matter.\<close>

definition connected_at :: "nat \<Rightarrow> register \<Rightarrow> register" where
  "connected_at n r =
     r\<lparr>zk_attempts := Suc n, zk_handle := Some n, zk_up := True,
       exit_handlers := exit_handlers r + (if zk_handle r = None then Suc n - zk_attempts r else 0)\<rparr>"

lemma wait_at:
  assumes "\<not> is_zk_connected r" and "zk_attempts r \<le> n" and "zk_start E n = Started True"
    and "\<And>m. zk_attempts r \<le> m \<Longrightarrow> m < n \<Longrightarrow> zk_start E m \<noteq> Started True"
  shows "wait_util_zk_is_connected E r = Some (connected_at n r)"
  using assms
proof (induction "n - zk_attempts r" arbitrary: r)
  case 0
  then have "n = zk_attempts r" by simp
  with 0 show ?case
    by (subst wait_util_zk_is_connected.simps) (auto simp: try_connect_zk_def connected_at_def Let_def)
next
  case (Suc k)
  let ?r = "r\<lparr>zk_attempts := Suc (zk_attempts r), exit_handlers := exit_handlers r + (if zk_handle r = None then 1 else 0)\<rparr>"
  have "zk_start E (zk_attempts r) \<noteq> Started True" using Suc by simp
  then have "try_connect_zk E r = (False, ?r)"
    using Suc.prems(1) by (cases "zk_start E (zk_attempts r)") (auto simp: try_connect_zk_def Let_def)
  moreover have "wait_util_zk_is_connected E ?r = Some (connected_at n ?r)"
    using Suc.prems Suc.hyps by (intro Suc.hyps) (auto simp: is_zk_connected_def)
  moreover have "connected_at n ?r = connected_at n r"
    using Suc by (auto simp: connected_at_def)
  ultimately show ?case by (subst wait_util_zk_is_connected.simps) simp
qed

text \<open>
  C33: the wait for a connection ends exactly when some attempt succeeds, at the first that does; a
  handler that closes the connection at exit is registered once for every attempt made while there
  is no connection yet, not once.
\<close>

theorem waiting_ends:
  assumes "\<not> is_zk_connected r"
  shows "wait_util_zk_is_connected E r =
    (if \<exists>n\<ge>zk_attempts r. zk_start E n = Started True
     then Some (connected_at (LEAST n. zk_attempts r \<le> n \<and> zk_start E n = Started True) r)
     else None)"
proof (cases "\<exists>n\<ge>zk_attempts r. zk_start E n = Started True")
  case True
  let ?P = "\<lambda>n. zk_attempts r \<le> n \<and> zk_start E n = Started True"
  have "?P (Least ?P)" by (rule LeastI_ex) (use True in blast)
  moreover have "zk_start E m \<noteq> Started True" if "zk_attempts r \<le> m" "m < Least ?P" for m
    using that not_less_Least by blast
  ultimately show ?thesis using True wait_at [OF assms] by simp
next
  case False
  then show ?thesis using wait_result [of E r] assms by (cases "wait_util_zk_is_connected E r") (auto simp: waited_def)
qed

section \<open>Notifying\<close>

lemma notify_all:
  "fold (\<lambda>l r. r\<lparr>notified := (notified r)(l \<mapsto> iv)\<rparr>) ls r
   = r\<lparr>notified := (\<lambda>l. if l \<in> set ls then Some iv else notified r l)\<rparr>"
proof (induction ls arbitrary: r)
  case (Cons l ls)
  then show ?case by (auto intro!: register.equality)
qed simp

lemma do_notify_eq:
  "do_notify_listeners s iv r =
     r\<lparr>notified := (\<lambda>l. if (\<exists>ls. listeners_map r s = Some ls \<and> l \<in> set ls) then Some iv else notified r l)\<rparr>"
  by (cases "listeners_map r s") (auto simp: do_notify_listeners_def notify_all intro!: register.equality)

section \<open>The invariant\<close>

text \<open>
  The lists of instances are sorted by endpoint, a listener is filed under its service, and what it
  was told last is what the cache holds.
\<close>

definition register_inv :: "zk_env \<Rightarrow> register \<Rightarrow> bool" where
  "register_inv E r \<longleftrightarrow>
     (\<forall>s iv. services_cache r s = Some iv \<longrightarrow> sorted_wrt (key_less inst_id) iv)
     \<and> (\<forall>(s, iv)\<in>set (main_queue r). sorted_wrt (key_less inst_id) iv)
     \<and> (\<forall>s ls l. listeners_map r s = Some ls \<longrightarrow> l \<in> set ls \<longrightarrow>
          service_to_listener E l = s \<and> (\<forall>iv. services_cache r s = Some iv \<longrightarrow> notified r l = Some iv))
     \<and> sorted (old_services r)"

definition filters_ok :: "zk_env \<Rightarrow> bool" where
  "filters_ok E \<longleftrightarrow>
     (\<forall>f\<in>set (filters E). \<forall>s iv. sorted_wrt (key_less inst_id) iv \<longrightarrow> sorted_wrt (key_less inst_id) (f s iv))"

lemma inv_same: "register_inv E r \<Longrightarrow> same_data r r' \<Longrightarrow> sorted (old_services r') \<Longrightarrow> register_inv E r'"
  by (auto simp: register_inv_def same_data_def)

lemma inv_sorted_old: "register_inv E r \<Longrightarrow> sorted (old_services r)"
  by (simp add: register_inv_def)

lemma inv_listener:
  "register_inv E r \<Longrightarrow> listeners_map r s = Some ls \<Longrightarrow> l \<in> set ls \<Longrightarrow> service_to_listener E l = s"
  by (auto simp: register_inv_def)

lemma inv_update:
  assumes "register_inv E r" and "sorted_wrt (key_less inst_id) iv"
  shows "register_inv E (do_notify_listeners s iv (r\<lparr>services_cache := (services_cache r)(s \<mapsto> iv)\<rparr>))"
proof -
  have "s' = s" if "listeners_map r s = Some ls" "l \<in> set ls" "listeners_map r s' = Some ls'" "l \<in> set ls'" for s' ls ls' l
    using that inv_listener [OF assms(1)] by blast
  with assms show ?thesis by (auto simp: register_inv_def do_notify_eq split: if_splits)
qed

lemma inv_register:
  assumes "register_inv E r"
  shows "register_inv E (zk_register_listener E l r)"
proof -
  define s ls where "s = service_to_listener E l" and "ls = (case listeners_map r s of None \<Rightarrow> [] | Some ls \<Rightarrow> ls)"
  let ?ls = "set_insert (<) l ls" let ?r = "r\<lparr>listeners_map := (listeners_map r)(s \<mapsto> ?ls)\<rparr>"
  have here: "service_to_listener E l' = s" if "l' \<in> set ?ls" for l'
    using that set_insert_subset [of "(<)" l ls] inv_listener [OF assms, of s ls l']
    by (auto simp: ls_def s_def split: option.splits)
  have there: "l' \<notin> set ?ls" if "listeners_map r s' = Some ls'" "l' \<in> set ls'" "s' \<noteq> s" for s' ls' l'
    using that here inv_listener [OF assms that(1,2)] by blast
  have "zk_register_listener E l r = (case services_cache r s of None \<Rightarrow> ?r | Some iv \<Rightarrow> do_notify_listeners s iv ?r)"
    unfolding zk_register_listener_def Let_def s_def [symmetric] ls_def [symmetric] by simp
  then show ?thesis
    using assms here there by (auto simp: register_inv_def do_notify_eq split: option.splits if_splits)
qed

lemma inv_unregister: "register_inv E r \<Longrightarrow> register_inv E (zk_unregister_listener E l r)"
  unfolding register_inv_def zk_unregister_listener_def by (auto split: option.splits if_splits)

lemma inv_resolve: "register_inv E r \<Longrightarrow> service_name_to_id s r = (x, r') \<Longrightarrow> register_inv E r'"
  by (auto simp: register_inv_def service_name_to_id_def Let_def split: option.splits if_splits)

lemma inv_watch: "register_inv E r \<Longrightarrow> register_inv E (watch_children p r)"
  by (simp add: register_inv_def watch_children_def)

lemma inv_create: "register_inv E r \<Longrightarrow> register_inv E (create_node p b r)"
  by (simp add: register_inv_def create_node_def)

lemma parsed_sorted: "strings_to_instances address_of ss = Inr iv \<Longrightarrow> sorted_wrt (key_less inst_id) iv"
  using collected [of address_of ss "[]" iv] by (simp add: strings_to_instances_def)

lemma fetched:
  assumes "fetch_service_instances_from_zk E s r = Inr (x, r')"
  shows "same_data r r' \<and> old_services r' = old_services r \<and> (\<forall>iv. x = Some iv \<longrightarrow> sorted_wrt (key_less inst_id) iv)"
proof -
  obtain b r1 where t: "try_connect_zk E r = (b, r1)" by fastforce
  with assms try_connect_same [OF t] show ?thesis
    by (auto simp: fetch_service_instances_from_zk_def watch_children_def same_data_def bindR_eq_Inr
        parsed_sorted split: if_splits)
qed

lemma inv_fetched:
  "register_inv E r \<Longrightarrow> fetch_service_instances_from_zk E s r = Inr (x, r')
   \<Longrightarrow> register_inv E r' \<and> (\<forall>iv. x = Some iv \<longrightarrow> sorted_wrt (key_less inst_id) iv)"
  using fetched [of E s r x r'] inv_same [of E r r'] inv_sorted_old [of E r] by simp

lemma inv_dispatch:
  "register_inv E r \<Longrightarrow> sorted_wrt (key_less inst_id) iv \<Longrightarrow> register_inv E (r\<lparr>main_queue := main_queue r @ [(s, iv)]\<rparr>)"
  by (auto simp: register_inv_def)

lemma inv_fetch_and_update:
  "register_inv E r \<Longrightarrow> outcome (register_inv E) any_error (fetch_and_update_instances E s r)"
  unfolding fetch_and_update_instances_def
  by (rule outcome_bindI) (auto split: option.splits intro!: inv_dispatch dest!: inv_fetched [rotated])

lemma fold_filters:
  "filters_ok E \<Longrightarrow> sorted_wrt (key_less inst_id) iv \<Longrightarrow> sorted_wrt (key_less inst_id) (fold (\<lambda>f iv. f s iv) (filters E) iv)"
proof -
  have "sorted_wrt (key_less inst_id) (fold (\<lambda>f iv. f s iv) fs iv)"
    if "\<forall>f\<in>set fs. \<forall>s iv. sorted_wrt (key_less inst_id) iv \<longrightarrow> sorted_wrt (key_less inst_id) (f s iv)"
      "sorted_wrt (key_less inst_id) iv" for fs
    using that by (induction fs arbitrary: iv) auto
  then show "filters_ok E \<Longrightarrow> sorted_wrt (key_less inst_id) iv \<Longrightarrow> ?thesis" by (simp add: filters_ok_def)
qed

lemma inv_fetch_and_filter:
  "filters_ok E \<Longrightarrow> register_inv E r \<Longrightarrow> outcome (register_inv E) any_error (fetch_and_filter E s r)"
  unfolding fetch_and_filter_def
  by (rule outcome_bindI) (auto simp: Let_def inv_update fold_filters split: option.splits dest: inv_fetched)

lemma inv_try_fetch:
  assumes "filters_ok E" and "register_inv E r"
  shows "outcome (\<lambda>(b, r'). register_inv E r') any_error (try_fetch_services_from_zk E r)"
proof -
  obtain b r1 where t: "try_connect_zk E r = (b, r1)" by fastforce
  note same = try_connect_same [OF t]
  let ?r2 = "(watch_children k_services_root r1)\<lparr>old_services := sort (zk_children r1 k_services_root)\<rparr>"
  have "register_inv E r1" using inv_same [OF assms(2)] same inv_sorted_old [OF assms(2)] by simp
  then have "register_inv E ?r2" by (simp add: register_inv_def watch_children_def)
  then have "outcome (register_inv E) any_error (foldR (fetch_and_filter E) (zk_children r1 k_services_root) ?r2)"
    using inv_fetch_and_filter [OF assms(1)] by (intro outcome_fold)
  with \<open>register_inv E r1\<close> show ?thesis
    by (auto simp: try_fetch_services_from_zk_def t Let_def intro: outcome_bind)
qed

lemma inv_service_watcher:
  assumes "register_inv E r"
  shows "outcome (register_inv E) any_error (service_child_watcher_fn E ty r)"
proof -
  have "outcome (register_inv E) any_error (foldR (fetch_and_update_instances E) ss (watch_children k_services_root r))" for ss
    using inv_fetch_and_update inv_watch [OF assms] by (intro outcome_fold)
  then have "outcome (register_inv E) any_error
      (bindR (foldR (fetch_and_update_instances E) ss (watch_children k_services_root r)) (\<lambda>r2. Inr (r2\<lparr>old_services := sort xs\<rparr>)))" for ss xs
    by (rule outcome_bind) (simp add: register_inv_def)
  with assms show ?thesis by (simp add: service_child_watcher_fn_def try_fetch_services_def Let_def)
qed

lemma inv_instance_watcher:
  "register_inv E r \<Longrightarrow> outcome (register_inv E) any_error (instance_child_watcher_fn E ty path r)"
  by (simp add: instance_child_watcher_fn_def inv_fetch_and_update)

section \<open>Runs\<close>

text \<open>
  What can happen to a register: the server's tree or the connection changes, a watcher or a task
  runs, the process uses the register.  An operation that throws or does not return is not a step.
\<close>

inductive reg_step :: "zk_env \<Rightarrow> register \<Rightarrow> register \<Rightarrow> bool" for E where
  server_changes: "reg_step E r (r\<lparr>zk_children := t\<rparr>)"
| connection_changes: "reg_step E r (r\<lparr>zk_up := up\<rparr>)"
| services_watched: "service_child_watcher_fn E ty r = Inr r' \<Longrightarrow> reg_step E r r'"
| instances_watched: "instance_child_watcher_fn E ty path r = Inr r' \<Longrightarrow> reg_step E r r'"
| update_task: "main_queue r = task # rest \<Longrightarrow> reg_step E r (run_update_task task (r\<lparr>main_queue := rest\<rparr>))"
| resolving: "service_name_to_id name r = (sid, r') \<Longrightarrow> reg_step E r r'"
| listening: "reg_step E r (zk_register_listener E l r)"
| unlistening: "reg_step E r (zk_unregister_listener E l r)"
| registering: "register_service E name ver ep r = Some (Inr (b, r')) \<Longrightarrow> reg_step E r r'"
| initialising: "register_init E r = Some (Inr (b, r')) \<Longrightarrow> reg_step E r r'"

definition initial_register :: "(string \<Rightarrow> string list) \<Rightarrow> register" where
  "initial_register t =
     \<lparr>zk_handle = None, zk_up = False, zk_attempts = 0, exit_handlers = 0, zk_children = t, watched = {},
      created = [], listeners_map = Map.empty, round_robin_map = Map.empty, services_cache = Map.empty,
      old_services = [], main_queue = [], notified = Map.empty\<rparr>"

lemma initial_register_inv: "register_inv E (initial_register t)"
  by (simp add: register_inv_def initial_register_def)

lemma inv_waited: "register_inv E r \<Longrightarrow> wait_util_zk_is_connected E r = Some r' \<Longrightarrow> register_inv E r'"
  using wait_result [of E r r'] inv_same [of E r r'] inv_sorted_old [of E r] by (simp add: waited_def)

lemma inv_register_service:
  "register_inv E r \<Longrightarrow> register_service E name ver ep r = Some (Inr (b, r')) \<Longrightarrow> register_inv E r'"
  by (auto simp: register_service_def create_ephemeral_node_for_service_instance_def Let_def
      intro!: inv_create inv_watch split: option.splits dest: inv_waited)

lemma inv_init:
  assumes "filters_ok E" and "register_inv E r" and "register_init E r = Some (Inr (b, r'))"
  shows "register_inv E r'"
proof -
  have "register_inv E (fold (zk_register_listener E) ls r)" for ls
    using assms(2) by (induction ls arbitrary: r) (auto intro: inv_register)
  with assms(3) obtain r1 where "register_inv E r1" "try_fetch_services_from_zk E r1 = Inr (b, r')"
    by (auto simp: register_init_def split: option.splits dest: inv_waited)
  with inv_try_fetch [OF assms(1)] show ?thesis by (metis outcome_InrD case_prod_conv)
qed

lemma step_inv:
  assumes "reg_step E r r'" and "filters_ok E" and "register_inv E r"
  shows "register_inv E r'"
  using assms
proof (induction rule: reg_step.induct)
  case (update_task r task rest)
  then obtain s iv where t: "task = (s, iv)" "sorted_wrt (key_less inst_id) iv" by (cases task) (auto simp: register_inv_def)
  have "register_inv E (r\<lparr>main_queue := rest\<rparr>)" using update_task by (simp add: register_inv_def)
  from inv_update [OF this t(2)] show ?case by (simp add: run_update_task_def t(1))
qed (auto simp: register_inv_def [of E "r\<lparr>zk_children := t\<rparr>" for r t] register_inv_def [of E "r\<lparr>zk_up := up\<rparr>" for r up]
  intro: inv_resolve inv_register inv_unregister inv_register_service inv_init
    outcome_InrD [OF inv_service_watcher] outcome_InrD [OF inv_instance_watcher] dest: register_inv_def [THEN iffD1])

lemma reachable_inv:
  "(reg_step E)\<^sup>*\<^sup>* (initial_register t) r \<Longrightarrow> filters_ok E \<Longrightarrow> register_inv E r"
  by (induction rule: rtranclp_induct) (auto intro: initial_register_inv step_inv)

section \<open>Fairness\<close>

text \<open>Resolving a name again and again.\<close>

primrec resolve_times :: "nat \<Rightarrow> string \<Rightarrow> register \<Rightarrow> service_id option list \<times> register" where
  "resolve_times 0 s r = ([], r)"
| "resolve_times (Suc k) s r =
     (case service_name_to_id s r of (sid, r1) \<Rightarrow>
      case resolve_times k s r1 of (sids, r2) \<Rightarrow> (sid # sids, r2))"

definition next_index :: "string \<Rightarrow> register \<Rightarrow> nat" where
  "next_index s r = (case round_robin_map r s of None \<Rightarrow> 0 | Some i \<Rightarrow> unat i)"

lemma resolve_next:
  assumes "services_cache r s = Some is" and "1 < length is" and "Suc (next_index s r) < 2 ^ 64"
  shows "\<exists>r'. service_name_to_id s r = (Some (inst_id (is ! (next_index s r mod length is))), r')
    \<and> services_cache r' s = Some is \<and> next_index s r' = Suc (next_index s r)"
proof -
  have "unat (i + 1 :: 64 word) = Suc (unat i)" if "Suc (unat i) < 2 ^ 64" for i
    using that by (simp add: unat_word_ariths)
  with assms show ?thesis
    by (auto simp: service_name_to_id_def next_index_def split: option.splits)
qed

lemma resolve_times_eq:
  "services_cache r s = Some is \<Longrightarrow> 1 < length is \<Longrightarrow> next_index s r + k < 2 ^ 64
   \<Longrightarrow> fst (resolve_times k s r) = map (\<lambda>j. Some (inst_id (is ! ((next_index s r + j) mod length is)))) [0..<k]"
proof (induction k arbitrary: r)
  case (Suc k)
  from resolve_next [OF Suc.prems(1,2)] Suc.prems(3) obtain r'
    where r': "service_name_to_id s r = (Some (inst_id (is ! (next_index s r mod length is))), r')"
      "services_cache r' s = Some is" "next_index s r' = Suc (next_index s r)" by auto
  have "fst (resolve_times k s r') = map (\<lambda>j. Some (inst_id (is ! ((next_index s r' + j) mod length is)))) [0..<k]"
    using Suc.prems(2,3) r'(2,3) by (intro Suc.IH) simp_all
  then show ?case by (simp add: r' case_prod_beta map_upt_Suc del: upt_Suc)
qed simp

text \<open>
  C25: as many resolutions in a row as a service has instances choose every one of them once, and in
  turn, as long as the counter does not wrap.
\<close>

theorem round_robin_fair:
  assumes "services_cache r s = Some is" and "1 < length is" and "next_index s r + length is < 2 ^ 64"
  shows "fst (resolve_times (length is) s r) = map (Some \<circ> inst_id) (rotate (next_index s r) is)
    \<and> mset (fst (resolve_times (length is) s r)) = mset (map (Some \<circ> inst_id) is)"
proof -
  have "fst (resolve_times (length is) s r) = map (Some \<circ> inst_id) (rotate (next_index s r) is)"
    unfolding resolve_times_eq [OF assms] by (rule nth_equalityI) (simp_all add: nth_rotate add.commute)
  moreover have "mset (rotate n xs) = mset xs" for n :: nat and xs :: "instance_info list"
    by (simp add: rotate_drop_take) (metis append_take_drop_id mset_append add.commute)
  ultimately show ?thesis by simp
qed

theorem round_robin_fair_witness:
  "let r = (initial_register (\<lambda>_. []))\<lparr>services_cache := [''y'' \<mapsto> [\<lparr>inst_id = Endpoint 1 1, inst_version = []\<rparr>, \<lparr>inst_id = Endpoint 1 2, inst_version = []\<rparr>]]\<rparr>
   in mset (fst (resolve_times 2 ''y'' r)) = {#Some (Endpoint 1 1), Some (Endpoint 1 2)#}"
  using round_robin_fair [of "(initial_register (\<lambda>_. []))\<lparr>services_cache := [''y'' \<mapsto> [\<lparr>inst_id = Endpoint 1 1, inst_version = []\<rparr>, \<lparr>inst_id = Endpoint 1 2, inst_version = []\<rparr>]]\<rparr>" "''y''"
      "[\<lparr>inst_id = Endpoint 1 1, inst_version = []\<rparr>, \<lparr>inst_id = Endpoint 1 2, inst_version = []\<rparr>]"]
  by (simp add: initial_register_def next_index_def numeral_2_eq_2 [symmetric] del: resolve_times.simps)

end
