(* ===== verification/Watches.thy ===== *)
theory Watches
  imports Discovery
begin

text \<open>
  What a change of the server's tree leads to, once its watch has fired and the dispatched tasks
  have run; and the agreement of the cache and its listeners.
\<close>

section \<open>Changed services\<close>

lemma set_difference_set:
  "sorted xs \<Longrightarrow> sorted ys \<Longrightarrow> distinct xs \<Longrightarrow> distinct ys \<Longrightarrow> set (set_difference xs ys) = set xs - set ys"
proof (induction xs ys rule: set_difference.induct)
  case (3 x xs y ys)
  consider "x < y" | "y < x" | "x = y" using less_linear by blast
  then show ?case
  proof cases
    case 1
    with 3 have "x \<notin> set (y # ys)" by auto
    with 1 3 show ?thesis by auto
  next
    case 2
    with 3 have "y \<notin> set (x # xs)" by auto
    with 2 3 show ?thesis by auto
  next
    case 3
    with "3.IH" "3.prems" show ?thesis by auto
  qed
qed simp_all

lemma changed_set:
  "distinct new \<Longrightarrow> distinct old \<Longrightarrow> sorted old
   \<Longrightarrow> set (changed_services (sort new) old) = (set new - set old) \<union> (set old - set new)"
  by (simp add: changed_services_def set_difference_set)

section \<open>Running the tasks\<close>

definition drain :: "register \<Rightarrow> register" where
  "drain r = fold run_update_task (main_queue r) (r\<lparr>main_queue := []\<rparr>)"

lemma run_update_task_eq:
  "run_update_task (s, iv) r =
     r\<lparr>services_cache := (services_cache r)(s \<mapsto> iv),
       notified := (\<lambda>l. if \<exists>ls. listeners_map r s = Some ls \<and> l \<in> set ls then Some iv else notified r l)\<rparr>"
  by (simp add: run_update_task_def do_notify_eq cong: if_cong)

lemma tasks_run:
  "services_cache (fold run_update_task q r) s = (case map_of (rev q) s of None \<Rightarrow> services_cache r s | Some iv \<Rightarrow> Some iv)
   \<and> watched (fold run_update_task q r) = watched r \<and> listeners_map (fold run_update_task q r) = listeners_map r
   \<and> main_queue (fold run_update_task q r) = main_queue r \<and> round_robin_map (fold run_update_task q r) = round_robin_map r"
proof (induction q arbitrary: r)
  case (Cons t q)
  obtain s' iv where t: "t = (s', iv)" by fastforce
  show ?case using Cons.IH [of "run_update_task t r"]
    by (auto simp: t run_update_task_eq map_add_def split: option.splits)
qed simp

lemma connected_fetch:
  assumes "is_zk_connected r"
  shows "fetch_and_update_instances E s r = Inr r' \<longleftrightarrow>
    (\<exists>iv. strings_to_instances (parse_address E) (zk_children r (service_path s)) = Inr iv
      \<and> r' = (watch_children (service_path s) r)\<lparr>main_queue := main_queue r @ [(s, iv)]\<rparr>)"
  using assms
  by (auto simp: fetch_and_update_instances_def fetch_service_instances_from_zk_def bindR_eq_Inr watch_children_def)

lemma connected_fetches:
  "is_zk_connected r \<Longrightarrow> foldR (fetch_and_update_instances E) ss r = Inr r' \<Longrightarrow>
   \<exists>f. (\<forall>s\<in>set ss. strings_to_instances (parse_address E) (zk_children r (service_path s)) = Inr (f s))
     \<and> r' = r\<lparr>main_queue := main_queue r @ map (\<lambda>s. (s, f s)) ss, watched := watched r \<union> service_path ` set ss\<rparr>"
proof (induction ss arbitrary: r)
  case (Cons s ss)
  then obtain r1 where step: "fetch_and_update_instances E s r = Inr r1" "foldR (fetch_and_update_instances E) ss r1 = Inr r'"
    by (auto simp: bindR_eq_Inr)
  from step(1) obtain iv where iv: "strings_to_instances (parse_address E) (zk_children r (service_path s)) = Inr iv"
    and r1: "r1 = (watch_children (service_path s) r)\<lparr>main_queue := main_queue r @ [(s, iv)]\<rparr>"
    unfolding connected_fetch [OF Cons.prems(1)] by blast
  have "is_zk_connected r1" using Cons.prems(1) by (simp add: r1 watch_children_def is_zk_connected_def)
  from Cons.IH [OF this step(2)] obtain f
    where f: "\<forall>s\<in>set ss. strings_to_instances (parse_address E) (zk_children r (service_path s)) = Inr (f s)"
      and r': "r' = r1\<lparr>main_queue := main_queue r1 @ map (\<lambda>s. (s, f s)) ss, watched := watched r1 \<union> service_path ` set ss\<rparr>"
    by (auto simp: r1 watch_children_def)
  have "map (\<lambda>t. (t, (f(s := iv)) t)) ss = map (\<lambda>t. (t, f t)) ss" using f iv by auto
  with f iv r' show ?case
    by (intro exI [of _ "f(s := iv)"]) (auto simp: r1 watch_children_def)
qed simp


text \<open>A register connected to a server that has gained \<^verbatim>\<open>service_y\<close> and lost \<^verbatim>\<open>service_k\<close>.\<close>

definition sample_tree :: "string \<Rightarrow> string list" where
  "sample_tree path =
     (if path = k_services_root then [''service_y'']
      else if path = service_path ''service_y'' then [''10:7777@5#1.0'', ''9:7777@6#1.1''] else [])"

definition sample_zk :: zk_env where
  "sample_zk =
     \<lparr>zk_start = (\<lambda>n. Started (2 \<le> n)), zk_create = (\<lambda>p e. ZOK), client_id = (\<lambda>n. Some 5),
      parse_address = (\<lambda>ip. Some (int (read_digits 10 0 ip))), service_to_listener = (\<lambda>l. ''service_y''),
      tracked_listeners = [], filters = []\<rparr>"

definition sample_register :: register where
  "sample_register =
     (initial_register sample_tree)\<lparr>zk_handle := Some 0, zk_up := True, old_services := [''service_k''],
        listeners_map := [''service_y'' \<mapsto> [3]]\<rparr>"

lemma sample_changes: "\<exists>r'. service_child_watcher_fn sample_zk CHILD_EVENT sample_register = Inr r'"
  by (simp add: service_child_watcher_fn_def try_fetch_services_def sample_register_def initial_register_def
      watch_children_def sample_tree_def changed_services_def fetch_and_update_instances_def
      fetch_service_instances_from_zk_def is_zk_connected_def strings_to_instances_def str_to_service_id_def sample_zk_def
      service_path_def k_services_root_def less_char_def)


section \<open>The cache and its listeners\<close>


text \<open>A run: the listener and an instance register, the instance watch fires, the task runs.\<close>

lemma one_run:
  assumes "zk_start E 0 = Started True" and l: "service_to_listener E l = ''service_y''"
    and nodes: "strings_to_instances (parse_address E) (t (service_path ''service_y'')) = Inr iv"
  shows "\<exists>r. (reg_step E)\<^sup>*\<^sup>* (initial_register t) r \<and> listeners_map r ''service_y'' = Some [l]
    \<and> services_cache r ''service_y'' = Some iv"
proof -
  define r1 where "r1 = zk_register_listener E l (initial_register t)"
  have r1: "r1 = (initial_register t)\<lparr>listeners_map := [''service_y'' \<mapsto> [l]]\<rparr>"
    by (simp add: r1_def zk_register_listener_def initial_register_def l)
  have "wait_util_zk_is_connected E r1 = Some (connected_at 0 r1)"
    by (rule wait_at) (auto simp: r1 is_zk_connected_def initial_register_def assms(1))
  then have "register_service E (Some ''service_x'') ''1'' (Some ''e'') r1
      = Some (create_ephemeral_node_for_service_instance E ''service_x'' ''1'' ''e'' (connected_at 0 r1))"
    by (simp add: register_service_def)
  then obtain b r3 where reg: "register_service E (Some ''service_x'') ''1'' (Some ''e'') r1 = Some (Inr (b, r3))"
    and r3: "is_zk_connected r3" "same_data r1 r3"
    by (cases "client_id E 0") (auto simp: create_ephemeral_node_for_service_instance_def connected_at_def Let_def
        create_node_def watch_children_def is_zk_connected_def same_data_def)
  note r3 = reg_step.registering [OF reg] r3
  let ?r4 = "(watch_children (service_path ''service_y'') r3)\<lparr>main_queue := main_queue r3 @ [(''service_y'', iv)]\<rparr>"
  have "fetch_and_update_instances E ''service_y'' r3 = Inr ?r4"
    unfolding connected_fetch [OF r3(2)] using nodes r3(3) by (simp add: same_data_def r1 initial_register_def)
  then have "instance_child_watcher_fn E CHILD_EVENT ''/services/service_y'' r3 = Inr ?r4"
    by (simp add: instance_child_watcher_fn_def k_services_root_def)
  note r4 = reg_step.instances_watched [OF this]
  have m4: "main_queue ?r4 = [(''service_y'', iv)]" "listeners_map ?r4 ''service_y'' = Some [l]"
    using r3(3) by (auto simp: same_data_def watch_children_def r1 initial_register_def)
  let ?r5 = "run_update_task (''service_y'', iv) (?r4\<lparr>main_queue := []\<rparr>)"
  have "reg_step E ?r4 ?r5" using m4(1) by (rule reg_step.update_task)
  moreover have "reg_step E (initial_register t) r1" unfolding r1_def by (rule reg_step.listening)
  ultimately have "(reg_step E)\<^sup>*\<^sup>* (initial_register t) ?r5"
    using r3(1) r4 by (blast intro: converse_rtranclp_into_rtranclp)
  moreover have "listeners_map ?r5 ''service_y'' = Some [l]" "services_cache ?r5 ''service_y'' = Some iv"
    using m4(2) by (simp_all add: run_update_task_eq)
  ultimately show ?thesis by blast
qed

lemma sample_instances:
  "strings_to_instances (\<lambda>ip. Some (int (read_digits 10 0 ip))) (sample_tree (service_path ''service_y''))
   = Inr [\<lparr>inst_id = Endpoint 9 7777, inst_version = ''1.1''\<rparr>, \<lparr>inst_id = Endpoint 10 7777, inst_version = ''1.0''\<rparr>]"
  by (simp add: sample_tree_def service_path_def k_services_root_def strings_to_instances_def str_to_service_id_def
      strtoul_def is_space_def digit_of_def service_version_of_def key_less_def less_service_id_def)


section \<open>Witness of the wait\<close>

theorem waiting_ends_witness:
  "\<exists>r'. wait_util_zk_is_connected sample_zk (initial_register sample_tree) = Some r' \<and> exit_handlers r' = 3"
proof -
  let ?r = "initial_register sample_tree"
  have "(LEAST n. zk_attempts ?r \<le> n \<and> zk_start sample_zk n = Started True) = 2"
    by (rule Least_equality) (auto simp: initial_register_def sample_zk_def)
  moreover have "\<exists>n\<ge>zk_attempts ?r. zk_start sample_zk n = Started True"
    by (rule exI [of _ 2]) (simp add: initial_register_def sample_zk_def)
  moreover have "\<not> is_zk_connected ?r" by (simp add: is_zk_connected_def initial_register_def)
  ultimately show ?thesis using waiting_ends [of ?r sample_zk] by (simp add: connected_at_def initial_register_def)
qed

end
