(* ===== verification/Resolvers.thy ===== *)
theory Resolvers
  imports Watches
begin

text \<open>
  Who answers for a service name: \<^verbatim>\<open>ServiceResolvers\<close>, \<^verbatim>\<open>DefaultServiceResolver\<close> and the resolvers,
  listeners and filter that \<^verbatim>\<open>demo_services/service_x\<close> plugs in.
\<close>

section \<open>Listeners and collectors\<close>

text \<open>\<^verbatim>\<open>InstancesCollector::track\<close>.\<close>

definition collector_track :: "'a \<Rightarrow> 'a list \<Rightarrow> 'a list" where
  "collector_track x xs = xs @ [x]"

text \<open>
  \<^verbatim>\<open>NamedSRListener::register_as_listener\<close>: a listener that exists before the configuration has a
  service register is collected, and registered by \<^verbatim>\<open>ZkServiceRegister::init\<close>.
\<close>

definition register_as_sr_listener :: "zk_env \<Rightarrow> bool \<Rightarrow> nat \<Rightarrow> register \<Rightarrow> zk_env \<times> register" where
  "register_as_sr_listener E has_service_register l r =
     (if has_service_register then (E, zk_register_listener E l r)
      else (E\<lparr>tracked_listeners := collector_track l (tracked_listeners E)\<rparr>, r))"

text \<open>The function \<^verbatim>\<open>msgrpc_register_service\<close> of every API: an assertion, and the register's answer is dropped.\<close>

definition msgrpc_register_service ::
  "zk_env \<Rightarrow> bool \<Rightarrow> string \<Rightarrow> string \<Rightarrow> string option \<Rightarrow> register \<Rightarrow> (fault + register_error + register) option" where
  "msgrpc_register_service E has_service_register name version endpoint r =
     (if \<not> has_service_register then Some (Inl (AssertFailed ''service_register_ != nullptr''))
      else case register_service E (Some name) version endpoint r of
             None \<Rightarrow> None
           | Some res \<Rightarrow> Some (Inr (bindR res (\<lambda>(ok, r'). Inr r'))))"

section \<open>Resolvers\<close>

type_synonym resolver = "string \<Rightarrow> bytes \<Rightarrow> register \<Rightarrow> service_id option \<times> register"

definition default_service_resolver :: resolver where
  "default_service_resolver service_name req r = service_name_to_id service_name r"

text \<open>\<^verbatim>\<open>resolvers_\<close> is a map built from the list, in which the first of two equal names counts.\<close>

definition service_resolvers :: "resolver \<Rightarrow> (string \<times> resolver) list \<Rightarrow> resolver" where
  "service_resolvers fallback rs service_name req r =
     (case map_of rs service_name of
        Some resolver \<Rightarrow> resolver service_name req r
      | None \<Rightarrow> fallback service_name req r)"

text \<open>
  \<^verbatim>\<open>Y__ServiceResolver\<close> is also a listener; the list \<^verbatim>\<open>on_changes\<close> stores is the one the register last
  gave it.  \<^verbatim>\<open>Z__ServiceResolver\<close> stores nothing.
\<close>

definition y_listener :: nat where
  "y_listener = 0"

definition y_instances :: "register \<Rightarrow> instance_info list" where
  "y_instances r = (case notified r y_listener of None \<Rightarrow> [] | Some instances \<Rightarrow> instances)"

definition y_service_name_to_id :: resolver where
  "y_service_name_to_id service_name req r =
     (let size = length (y_instances r)
      in (if size > 0 then Some (inst_id (y_instances r ! (size - 1))) else None, r))"

definition z_service_name_to_id :: resolver where
  "z_service_name_to_id service_name req r = (None, r)"

definition my_service_resolver :: resolver where
  "my_service_resolver =
     service_resolvers default_service_resolver
       [(''service_y'', y_service_name_to_id), (''service_z'', z_service_name_to_id)]"

text \<open>\<^verbatim>\<open>ServiceVersionFilter::filter_service\<close>.\<close>

definition filter_service :: "string \<Rightarrow> instance_info list \<Rightarrow> instance_info list" where
  "filter_service service_name instances = (if length instances > 1 then tl instances else instances)"

text \<open>\<^verbatim>\<open>service_x\<close>: its filter, and the listeners of its two resolvers.\<close>

definition service_x_env :: "(nat \<Rightarrow> started) \<Rightarrow> (string \<Rightarrow> int option) \<Rightarrow> zk_env" where
  "service_x_env start address_of =
     \<lparr>zk_start = start, zk_create = (\<lambda>path e. ZOK), client_id = (\<lambda>n. Some 1), parse_address = address_of,
      service_to_listener = (\<lambda>l. if l = y_listener then ''service_y'' else ''service_z''),
      tracked_listeners = collector_track 1 (collector_track y_listener []), filters = [filter_service]\<rparr>"

lemma service_x_filters: "filters_ok (service_x_env start address_of)"
proof -
  have "sorted_wrt (key_less inst_id) (tl iv)" if "sorted_wrt (key_less inst_id) iv" for iv :: "instance_info list"
    using that by (cases iv) auto
  then show ?thesis by (simp add: filters_ok_def service_x_env_def filter_service_def)
qed

section \<open>The contract of a resolver\<close>

text \<open>
  What \<^verbatim>\<open>ServiceResolver\<close> promises its callers for the names it is asked for, in the states \<open>ok\<close>: an
  endpoint that is cached under that name right now, and nothing but whose turn it is changes.
\<close>

locale service_resolver =
  fixes resolve :: resolver and names :: "string set" and ok :: "register \<Rightarrow> bool"
  assumes picks_cached: "\<lbrakk>ok r; s \<in> names; resolve s req r = (Some sid, r')\<rbrakk>
      \<Longrightarrow> \<exists>iv. services_cache r s = Some iv \<and> sid \<in> inst_id ` set iv"
    and only_turns: "\<lbrakk>ok r; s \<in> names; resolve s req r = (x, r')\<rbrakk> \<Longrightarrow> r'\<lparr>round_robin_map := round_robin_map r\<rparr> = r"
begin

lemma nothing_cached:
  assumes "ok r" and "s \<in> names" and "services_cache r s = None \<or> services_cache r s = Some []"
  shows "fst (resolve s req r) = None"
proof (cases "resolve s req r")
  case (Pair x r')
  with picks_cached [OF assms(1,2), of req] assms(3) show ?thesis by (cases x) auto
qed

lemma keeps_cache:
  assumes "ok r" and "s \<in> names"
  shows "services_cache (snd (resolve s req r)) = services_cache r"
proof (cases "resolve s req r")
  case (Pair x r')
  from arg_cong [OF only_turns [OF assms Pair], of services_cache] Pair show ?thesis by simp
qed

end

text \<open>A list of resolvers with a fallback is a resolver.\<close>

lemma service_resolvers_contract:
  assumes fallback: "service_resolver fallback (names - fst ` set rs) ok"
    and rs: "\<And>n res. map_of rs n = Some res \<Longrightarrow> service_resolver res {n} ok"
  shows "service_resolver (service_resolvers fallback rs) names ok"
proof
  fix r s req sid r'
  assume *: "ok r" "s \<in> names" "service_resolvers fallback rs s req r = (Some sid, r')"
  show "\<exists>iv. services_cache r s = Some iv \<and> sid \<in> inst_id ` set iv"
  proof (cases "map_of rs s")
    case None
    with * service_resolver.picks_cached [OF fallback *(1), of s req] show ?thesis
      by (auto simp: service_resolvers_def map_of_eq_None_iff)
  next
    case (Some res)
    with * service_resolver.picks_cached [OF rs [OF Some] *(1), of s req] show ?thesis
      by (auto simp: service_resolvers_def)
  qed
next
  fix r s req x r'
  assume *: "ok r" "s \<in> names" "service_resolvers fallback rs s req r = (x, r')"
  show "r'\<lparr>round_robin_map := round_robin_map r\<rparr> = r"
  proof (cases "map_of rs s")
    case None
    with * service_resolver.only_turns [OF fallback *(1), of s req] show ?thesis
      by (auto simp: service_resolvers_def map_of_eq_None_iff)
  next
    case (Some res)
    with * service_resolver.only_turns [OF rs [OF Some] *(1), of s req] show ?thesis
      by (auto simp: service_resolvers_def)
  qed
qed

lemma service_resolver_weaken:
  assumes "service_resolver resolve names ok" and "names' \<subseteq> names" and "\<And>r. ok' r \<Longrightarrow> ok r"
  shows "service_resolver resolve names' ok'"
  using assms(2,3) service_resolver.picks_cached [OF assms(1)] service_resolver.only_turns [OF assms(1)]
  by unfold_locales (meson subsetD)+

lemma register_turns: "service_name_to_id s r = (x, r') \<Longrightarrow> r'\<lparr>round_robin_map := round_robin_map r\<rparr> = r"
  by (auto simp: service_name_to_id_def Let_def split: option.splits if_splits)

lemma register_picks_cached:
  assumes "service_name_to_id s r = (Some sid, r')"
  shows "\<exists>iv. services_cache r s = Some iv \<and> sid \<in> inst_id ` set iv"
proof (cases "services_cache r s")
  case None
  with assms show ?thesis by (simp add: service_name_to_id_def)
next
  case (Some iv)
  have "iv ! (n mod length iv) \<in> set iv" if "iv \<noteq> []" for n using that by simp
  moreover have "iv ! 0 \<in> set iv" if "iv \<noteq> []" using that by simp
  ultimately show ?thesis
    using assms by (auto simp: service_name_to_id_def Some Let_def split: if_splits)
qed

interpretation default_resolver: service_resolver default_service_resolver names "\<lambda>r. True" for names
proof
  fix r s req sid r'
  assume "default_service_resolver s req r = (Some sid, r')"
  then show "\<exists>iv. services_cache r s = Some iv \<and> sid \<in> inst_id ` set iv"
    by (simp add: default_service_resolver_def register_picks_cached)
next
  fix r s req x r'
  assume "default_service_resolver s req r = (x, r')"
  then show "r'\<lparr>round_robin_map := round_robin_map r\<rparr> = r"
    by (auto simp: default_service_resolver_def register_turns)
qed

text \<open>The resolver of \<^verbatim>\<open>service_y\<close> keeps its promise while the register tells it what is cached.\<close>

definition y_informed :: "register \<Rightarrow> bool" where
  "y_informed r \<longleftrightarrow> services_cache r ''service_y'' \<noteq> None \<and> notified r y_listener = services_cache r ''service_y''"

interpretation service_y_resolver: service_resolver y_service_name_to_id "{''service_y''}" y_informed
proof
  fix r s req sid r'
  assume "y_informed r" "s \<in> {''service_y''}" "y_service_name_to_id s req r = (Some sid, r')"
  then show "\<exists>iv. services_cache r s = Some iv \<and> sid \<in> inst_id ` set iv"
    by (auto simp: y_service_name_to_id_def y_informed_def y_instances_def Let_def split: if_splits)
next
  fix r s req x r'
  assume "y_service_name_to_id s req r = (x, r')"
  then show "r'\<lparr>round_robin_map := round_robin_map r\<rparr> = r" by (auto simp: y_service_name_to_id_def Let_def)
qed

interpretation service_z_resolver: service_resolver z_service_name_to_id names "\<lambda>r. True" for names
  by unfold_locales (auto simp: z_service_name_to_id_def)

interpretation service_x_resolver: service_resolver my_service_resolver UNIV y_informed
  unfolding my_service_resolver_def
proof (rule service_resolvers_contract)
  fix n res
  assume "map_of [(''service_y'', y_service_name_to_id), (''service_z'', z_service_name_to_id)] n = Some res"
  then consider "n = ''service_y''" "res = y_service_name_to_id" | "res = z_service_name_to_id"
    by (auto split: if_splits)
  then show "service_resolver res {n} y_informed"
  proof cases
    case 1
    then show ?thesis using service_y_resolver.service_resolver_axioms by simp
  next
    case 2
    then show ?thesis using service_resolver_weaken [OF service_z_resolver.service_resolver_axioms] by blast
  qed
qed (rule service_resolver_weaken [OF default_resolver.service_resolver_axioms], auto)

section \<open>Properties\<close>

text \<open>
  C22: in every state \<^verbatim>\<open>service_x\<close> can reach, its resolver sends a call of \<^verbatim>\<open>service_y\<close> to the cached
  instance with the greatest endpoint, never sends one of \<^verbatim>\<open>service_z\<close> anywhere, and leaves every
  other name to the register's turn-taking; whatever the name, the endpoint it gives is cached under
  that name at that moment, and only the register's counters of turns change.
\<close>

theorem service_x_resolution:
  assumes reach: "(reg_step (service_x_env start address_of))\<^sup>*\<^sup>* (initial_register t) r"
    and ls: "listeners_map r ''service_y'' = Some ls" "y_listener \<in> set ls"
    and iv: "services_cache r ''service_y'' = Some iv" "iv \<noteq> []"
  shows "my_service_resolver ''service_y'' req r = (Some (inst_id (last iv)), r)
    \<and> (\<forall>i\<in>set iv. inst_id i \<le> inst_id (last iv))
    \<and> my_service_resolver ''service_z'' req r = (None, r)
    \<and> (s \<notin> {''service_y'', ''service_z''} \<longrightarrow> my_service_resolver s req r = service_name_to_id s r)
    \<and> (my_service_resolver s req r = (Some sid, r')
        \<longrightarrow> (\<exists>iv. services_cache r s = Some iv \<and> sid \<in> inst_id ` set iv) \<and> r'\<lparr>round_robin_map := round_robin_map r\<rparr> = r)"
proof -
  have inv: "register_inv (service_x_env start address_of) r" by (rule reachable_inv [OF reach service_x_filters])
  from inv ls iv have n: "notified r y_listener = Some iv" and sorted: "sorted_wrt (key_less inst_id) iv"
    by (auto simp: register_inv_def)
  have "inst_id i \<le> inst_id (last iv)" if "i \<in> set iv" for i
  proof -
    obtain zs z where zs: "iv = zs @ [z]" using iv(2) by (cases iv rule: rev_cases) auto
    with that sorted show ?thesis by (auto simp: sorted_wrt_append key_less_def)
  qed
  moreover have "y_informed r" using n iv(1) by (simp add: y_informed_def)
  note service_x_resolver.picks_cached [OF this UNIV_I] service_x_resolver.only_turns [OF this UNIV_I]
  ultimately show ?thesis
    using iv(2) n
    by (auto simp: my_service_resolver_def service_resolvers_def default_service_resolver_def
        y_service_name_to_id_def z_service_name_to_id_def y_instances_def last_conv_nth)
qed

text \<open>
  C37: the filters are applied when a register fetches the services at its start, but not when the
  watch of a service's instances fires: the first instance of several, which \<^verbatim>\<open>ServiceVersionFilter\<close>
  dropped, is back after the first change.
\<close>

theorem updates_are_not_filtered:
  assumes "is_zk_connected r" and "filters E = [filter_service]" and "s \<noteq> []"
    and nodes: "strings_to_instances (parse_address E) (zk_children r (service_path s)) = Inr (a # b # iv)"
  shows "\<exists>r1 r2. fetch_and_filter E s r = Inr r1 \<and> instances_of s r1 = b # iv
    \<and> instance_child_watcher_fn E CHILD_EVENT (service_path s) r = Inr r2 \<and> instances_of s (drain r2) = a # b # iv"
proof -
  have fetch: "fetch_service_instances_from_zk E s r = Inr (Some (a # b # iv), watch_children (service_path s) r)"
    using assms(1) nodes by (simp add: fetch_service_instances_from_zk_def watch_children_def)
  let ?r2 = "(watch_children (service_path s) r)\<lparr>main_queue := main_queue r @ [(s, a # b # iv)]\<rparr>"
  have "instance_child_watcher_fn E CHILD_EVENT (service_path s) r = Inr ?r2"
    using assms(3) by (simp add: instance_child_watcher_fn_def service_path_def fetch_and_update_instances_def fetch
        [unfolded service_path_def] watch_children_def)
  moreover have "instances_of s (drain ?r2) = a # b # iv"
    by (simp add: instances_of_def drain_def run_update_task_eq)
  moreover have "\<exists>r1. fetch_and_filter E s r = Inr r1 \<and> instances_of s r1 = b # iv"
    using assms(2) by (simp add: fetch_and_filter_def fetch instances_of_def do_notify_eq filter_service_def Let_def)
  ultimately show ?thesis by blast
qed

section \<open>Witnesses\<close>

theorem service_x_resolution_witness:
  "\<exists>r. (reg_step (service_x_env (\<lambda>n. Started True) (\<lambda>ip. Some (int (read_digits 10 0 ip)))))\<^sup>*\<^sup>* (initial_register sample_tree) r
    \<and> my_service_resolver ''service_y'' [] r = (Some (Endpoint 10 7777), r)"
proof -
  let ?E = "service_x_env (\<lambda>n. Started True) (\<lambda>ip. Some (int (read_digits 10 0 ip)))"
  have "strings_to_instances (parse_address ?E) (sample_tree (service_path ''service_y''))
      = Inr [\<lparr>inst_id = Endpoint 9 7777, inst_version = ''1.1''\<rparr>, \<lparr>inst_id = Endpoint 10 7777, inst_version = ''1.0''\<rparr>]"
    using sample_instances by (simp add: service_x_env_def sample_zk_def)
  from one_run [where E = ?E and l = y_listener and t = sample_tree, OF _ _ this] obtain r where r: "(reg_step ?E)\<^sup>*\<^sup>* (initial_register sample_tree) r"
    "listeners_map r ''service_y'' = Some [y_listener]" "services_cache r ''service_y''
      = Some [\<lparr>inst_id = Endpoint 9 7777, inst_version = ''1.1''\<rparr>, \<lparr>inst_id = Endpoint 10 7777, inst_version = ''1.0''\<rparr>]"
    by (auto simp: service_x_env_def)
  from service_x_resolution [OF r(1,2) _ r(3), of "[]" "[]"] r(1) show ?thesis by auto
qed

theorem updates_are_not_filtered_witness:
  "\<exists>r1 r2. fetch_and_filter (sample_zk\<lparr>filters := [filter_service]\<rparr>) ''service_y'' sample_register = Inr r1
    \<and> length (instances_of ''service_y'' r1) = 1
    \<and> instance_child_watcher_fn (sample_zk\<lparr>filters := [filter_service]\<rparr>) CHILD_EVENT (service_path ''service_y'') sample_register = Inr r2
    \<and> length (instances_of ''service_y'' (drain r2)) = 2"
proof -
  let ?E = "sample_zk\<lparr>filters := [filter_service]\<rparr>"
  have "strings_to_instances (parse_address ?E) (zk_children sample_register (service_path ''service_y''))
      = Inr [\<lparr>inst_id = Endpoint 9 7777, inst_version = ''1.1''\<rparr>, \<lparr>inst_id = Endpoint 10 7777, inst_version = ''1.0''\<rparr>]"
    using sample_instances by (simp add: sample_register_def initial_register_def sample_zk_def)
  moreover have "is_zk_connected sample_register" by (simp add: sample_register_def is_zk_connected_def)
  ultimately show ?thesis using updates_are_not_filtered [of sample_register ?E "''service_y''"] by fastforce
qed

end
