(* ===== verification/Adapters.thy ===== *)
theory Adapters
  imports Dispatch
begin

text \<open>
  The adapters of \<^verbatim>\<open>adapter_example\<close>: messages as UDP datagrams, timers kept by a timer process, and
  the loop that hands what arrives to \<^verbatim>\<open>MsgHandlerMgr\<close>.  Sockets and sleeping threads are outside:
  what they deliver is an argument, what is sent is a result.
\<close>

section \<open>Constants\<close>

text \<open>\<^verbatim>\<open>127.0.0.1\<close> is the number of its address.\<close>

definition localhost :: int where
  "localhost = 0x7F000001"

definition timer_service_id :: service_id where
  "timer_service_id = Endpoint localhost 9999"

definition k_msgrpc_request_msg_id :: "16 word" where "k_msgrpc_request_msg_id = 101"
definition k_msgrpc_response_msg_id :: "16 word" where "k_msgrpc_response_msg_id = 102"
definition k_msgrpc_set_timer_msg :: "16 word" where "k_msgrpc_set_timer_msg = 103"
definition k_msgrpc_timeout_msg :: "16 word" where "k_msgrpc_timeout_msg = 104"
definition k_msgrpc_schedule_task_on_main_thread_msg :: "16 word" where
  "k_msgrpc_schedule_task_on_main_thread_msg = 105"

text \<open>The configuration \<^verbatim>\<open>msgrpc_test_loop\<close> and the timer threads start with.\<close>

definition loop_config :: "nat option \<Rightarrow> nat option \<Rightarrow> nat option \<Rightarrow> nat option \<Rightarrow> config \<Rightarrow> fault + config" where
  "loop_config udp timer zk log =
     init_with udp timer zk log k_msgrpc_request_msg_id k_msgrpc_response_msg_id k_msgrpc_set_timer_msg
       k_msgrpc_timeout_msg k_msgrpc_schedule_task_on_main_thread_msg"

section \<open>UdpChannel\<close>

text \<open>The buffer is not initialised: its first content is whatever was there.\<close>

definition recv_buffer_size :: nat where
  "recv_buffer_size = 10240"

record udp_channel =
  channel_service_id :: service_id
  remote_endpoint :: service_id
  recv_buffer :: bytes
  receiving :: bool

datatype received = Datagram bytes service_id | ReceiveError

text \<open>The arguments of \<^verbatim>\<open>on_msg_func_\<close>; \<open>del_msg\<close> is the buffer from \<^verbatim>\<open>msg\<close> on, \<open>del_len\<close> the length it is told.\<close>

record delivery =
  del_id :: "16 word"
  del_msg :: bytes
  del_len :: "64 word"
  del_sender :: service_id

definition ascii :: "string \<Rightarrow> bytes" where
  "ascii s = map (of_nat \<circ> of_char) s"

text \<open>The constructor: receive, and send \<^verbatim>\<open>00init\<close> to itself.\<close>

definition open_channel :: "service_id \<Rightarrow> bytes \<Rightarrow> udp_channel \<times> (bytes \<times> service_id) list" where
  "open_channel sid memory =
     (\<lparr>channel_service_id = sid, remote_endpoint = Endpoint 0 0, recv_buffer = take recv_buffer_size memory, receiving = True\<rparr>,
      [(ascii ''00init'', sid)])"

text \<open>
  \<^verbatim>\<open>handle_receive\<close>.  A datagram that does not fit is cut (\<^verbatim>\<open>message_size\<close>); after any other error
  nothing is received any more.
\<close>

definition handle_receive :: "received \<Rightarrow> udp_channel \<Rightarrow> udp_channel \<times> delivery option" where
  "handle_receive rec ch =
     (case rec of
        ReceiveError \<Rightarrow> (ch\<lparr>receiving := False\<rparr>, None)
      | Datagram data sender \<Rightarrow>
          let got = take (length (recv_buffer ch)) data;
              buf = got @ drop (length got) (recv_buffer ch)
          in (ch\<lparr>recv_buffer := buf, remote_endpoint := sender\<rparr>,
              Some \<lparr>del_id = un16 (buf ! 0) (buf ! 1), del_msg = drop 2 buf,
                    del_len = of_nat (length got) - 2, del_sender = sender\<rparr>))"

section \<open>UdpMsgChannel\<close>

text \<open>The result is what is sent, if memory could be allocated; the caller is told \<^verbatim>\<open>true\<close> in any case.\<close>

definition udp_send_msg ::
  "(nat \<Rightarrow> bool) \<Rightarrow> service_id \<Rightarrow> 16 word \<Rightarrow> bytes \<Rightarrow> bool \<times> (bytes \<times> service_id) list" where
  "udp_send_msg alloc_ok remote msg_id buf =
     (True, if alloc_ok (2 + length buf) then [(le16 msg_id @ buf, remote)] else [])"

definition udp_send_msg_to_self ::
  "(nat \<Rightarrow> bool) \<Rightarrow> udp_channel \<Rightarrow> 16 word \<Rightarrow> bytes \<Rightarrow> bool \<times> (bytes \<times> service_id) list" where
  "udp_send_msg_to_self alloc_ok ch msg_id buf = udp_send_msg alloc_ok (channel_service_id ch) msg_id buf"

definition udp_sender :: "udp_channel \<Rightarrow> fault + service_id" where
  "udp_sender ch =
     (if ep_port (remote_endpoint ch) \<noteq> 0 then Inr (remote_endpoint ch)
      else Inl (AssertFailed ''can only call sender() during msg handling.''))"

section \<open>Timers\<close>

text \<open>
  The layout of \<^verbatim>\<open>timer_info\<close>, which holds a Boost endpoint: its bytes, and the fields that are read
  from as many bytes (\<open>None\<close> when the number is wrong).
\<close>

record timer_layout =
  ti_bytes :: "int \<Rightarrow> service_id \<Rightarrow> 64 word \<Rightarrow> bytes"
  ti_fields :: "bytes \<Rightarrow> (int \<times> service_id \<times> 64 word) option"

text \<open>\<^verbatim>\<open>TimerMgr\<close>: the ids whose timers were cancelled.\<close>

definition timer_mgr_cancel_timer :: "rpc_sequence_id \<Rightarrow> rpc_sequence_id list \<Rightarrow> rpc_sequence_id list" where
  "timer_mgr_cancel_timer s canceled_timer_ids = canceled_timer_ids @ [s]"

definition should_ignore :: "timer_layout \<Rightarrow> bytes \<Rightarrow> rpc_sequence_id list \<Rightarrow> fault + bool" where
  "should_ignore T msg canceled_timer_ids =
     (case ti_fields T msg of
        None \<Rightarrow> Inl (AssertFailed ''msg != nullptr && len == sizeof(timer_info)'')
      | Some (ms, sid, user_data) \<Rightarrow> Inr (ucast user_data \<in> set canceled_timer_ids))"

definition timer_mgr_reset :: "rpc_sequence_id list \<Rightarrow> rpc_sequence_id list" where
  "timer_mgr_reset canceled_timer_ids = []"

text \<open>\<^verbatim>\<open>SimpleTimerAdapter\<close>, on the thread of the service \<open>current\<close>.\<close>

definition adapter_set_timer ::
  "timer_layout \<Rightarrow> (nat \<Rightarrow> bool) \<Rightarrow> service_id \<Rightarrow> int \<Rightarrow> 16 word \<Rightarrow> 64 word \<Rightarrow> (bytes \<times> service_id) list" where
  "adapter_set_timer T alloc_ok current milliseconds msg_id user_data =
     snd (udp_send_msg alloc_ok timer_service_id msg_id (ti_bytes T milliseconds current user_data))"

definition adapter_cancel_timer :: "16 word \<Rightarrow> 64 word \<Rightarrow> rpc_sequence_id list \<Rightarrow> rpc_sequence_id list" where
  "adapter_cancel_timer msg_id user_data = timer_mgr_cancel_timer (ucast user_data)"

text \<open>
  \<^verbatim>\<open>SetTimerHandler::set_timer\<close>: a thread with a channel on a port of its own, which sleeps and then
  sends the \<^verbatim>\<open>timer_info\<close> back.
\<close>

record timer_thread =
  temp_udp_port :: "16 word"
  sleeps_for :: int
  then_sends :: "(bytes \<times> service_id) list"

definition handler_set_timer ::
  "timer_layout \<Rightarrow> (nat \<Rightarrow> bool) \<Rightarrow> bytes \<Rightarrow> 16 word \<Rightarrow> fault + timer_thread \<times> 16 word" where
  "handler_set_timer T alloc_ok msg entry_times =
     (let entry_times' = entry_times + 1
      in case ti_fields T msg of
           None \<Rightarrow> Inl (AssertFailed ''msg != nullptr && len == sizeof(timer_info)'')
         | Some (ms, sid, user_data) \<Rightarrow>
             Inr (\<lparr>temp_udp_port = 20000 + entry_times', sleeps_for = ms,
                   then_sends = snd (udp_send_msg alloc_ok sid k_msgrpc_timeout_msg msg)\<rparr>, entry_times'))"

section \<open>The loop\<close>

text \<open>\<^verbatim>\<open>0 == strcmp(msg, "init")\<close>, which reads five bytes at most.\<close>

definition is_init :: "bytes \<Rightarrow> bool" where
  "is_init msg = (take 5 msg = ascii ''init'' @ [0])"

datatype loop_event =
    RunInit | RequestDropped | TimeoutIgnored | StartTimer bytes | MsgHandled | UnknownMsg

text \<open>
  A handler that is told a length beyond the buffer reads past it; that is \<open>ReadPastBuffer\<close>.
\<close>

datatype loop_fault = Fault fault | ReadPastBuffer

fun in_loop :: "fault + 'a \<Rightarrow> loop_fault + 'a" where
  "in_loop (Inl f) = Inl (Fault f)"
| "in_loop (Inr x) = Inr x"

definition loop_on_msg ::
  "('v, 'r) env \<Rightarrow> ('v, 'r) repository \<Rightarrow> (nat \<Rightarrow> ('v, 'r) rt \<Rightarrow> ('v, 'r) res) \<Rightarrow> timer_layout
   \<Rightarrow> (bytes \<Rightarrow> fault + bool) \<Rightarrow> rpc_sequence_id list \<Rightarrow> delivery \<Rightarrow> ('v, 'r) rt \<Rightarrow> loop_fault + loop_event \<times> ('v, 'r) rt" where
  "loop_on_msg E repo run_task T should_drop canceled_timer_ids d rt =
     (let msg_id = del_id d; msg = take (unat (del_len d)) (del_msg d)
      in if is_init (del_msg d) then Inr (RunInit, rt)
         else if length (del_msg d) < unat (del_len d) then Inl ReadPastBuffer
         else bindR (in_loop (if msg_id = request_msg_id (env_config E) then should_drop msg else Inr False)) (\<lambda>drops.
              if drops then Inr (RequestDropped, rt)
              else bindR (in_loop (if msg_id = timeout_msg_id (env_config E)
                                   then should_ignore T msg canceled_timer_ids else Inr False)) (\<lambda>ignored.
              if ignored then Inr (TimeoutIgnored, rt)
              else if msg_id = set_timer_msg_id (env_config E) then Inr (StartTimer msg, rt)
              else bindR (in_loop (handle_msg E repo run_task msg_id msg (del_sender d) rt)) (\<lambda>(handled, rt').
              Inr (if handled then MsgHandled else UnknownMsg, rt')))))"

text \<open>\<^verbatim>\<open>not_drop_msg\<close>, \<^verbatim>\<open>drop_all_msg\<close> and \<^verbatim>\<open>drop_msg_with_seq_id\<close>; a negative number never equals an id's number but wraps to it.\<close>

definition not_drop_msg :: "bytes \<Rightarrow> fault + bool" where
  "not_drop_msg msg = Inr False"

definition drop_all_msg :: "bytes \<Rightarrow> fault + bool" where
  "drop_all_msg msg = Inr True"

definition drop_msg_with_seq_id :: "int list \<Rightarrow> bytes \<Rightarrow> fault + bool" where
  "drop_msg_with_seq_id seq_ids_to_drop msg =
     (case cast_req_header msg of
        None \<Rightarrow> Inl (AssertFailed ''len >= sizeof(msgrpc::ReqMsgHeader)'')
      | Some req \<Rightarrow> Inr (list_ex (\<lambda>seq_to_drop. sequence_id req = word_of_int seq_to_drop) seq_ids_to_drop))"

section \<open>SimpleLogger\<close>

datatype severity_level = Trace | Debug | Info | Warning | Error | Fatal

fun level_number :: "severity_level \<Rightarrow> nat" where
  "level_number Trace = 0" | "level_number Debug = 1" | "level_number Info = 2"
| "level_number Warning = 3" | "level_number Error = 4" | "level_number Fatal = 5"

fun level_name :: "severity_level \<Rightarrow> string" where
  "level_name Trace = ''[TRACE]  ''" | "level_name Debug = ''[DEBUG]  ''" | "level_name Info = ''[INFO]   ''"
| "level_name Warning = ''[WARNING]''" | "level_name Error = ''[ERROR]  ''" | "level_name Fatal = ''[FATAL]  ''"

definition is_logging_for :: "severity_level \<Rightarrow> severity_level \<Rightarrow> bool" where
  "is_logging_for min_level level = (level_number min_level \<le> level_number level)"

text \<open>What \<^verbatim>\<open>vsnprintf\<close> makes of the arguments is \<open>formatted\<close>; the buffer has room for 511 characters of it.\<close>

definition log_line :: "severity_level \<Rightarrow> severity_level \<Rightarrow> string \<Rightarrow> string option" where
  "log_line min_level level formatted =
     (if is_logging_for min_level level then Some (level_name level @ take 511 formatted) else None)"

section \<open>Datagrams\<close>

lemma loop_init: "is_init (del_msg d) \<Longrightarrow> loop_on_msg E repo run_task T should_drop cs d rt = Inr (RunInit, rt)"
  by (simp add: loop_on_msg_def Let_def)

lemma receive_fits:
  assumes "length data \<le> length (recv_buffer ch)" and "2 \<le> length data"
  shows "handle_receive (Datagram data sender) ch =
    (ch\<lparr>recv_buffer := data @ drop (length data) (recv_buffer ch), remote_endpoint := sender\<rparr>,
     Some \<lparr>del_id = un16 (data ! 0) (data ! 1), del_msg = drop 2 data @ drop (length data) (recv_buffer ch),
           del_len = of_nat (length data - 2), del_sender = sender\<rparr>)"
proof -
  from assms(2) obtain a b rest where "data = a # b # rest" by (auto simp: numeral_2_eq_2 Suc_le_length_iff)
  with assms(1) show ?thesis by (simp add: handle_receive_def Let_def)
qed

lemma send_receive:
  assumes "length (recv_buffer ch) = recv_buffer_size" and "length buf + 2 \<le> recv_buffer_size"
  shows "\<exists>ch' d. handle_receive (Datagram (le16 msg_id @ buf) sender) ch = (ch', Some d)
    \<and> del_id d = msg_id \<and> take (unat (del_len d)) (del_msg d) = buf \<and> unat (del_len d) = length buf
    \<and> unat (del_len d) \<le> length (del_msg d) \<and> del_sender d = sender \<and> remote_endpoint ch' = sender
    \<and> (\<exists>rest. del_msg d = buf @ rest) \<and> length (recv_buffer ch') = recv_buffer_size"
proof -
  have "unat (of_nat (length buf) :: 64 word) = length buf"
    using assms(2) by (simp add: recv_buffer_size_def unsigned_of_nat take_bit_nat_eq_self)
  then show ?thesis
    using assms receive_fits [of "le16 msg_id @ buf" ch sender]
    by (auto simp: le16_def un16_le16 recv_buffer_size_def)
qed

text \<open>
  C23: a message of at most 10238 bytes that is sent is received as it was: with its id, its bytes,
  their number and its sender.
\<close>

theorem datagram_round_trip:
  assumes "length (recv_buffer ch) = recv_buffer_size" and "length buf + 2 \<le> recv_buffer_size" and "alloc_ok (2 + length buf)"
  shows "\<exists>data ch' d. udp_send_msg alloc_ok remote msg_id buf = (True, [(data, remote)])
    \<and> handle_receive (Datagram data sender) ch = (ch', Some d)
    \<and> del_id d = msg_id \<and> take (unat (del_len d)) (del_msg d) = buf \<and> unat (del_len d) = length buf
    \<and> del_sender d = sender \<and> (ep_port sender \<noteq> 0 \<longrightarrow> udp_sender ch' = Inr sender)"
proof -
  from send_receive [OF assms(1,2), of msg_id sender] obtain ch' d where
    d: "handle_receive (Datagram (le16 msg_id @ buf) sender) ch = (ch', Some d)" "del_id d = msg_id"
      "take (unat (del_len d)) (del_msg d) = buf" "unat (del_len d) = length buf" "del_sender d = sender"
      "remote_endpoint ch' = sender" by blast
  have "udp_send_msg alloc_ok remote msg_id buf = (True, [(le16 msg_id @ buf, remote)])"
    using assms(3) by (simp add: udp_send_msg_def)
  with d show ?thesis by (auto simp: udp_sender_def)
qed

definition sample_channel :: udp_channel where
  "sample_channel = fst (open_channel (Endpoint localhost 6666) (replicate recv_buffer_size 0))"

lemma sample_channel_buffer [simp]: "recv_buffer sample_channel = replicate recv_buffer_size 0"
  by (simp add: sample_channel_def open_channel_def)

theorem datagram_round_trip_witness:
  "\<exists>data ch' d. udp_send_msg (\<lambda>n. True) (Endpoint localhost 6666) 101 [7, 8, 9] = (True, [(data, Endpoint localhost 6666)])
    \<and> handle_receive (Datagram data (Endpoint localhost 7777)) sample_channel = (ch', Some d)
    \<and> del_id d = 101 \<and> take (unat (del_len d)) (del_msg d) = [7, 8, 9] \<and> udp_sender ch' = Inr (Endpoint localhost 7777)"
  using datagram_round_trip [of sample_channel "[7, 8, 9]" "\<lambda>n. True" "Endpoint localhost 6666" 101 "Endpoint localhost 7777"]
  by (auto simp: recv_buffer_size_def)

text \<open>A datagram too short to hold an id is handed on with a length near the greatest there is.\<close>

lemma short_datagram_length:
  assumes "length data < 2" and "length (recv_buffer ch) = recv_buffer_size"
  shows "\<exists>ch' d. handle_receive (Datagram data sender) ch = (ch', Some d) \<and> 2 ^ 64 - 2 \<le> unat (del_len d)
    \<and> length (del_msg d) < unat (del_len d)"
proof -
  have "length data = 0 \<or> length data = 1" using assms(1) by linarith
  then have "unat (of_nat (length data) - 2 :: 64 word) \<in> {2 ^ 64 - 2, 2 ^ 64 - 1}"
    by (auto simp: unsigned_minus_1_eq_mask mask_eq_exp_minus_1)
  then show ?thesis using assms by (auto simp: handle_receive_def Let_def recv_buffer_size_def)
qed


section \<open>Timers come back\<close>

definition loop_ids :: "('v, 'r) env \<Rightarrow> bool" where
  "loop_ids E \<longleftrightarrow>
     request_msg_id (env_config E) = k_msgrpc_request_msg_id \<and> response_msg_id (env_config E) = k_msgrpc_response_msg_id
     \<and> set_timer_msg_id (env_config E) = k_msgrpc_set_timer_msg \<and> timeout_msg_id (env_config E) = k_msgrpc_timeout_msg
     \<and> schedule_task_on_main_thread_msg_id (env_config E) = k_msgrpc_schedule_task_on_main_thread_msg"

lemmas msg_ids = loop_ids_def k_msgrpc_request_msg_id_def k_msgrpc_response_msg_id_def k_msgrpc_set_timer_msg_def
  k_msgrpc_timeout_msg_def k_msgrpc_schedule_task_on_main_thread_msg_def

lemma not_init_prefix: "5 \<le> length buf \<Longrightarrow> \<not> is_init buf \<Longrightarrow> \<not> is_init (buf @ rest)"
  by (simp add: is_init_def)

text \<open>A message is taken by the loop as it was sent.\<close>

lemma loop_takes:
  assumes "length (recv_buffer ch) = recv_buffer_size" and "length buf + 2 \<le> recv_buffer_size"
    and "5 \<le> length buf" "\<not> is_init buf"
  shows "\<exists>ch' d. handle_receive (Datagram (le16 msg_id @ buf) sender) ch = (ch', Some d)
    \<and> loop_on_msg E repo run_task T should_drop cs d rt =
      bindR (in_loop (if msg_id = request_msg_id (env_config E) then should_drop buf else Inr False)) (\<lambda>drops.
        if drops then Inr (RequestDropped, rt)
        else bindR (in_loop (if msg_id = timeout_msg_id (env_config E) then should_ignore T buf cs else Inr False)) (\<lambda>ignored.
        if ignored then Inr (TimeoutIgnored, rt)
        else if msg_id = set_timer_msg_id (env_config E) then Inr (StartTimer buf, rt)
        else bindR (in_loop (handle_msg E repo run_task msg_id buf sender rt)) (\<lambda>(handled, rt').
        Inr (if handled then MsgHandled else UnknownMsg, rt'))))"
proof -
  from send_receive [OF assms(1,2), of msg_id sender] obtain ch' d rest where
    d: "handle_receive (Datagram (le16 msg_id @ buf) sender) ch = (ch', Some d)" "del_id d = msg_id"
      "take (unat (del_len d)) (del_msg d) = buf" "\<not> length (del_msg d) < unat (del_len d)" "del_sender d = sender"
      "del_msg d = buf @ rest" by force
  have "\<not> is_init (del_msg d)" using not_init_prefix [OF assms(3,4)] d(6) by simp
  with d(1-5) show ?thesis by (auto simp: loop_on_msg_def Let_def)
qed


text \<open>A layout: milliseconds, address, port and user data, one after the other.\<close>

definition sample_layout :: timer_layout where
  "sample_layout =
     \<lparr>ti_bytes = (\<lambda>ms sid u. le32 (word_of_int ms) @ le32 (word_of_int (ep_address sid)) @ le16 (ep_port sid) @ le64 u),
      ti_fields = (\<lambda>bs. if length bs = 18
        then Some (uint (un32 (bs ! 0) (bs ! 1) (bs ! 2) (bs ! 3)),
                   Endpoint (uint (un32 (bs ! 4) (bs ! 5) (bs ! 6) (bs ! 7))) (un16 (bs ! 8) (bs ! 9)),
                   un64 (drop 10 bs))
        else None)\<rparr>"

lemma sample_fields:
  assumes "0 \<le> ms" "ms < 2 ^ 32" "0 \<le> ep_address sid" "ep_address sid < 2 ^ 32"
  shows "ti_fields sample_layout (ti_bytes sample_layout ms sid u) = Some (ms, sid, u)"
proof -
  have "uint (word_of_int ms :: 32 word) = ms" using assms(1,2) by (simp add: uint_word_of_int_eq take_bit_int_eq_self)
  moreover have "uint (word_of_int (ep_address sid) :: 32 word) = ep_address sid"
    using assms(3,4) by (simp add: uint_word_of_int_eq take_bit_int_eq_self)
  ultimately show ?thesis by (simp add: sample_layout_def le32_def le16_def un32_le32 un16_le16)
qed

lemma sample_layout_ok:
  "ti_fields sample_layout (ti_bytes sample_layout 100 (Endpoint localhost 6666) 5) = Some (100, Endpoint localhost 6666, 5)"
  "length (ti_bytes sample_layout 100 (Endpoint localhost 6666) 5) = 18"
  "\<not> is_init (ti_bytes sample_layout 100 (Endpoint localhost 6666) 5)"
  by (simp_all add: sample_fields localhost_def) (simp_all add: sample_layout_def is_init_def ascii_def le32_def)

lemma sample_loop_ids: "loop_ids sample_env"
  by (simp add: msg_ids sample_env_def sample_config_def)



text \<open>
  The thread of a timer works on port 20000 plus its number, modulo the width of a port; the
  55535th timer of a process takes the timer process's own port.
\<close>

lemma timer_ports:
  assumes "ti_fields T msg = Some (ms, sid, u)"
  shows "\<exists>th. handler_set_timer T alloc_ok msg n = Inr (th, n + 1) \<and> temp_udp_port th = 20000 + (n + 1)
    \<and> (temp_udp_port th = ep_port timer_service_id \<longleftrightarrow> n = 55534)"
proof -
  have "20000 + (n + 1) = 9999 \<longleftrightarrow> n = (55534 :: 16 word)"
  proof
    assume "20000 + (n + 1) = 9999"
    then have "n = - 10002" by (simp add: eq_neg_iff_add_eq_0 add.commute)
    then show "n = 55534" by simp
  qed simp
  then show ?thesis using assms by (simp add: handler_set_timer_def timer_service_id_def Let_def)
qed

end
