(* ===== verification/StartUp.thy ===== *)
theory StartUp
  imports Resolvers Adapters
begin

text \<open>
  How the example services start: the initialisers their \<^verbatim>\<open>main\<close> functions hand to the loop, and the list
  of test cases that \<^verbatim>\<open>service_x\<close> runs one after the other.  Once \<^verbatim>\<open>service_y\<close>, \<^verbatim>\<open>service_z\<close> and
  \<^verbatim>\<open>service_k\<close> have started, \<^verbatim>\<open>service_x\<close> finds each at its endpoint.
\<close>

section \<open>Test cases\<close>

text \<open>The instances of \<^verbatim>\<open>TestCaseBase\<close> in the order of their construction, and \<^verbatim>\<open>index\<close>.\<close>

record 't runner =
  testcases :: "'t list"
  next_index :: "64 word"

definition new_testcase :: "'t \<Rightarrow> 't runner \<Rightarrow> 't runner" where
  "new_testcase t s = s\<lparr>testcases := testcases s @ [t]\<rparr>"

definition do_run_testcase :: "64 word \<Rightarrow> 't runner \<Rightarrow> 't option" where
  "do_run_testcase index s = (if unat index < length (testcases s) then Some (testcases s ! unat index) else None)"

definition run_next_testcase :: "'t runner \<Rightarrow> 't option \<times> 't runner" where
  "run_next_testcase s = (do_run_testcase (next_index s) s, s\<lparr>next_index := next_index s + 1\<rparr>)"

fun run_testcases :: "nat \<Rightarrow> 't runner \<Rightarrow> 't option list" where
  "run_testcases 0 s = []"
| "run_testcases (Suc n) s = (case run_next_testcase s of (t, s') \<Rightarrow> t # run_testcases n s')"

lemma testcases_in_order:
  "unat (next_index s) + n < 2 ^ 64 \<Longrightarrow>
   run_testcases n s = map (\<lambda>i. if i < length (testcases s) then Some (testcases s ! i) else None)
     [unat (next_index s)..<unat (next_index s) + n]"
proof (induction n arbitrary: s)
  case (Suc n)
  then have "unat (next_index s + 1) = Suc (unat (next_index s))" by (simp add: unat_word_ariths)
  with Suc show ?case
    by (simp add: run_next_testcase_def do_run_testcase_def upt_conv_Cons del: upt_Suc)
qed simp

section \<open>The initialisers\<close>

definition start_service :: "zk_env \<Rightarrow> string \<Rightarrow> string \<Rightarrow> string \<Rightarrow> register \<Rightarrow> (fault + register_error + register) option" where
  "start_service E name version endpoint r =
     (case register_init E r of
        None \<Rightarrow> None
      | Some (Inl e) \<Rightarrow> Some (Inr (Inl e))
      | Some (Inr (b, r')) \<Rightarrow> msgrpc_register_service E True name version (Some endpoint) r')"

definition local_endpoint :: "16 word \<Rightarrow> string" where
  "local_endpoint port = ''127.0.0.1'' @ '':'' @ show_nat (unat port)"

text \<open>\<open>rnd\<close> is what \<^verbatim>\<open>rand\<close> returns, which is not negative.\<close>

definition y_port :: "nat \<Rightarrow> 16 word" where
  "y_port rnd = of_nat (rnd mod 100 + 7777)"

definition init_y :: "zk_env \<Rightarrow> nat \<Rightarrow> register \<Rightarrow> (fault + register_error + register) option" where
  "init_y E rnd = start_service E ''service_y'' ''1.0.0'' (local_endpoint (y_port rnd))"

definition init_z :: "zk_env \<Rightarrow> register \<Rightarrow> (fault + register_error + register) option" where
  "init_z E = start_service E ''service_z'' ''1.0.0'' (local_endpoint 10000)"

definition init_k :: "zk_env \<Rightarrow> register \<Rightarrow> (fault + register_error + register) option" where
  "init_k E = start_service E ''service_k'' ''1.0.0'' (local_endpoint 12000)"

definition x_init :: "zk_env \<Rightarrow> 't runner \<Rightarrow> register \<Rightarrow> (register_error + ('t option \<times> 't runner) \<times> register) option" where
  "x_init E runner r =
     (case register_init E r of
        None \<Rightarrow> None
      | Some res \<Rightarrow> Some (bindR res (\<lambda>(b, r'). Inr (run_next_testcase runner, r'))))"

section \<open>What starting a service creates\<close>

lemma wait_created: "wait_util_zk_is_connected E r = Some r' \<Longrightarrow> created r' = created r"
proof (rule wait_util_zk_is_connected.raw_induct [where P = "\<lambda>E r r'. created r' = created r"])
  fix wait and E :: zk_env and r r' :: register
  assume IH: "\<And>E r r'. wait E r = Some r' \<Longrightarrow> created r' = created r"
    and step: "(case try_connect_zk E r of (connected, r') \<Rightarrow> if connected then Some r' else wait E r') = Some r'"
  obtain b r1 where t: "try_connect_zk E r = (b, r1)" by fastforce
  then have "created r1 = created r"
    by (auto simp: try_connect_zk_def Let_def split: if_splits started.splits)
  with step t IH [of E r1 r'] show "created r' = created r" by (auto split: if_splits)
qed

lemma notify_link [simp]:
  "zk_handle (do_notify_listeners s iv r) = zk_handle r" "zk_up (do_notify_listeners s iv r) = zk_up r"
  "created (do_notify_listeners s iv r) = created r" "zk_children (do_notify_listeners s iv r) = zk_children r"
  "round_robin_map (do_notify_listeners s iv r) = round_robin_map r" "services_cache (do_notify_listeners s iv r) = services_cache r"
  "listeners_map (do_notify_listeners s iv r) = listeners_map r"
  by (simp_all add: do_notify_eq)

text \<open>Fetching the services of a connected register fills its cache and creates nothing.\<close>

definition filtered :: "zk_env \<Rightarrow> string \<Rightarrow> instance_info list \<Rightarrow> instance_info list" where
  "filtered E s iv = fold (\<lambda>f iv. f s iv) (filters E) iv"

lemma fetch_and_filter_connected:
  assumes "is_zk_connected r"
  shows "fetch_and_filter E s r = bindR (strings_to_instances (parse_address E) (zk_children r (service_path s))) (\<lambda>iv.
    Inr (do_notify_listeners s (filtered E s iv)
      ((watch_children (service_path s) r)\<lparr>services_cache := (services_cache r)(s \<mapsto> filtered E s iv)\<rparr>)))"
  using assms
  by (simp add: fetch_and_filter_def fetch_service_instances_from_zk_def watch_children_def bindR_def filtered_def Let_def split: sum.split)

lemma fetches:
  assumes "is_zk_connected r" and "foldR (fetch_and_filter E) ss r = Inr r'"
  shows "is_zk_connected r' \<and> created r' = created r \<and> listeners_map r' = listeners_map r \<and> round_robin_map r' = round_robin_map r
    \<and> (\<forall>s\<in>set ss. \<exists>iv. strings_to_instances (parse_address E) (zk_children r (service_path s)) = Inr iv
          \<and> services_cache r' s = Some (filtered E s iv))
    \<and> (\<forall>s. s \<notin> set ss \<longrightarrow> services_cache r' s = services_cache r s)"
  using assms
proof (induction ss arbitrary: r)
  case (Cons s ss)
  from Cons.prems obtain iv where iv: "strings_to_instances (parse_address E) (zk_children r (service_path s)) = Inr iv"
    by (auto simp: fetch_and_filter_connected bindR_eq_Inr)
  let ?r = "do_notify_listeners s (filtered E s iv)
      ((watch_children (service_path s) r)\<lparr>services_cache := (services_cache r)(s \<mapsto> filtered E s iv)\<rparr>)"
  have "is_zk_connected ?r" using Cons.prems(1) by (simp add: is_zk_connected_def watch_children_def)
  moreover have "foldR (fetch_and_filter E) ss ?r = Inr r'"
    using Cons.prems iv by (simp add: fetch_and_filter_connected)
  ultimately show ?case using Cons.IH [of ?r] iv by (cases "s \<in> set ss") (auto simp: watch_children_def)
qed simp

lemma fetches_return:
  "is_zk_connected r \<Longrightarrow> \<forall>s\<in>set ss. \<exists>iv. strings_to_instances (parse_address E) (zk_children r (service_path s)) = Inr iv
   \<Longrightarrow> \<exists>r'. foldR (fetch_and_filter E) ss r = Inr r'"
proof (induction ss arbitrary: r)
  case (Cons s ss)
  then obtain iv where iv: "strings_to_instances (parse_address E) (zk_children r (service_path s)) = Inr iv" by auto
  let ?r = "do_notify_listeners s (filtered E s iv)
      ((watch_children (service_path s) r)\<lparr>services_cache := (services_cache r)(s \<mapsto> filtered E s iv)\<rparr>)"
  have "is_zk_connected ?r" using Cons.prems(1) by (simp add: is_zk_connected_def watch_children_def)
  with Cons iv show ?case
    using Cons.IH [of ?r] by (simp add: fetch_and_filter_connected watch_children_def)
qed simp

lemma listening_link:
  "created (fold (zk_register_listener E) ls r) = created r" "round_robin_map (fold (zk_register_listener E) ls r) = round_robin_map r"
  "zk_children (fold (zk_register_listener E) ls r) = zk_children r"
  by (induction ls arbitrary: r) (auto simp: zk_register_listener_def Let_def split: option.split)

lemma init_created:
  assumes "register_init E r = Some (Inr (b, r'))"
  shows "is_zk_connected r' \<and> created r' = created r"
proof -
  from assms obtain r1 where w: "wait_util_zk_is_connected E (fold (zk_register_listener E) (tracked_listeners E) r) = Some r1"
    and f: "try_fetch_services_from_zk E r1 = Inr (b, r')"
    by (auto simp: register_init_def split: option.splits)
  have up: "is_zk_connected r1" "created r1 = created r"
    using wait_result [OF w] wait_created [OF w] by (simp_all add: waited_def listening_link)
  let ?r2 = "(watch_children k_services_root r1)\<lparr>old_services := sort (zk_children r1 k_services_root)\<rparr>"
  have "is_zk_connected ?r2" using up by (simp add: is_zk_connected_def watch_children_def)
  from fetches [OF this] f up show ?thesis
    by (auto simp: try_fetch_services_from_zk_def Let_def bindR_eq_Inr watch_children_def)
qed

definition service_node :: "string \<Rightarrow> 16 word \<Rightarrow> int \<Rightarrow> string" where
  "service_node version port session_id = instance_node (local_endpoint port) session_id version"

text \<open>A service that has started has asked for three nodes; its session's id is in the name of the third.\<close>

lemma started_created:
  assumes "start_service E name version (local_endpoint port) r = Some (Inr (Inr r'))"
    and "\<And>n. client_id E n \<noteq> None" and "created r = []"
  shows "\<exists>session_id. created r' =
    [(k_services_root, False), (service_path name, False), (service_path name @ ''/'' @ service_node version port session_id, True)]"
proof -
  from assms(1) obtain b r1 where init: "register_init E r = Some (Inr (b, r1))"
    and reg: "msgrpc_register_service E True name version (Some (local_endpoint port)) r1 = Some (Inr (Inr r'))"
    by (auto simp: start_service_def split: option.splits sum.splits)
  note up = init_created [OF init]
  then obtain n where n: "zk_handle r1 = Some n" by (auto simp: is_zk_connected_def)
  with assms(2) obtain c where "client_id E n = Some c" by blast
  with reg up n assms(3) show ?thesis
    by (auto simp: msgrpc_register_service_def register_service_def wait_connected bindR_def Let_def
      create_ephemeral_node_for_service_instance_def create_node_def watch_children_def service_node_def split: sum.splits)
qed

section \<open>The services in the server's tree\<close>

text \<open>
  What zookeeper documents: the children of a node are the names of the nodes one level below it,
  each once, in no particular order.
\<close>

definition tree_holds :: "(string \<times> bool) list \<Rightarrow> (string \<Rightarrow> string list) \<Rightarrow> bool" where
  "tree_holds nodes t \<longleftrightarrow>
     (\<forall>p. distinct (t p) \<and> set (t p) = {n. CHR ''/'' \<notin> set n \<and> p @ ''/'' @ n \<in> fst ` set nodes})"

definition tree_of :: "(string \<times> bool) list \<Rightarrow> string \<Rightarrow> string list" where
  "tree_of nodes p =
     map (drop (Suc (length p)))
       (filter (\<lambda>q. take (Suc (length p)) q = p @ ''/'' \<and> CHR ''/'' \<notin> set (drop (Suc (length p)) q)) (remdups (map fst nodes)))"

lemma tree_of_holds: "tree_holds nodes (tree_of nodes)"
proof -
  have "distinct (tree_of nodes p)" for p
    by (auto simp: tree_of_def distinct_map inj_on_def) (metis append_take_drop_id)
  moreover have "n \<in> set (tree_of nodes p) \<longleftrightarrow> CHR ''/'' \<notin> set n \<and> p @ ''/'' @ n \<in> fst ` set nodes" for p n
  proof
    assume "n \<in> set (tree_of nodes p)"
    then obtain q where q: "q \<in> fst ` set nodes" "take (Suc (length p)) q = p @ ''/''" "n = drop (Suc (length p)) q" "CHR ''/'' \<notin> set n"
      by (auto simp: tree_of_def)
    with append_take_drop_id [of "Suc (length p)" q] show "CHR ''/'' \<notin> set n \<and> p @ ''/'' @ n \<in> fst ` set nodes" by simp
  next
    assume "CHR ''/'' \<notin> set n \<and> p @ ''/'' @ n \<in> fst ` set nodes"
    then show "n \<in> set (tree_of nodes p)"
      by (auto simp: tree_of_def intro!: image_eqI [of _ _ "p @ ''/'' @ n"] intro: rev_image_eqI)
  qed
  ultimately show ?thesis by (auto simp: tree_holds_def)
qed

lemma one_element: "distinct xs \<Longrightarrow> set xs = {x} \<Longrightarrow> xs = [x]"
  by (metis distinct.simps(2) list.set_cases list.set_intros(1) list.set_intros(2) neq_Nil_conv set_empty singletonD singletonI)

lemma node_slash: "CHR ''/'' \<notin> set version \<Longrightarrow> CHR ''/'' \<notin> set (service_node version port session_id)"
  by (simp add: service_node_def instance_node_def local_endpoint_def show_nat_no_mark show_int_no_mark)

lemma node_instance:
  assumes "address_of ''127.0.0.1'' = Some localhost"
  shows "\<exists>i. strings_to_instances address_of [service_node version port session_id] = Inr [i] \<and> inst_id i = Endpoint localhost port"
  using node_endpoint [of "''127.0.0.1''" address_of localhost port session_id version] assms
  by (simp add: strings_to_instances_def service_node_def local_endpoint_def)

text \<open>A service that alone has a node in the tree.\<close>

definition serves :: "(string \<Rightarrow> int option) \<Rightarrow> (string \<Rightarrow> string list) \<Rightarrow> string \<Rightarrow> 16 word \<Rightarrow> bool" where
  "serves address_of t s port \<longleftrightarrow>
     (\<exists>i. strings_to_instances address_of (t (service_path s)) = Inr [i] \<and> inst_id i = Endpoint localhost port)"

lemma three_services:
  assumes y: "created ry = [(k_services_root, False), (service_path ''service_y'', False), (service_path ''service_y'' @ ''/'' @ service_node ''1.0.0'' py cy, True)]"
    and z: "created rz = [(k_services_root, False), (service_path ''service_z'', False), (service_path ''service_z'' @ ''/'' @ service_node ''1.0.0'' pz cz, True)]"
    and k: "created rk = [(k_services_root, False), (service_path ''service_k'', False), (service_path ''service_k'' @ ''/'' @ service_node ''1.0.0'' pk ck, True)]"
    and t: "tree_holds (created ry @ created rz @ created rk) t" and a: "address_of ''127.0.0.1'' = Some localhost"
  shows "set (t k_services_root) = {''service_y'', ''service_z'', ''service_k''}
    \<and> serves address_of t ''service_y'' py \<and> serves address_of t ''service_z'' pz \<and> serves address_of t ''service_k'' pk"
proof -
  have t': "distinct (t p)" "set (t p) = {n. CHR ''/'' \<notin> set n \<and> p @ ''/'' @ n \<in> fst ` set (created ry @ created rz @ created rk)}" for p
    using t by (simp_all add: tree_holds_def)
  have "set (t k_services_root) = {''service_y'', ''service_z'', ''service_k''}"
    unfolding t'(2) y z k by (auto simp: k_services_root_def service_path_def)
  moreover have "t (service_path ''service_y'') = [service_node ''1.0.0'' py cy]" "t (service_path ''service_z'') = [service_node ''1.0.0'' pz cz]"
    "t (service_path ''service_k'') = [service_node ''1.0.0'' pk ck]"
    using node_slash [of "''1.0.0''"]
    by (intro one_element t'(1); unfold t'(2) y z k; auto simp: k_services_root_def service_path_def)+
  ultimately show ?thesis
    using node_instance [where address_of = address_of, OF a] by (simp add: serves_def)
qed

text \<open>What a process that starts later finds for a service with one node.\<close>

lemma register_init_finds:
  assumes "zk_start E n = Started True" and "\<forall>s\<in>set (t k_services_root). \<exists>iv. strings_to_instances (parse_address E) (t (service_path s)) = Inr iv"
  shows "\<exists>r. register_init E (initial_register t) = Some (Inr (True, r)) \<and> round_robin_map r = Map.empty
    \<and> listeners_map r = listeners_map (fold (zk_register_listener E) (tracked_listeners E) (initial_register t))
    \<and> (\<forall>s\<in>set (t k_services_root). \<exists>iv. strings_to_instances (parse_address E) (t (service_path s)) = Inr iv
          \<and> services_cache r s = Some (filtered E s iv))"
proof -
  let ?r0 = "fold (zk_register_listener E) (tracked_listeners E) (initial_register t)"
  have r0: "zk_children ?r0 = t" "round_robin_map ?r0 = Map.empty" "zk_attempts ?r0 = 0" "\<not> is_zk_connected ?r0"
  proof -
    have "zk_attempts (fold (zk_register_listener E) ls r) = zk_attempts r \<and> zk_handle (fold (zk_register_listener E) ls r) = zk_handle r" for ls r
      by (induction ls arbitrary: r) (auto simp: zk_register_listener_def Let_def do_notify_eq split: option.split)
    then show "zk_attempts ?r0 = 0" "\<not> is_zk_connected ?r0" by (simp_all add: is_zk_connected_def initial_register_def)
  qed (simp_all add: listening_link initial_register_def)
  define m where "m = (LEAST n. zk_start E n = Started True)"
  have "zk_start E m = Started True" unfolding m_def using assms(1) by (rule LeastI)
  moreover have "zk_start E i \<noteq> Started True" if "i < m" for i using that not_less_Least unfolding m_def by blast
  ultimately obtain r1 where w: "wait_util_zk_is_connected E ?r0 = Some r1"
    using wait_at [OF r0(4), of m E] r0(3) by simp
  then have r1: "is_zk_connected r1" "zk_children r1 = t" "round_robin_map r1 = Map.empty" "listeners_map r1 = listeners_map ?r0"
    using wait_result [OF w] r0 by (simp_all add: waited_def same_data_def)
  let ?r2 = "(watch_children k_services_root r1)\<lparr>old_services := sort (t k_services_root)\<rparr>"
  have up: "is_zk_connected ?r2" using r1 by (simp add: is_zk_connected_def watch_children_def)
  with fetches_return [of ?r2 "t k_services_root" E] assms(2) r1 obtain r'
    where r': "foldR (fetch_and_filter E) (t k_services_root) ?r2 = Inr r'" by (auto simp: watch_children_def)
  from fetches [OF up r'] r1 have "round_robin_map r' = Map.empty \<and> listeners_map r' = listeners_map ?r0
      \<and> (\<forall>s\<in>set (t k_services_root). \<exists>iv. strings_to_instances (parse_address E) (t (service_path s)) = Inr iv
          \<and> services_cache r' s = Some (filtered E s iv))"
    by (simp add: watch_children_def)
  moreover have "register_init E (initial_register t) = Some (Inr (True, r'))"
    using r1 r' by (simp add: register_init_def w try_fetch_services_from_zk_def Let_def bindR_def)
  ultimately show ?thesis by blast
qed

lemma one_instance_resolves:
  "services_cache r s = Some [i] \<Longrightarrow> service_name_to_id s r = (Some (inst_id i), r)"
  by (simp add: service_name_to_id_def)

lemma service_x_keeps_one: "filtered (service_x_env start address_of) s [i] = [i]"
  by (simp add: filtered_def service_x_env_def filter_service_def)

lemma y_listens:
  "\<exists>ls. listeners_map (fold (zk_register_listener (service_x_env start address_of)) (tracked_listeners (service_x_env start address_of))
       (initial_register t)) ''service_y'' = Some ls \<and> y_listener \<in> set ls"
  by (simp add: service_x_env_def collector_track_def zk_register_listener_def initial_register_def y_listener_def)

lemma y_resolver_finds:
  assumes "register_init (service_x_env start address_of) (initial_register t) = Some (Inr (b, r))"
    and "listeners_map r ''service_y'' = Some ls" "y_listener \<in> set ls" "services_cache r ''service_y'' = Some [i]"
  shows "my_service_resolver ''service_y'' req r = (Some (inst_id i), r)"
proof -
  have "register_inv (service_x_env start address_of) r"
    using inv_init [OF service_x_filters initial_register_inv assms(1)] .
  then have "notified r y_listener = Some [i]" using assms(2-4) by (auto simp: register_inv_def)
  then show ?thesis
    by (simp add: my_service_resolver_def service_resolvers_def y_service_name_to_id_def y_instances_def)
qed

text \<open>
  C15: when \<^verbatim>\<open>service_y\<close>, \<^verbatim>\<open>service_z\<close> and \<^verbatim>\<open>service_k\<close> have started, whatever port \<^verbatim>\<open>service_y\<close> drew,
  and the server holds the nodes they asked for, \<^verbatim>\<open>service_x\<close> starts, begins with its first test case
  and finds each of the three at the endpoint it listens on; its own resolver finds \<^verbatim>\<open>service_y\<close> there too.
\<close>

theorem started_services_are_found:
  assumes y: "init_y Ey rnd ry = Some (Inr (Inr ry'))" "\<And>n. client_id Ey n \<noteq> None" "created ry = []"
    and z: "init_z Ez rz = Some (Inr (Inr rz'))" "\<And>n. client_id Ez n \<noteq> None" "created rz = []"
    and k: "init_k Ek rk = Some (Inr (Inr rk'))" "\<And>n. client_id Ek n \<noteq> None" "created rk = []"
    and t: "tree_holds (created ry' @ created rz' @ created rk') t"
    and x: "address_of ''127.0.0.1'' = Some localhost" "start n = Started True"
  shows "\<exists>r. x_init (service_x_env start address_of) runner (initial_register t) = Some (Inr (run_next_testcase runner, r))
    \<and> service_name_to_id ''service_y'' r = (Some (Endpoint localhost (y_port rnd)), r)
    \<and> service_name_to_id ''service_z'' r = (Some (Endpoint localhost 10000), r)
    \<and> service_name_to_id ''service_k'' r = (Some (Endpoint localhost 12000), r)
    \<and> my_service_resolver ''service_y'' req r = (Some (Endpoint localhost (y_port rnd)), r)"
proof -
  let ?E = "service_x_env start address_of" let ?v = "''1.0.0''"
  have E: "zk_start ?E = start" "parse_address ?E = address_of" by (simp_all add: service_x_env_def)
  obtain cy cz ck where cs: "created ry' = [(k_services_root, False), (service_path ''service_y'', False), (service_path ''service_y'' @ ''/'' @ service_node ?v (y_port rnd) cy, True)]"
    "created rz' = [(k_services_root, False), (service_path ''service_z'', False), (service_path ''service_z'' @ ''/'' @ service_node ?v 10000 cz, True)]"
    "created rk' = [(k_services_root, False), (service_path ''service_k'', False), (service_path ''service_k'' @ ''/'' @ service_node ?v 12000 ck, True)]"
    using started_created [OF y(1) [unfolded init_y_def] y(2,3)] started_created [OF z(1) [unfolded init_z_def] z(2,3)]
      started_created [OF k(1) [unfolded init_k_def] k(2,3)] by blast
  from three_services [where address_of = address_of, OF cs t x(1)] obtain iy iz ik
    where root: "set (t k_services_root) = {''service_y'', ''service_z'', ''service_k''}"
      and i: "strings_to_instances address_of (t (service_path ''service_y'')) = Inr [iy]" "inst_id iy = Endpoint localhost (y_port rnd)"
        "strings_to_instances address_of (t (service_path ''service_z'')) = Inr [iz]" "inst_id iz = Endpoint localhost 10000"
        "strings_to_instances address_of (t (service_path ''service_k'')) = Inr [ik]" "inst_id ik = Endpoint localhost 12000"
    unfolding serves_def by (elim conjE exE) (rule that; assumption)
  have "\<forall>s\<in>set (t k_services_root). \<exists>iv. strings_to_instances (parse_address ?E) (t (service_path s)) = Inr iv"
    using i(1,3,5) unfolding root E by blast
  moreover have "zk_start ?E n = Started True" using x(2) E(1) by simp
  ultimately obtain r
    where init: "register_init ?E (initial_register t) = Some (Inr (True, r))"
      and ls: "listeners_map r = listeners_map (fold (zk_register_listener ?E) (tracked_listeners ?E) (initial_register t))"
      and found: "\<forall>s\<in>set (t k_services_root). \<exists>iv. strings_to_instances (parse_address ?E) (t (service_path s)) = Inr iv
        \<and> services_cache r s = Some (filtered ?E s iv)"
    using register_init_finds [where E = ?E and n = n and t = t] by metis
  from found have cache: "services_cache r ''service_y'' = Some [iy]" "services_cache r ''service_z'' = Some [iz]" "services_cache r ''service_k'' = Some [ik]"
    unfolding root E using i(1,3,5) by (simp_all add: service_x_keeps_one)
  obtain l where "listeners_map r ''service_y'' = Some l" "y_listener \<in> set l" using y_listens [of start address_of t] ls by metis
  from y_resolver_finds [OF init this cache(1)] show ?thesis
    using cache i init by (auto simp: x_init_def bindR_def one_instance_resolves)
qed

text \<open>A process with a connected client, whose session's id is 7.\<close>

definition sample_process :: zk_env where
  "sample_process = (service_x_env (\<lambda>n. Started True) (\<lambda>ip. Some localhost))\<lparr>client_id := (\<lambda>n. Some 7), tracked_listeners := [], filters := []\<rparr>"

lemma sample_start: "\<exists>r'. start_service sample_process name version endpoint (initial_register (\<lambda>p. [])) = Some (Inr (Inr r'))"
  by (simp add: start_service_def register_init_def wait_util_zk_is_connected.simps try_connect_zk_def try_fetch_services_from_zk_def
    sample_process_def service_x_env_def initial_register_def is_zk_connected_def watch_children_def Let_def bindR_def
    msgrpc_register_service_def register_service_def create_ephemeral_node_for_service_instance_def create_node_def)

theorem started_services_are_found_witness:
  "\<exists>t r. x_init (service_x_env (\<lambda>n. Started (n = 2)) (\<lambda>ip. Some localhost)) (\<lparr>testcases = [1 :: nat], next_index = 0\<rparr>) (initial_register t)
      = Some (Inr (run_next_testcase \<lparr>testcases = [1 :: nat], next_index = 0\<rparr>, r))
    \<and> fst (service_name_to_id ''service_k'' r) = Some (Endpoint localhost 12000)"
proof -
  let ?r = "initial_register (\<lambda>p. [])"
  obtain ry rz rk where "init_y sample_process 3 ?r = Some (Inr (Inr ry))" "init_z sample_process ?r = Some (Inr (Inr rz))"
    "init_k sample_process ?r = Some (Inr (Inr rk))"
    using sample_start unfolding init_y_def init_z_def init_k_def by metis
  moreover have "client_id sample_process n \<noteq> None" "created ?r = []" for n by (simp_all add: sample_process_def initial_register_def)
  ultimately show ?thesis
    using started_services_are_found [of sample_process 3 ?r ry sample_process ?r rz sample_process ?r rk "tree_of (created ry @ created rz @ created rk)"
        "\<lambda>ip. Some localhost" "\<lambda>n. Started (n = 2)" 2 "\<lparr>testcases = [1 :: nat], next_index = 0\<rparr>" "[]"] tree_of_holds
    by fastforce
qed

end
