(* ===== verification/Processes.thy ===== *)
theory Processes
  imports Protocol Adapters
begin

text \<open>
  A process of \<^verbatim>\<open>adapter_example\<close>: the runtime of \<open>Runs\<close> behind the channel and the loop of
  \<open>Adapters\<close>.  What the runtime does to the outside becomes datagrams, what the socket receives
  becomes messages; the process refines the runtime, so what holds of every run holds of it, whatever
  datagrams come in.  The last part takes a remote call through both adapters.
\<close>

section \<open>Effects of the runtime\<close>

text \<open>The datagrams an effect of the runtime causes through \<^verbatim>\<open>UdpMsgChannel\<close> and \<^verbatim>\<open>SimpleTimerAdapter\<close>.\<close>

fun datagrams :: "timer_layout \<Rightarrow> (nat \<Rightarrow> bool) \<Rightarrow> udp_channel \<Rightarrow> 'v event \<Rightarrow> (bytes \<times> service_id) list" where
  "datagrams T alloc_ok ch (Sent to m bs r) = snd (udp_send_msg alloc_ok to m bs)"
| "datagrams T alloc_ok ch (SentToSelf m bs r) = snd (udp_send_msg_to_self alloc_ok ch m bs)"
| "datagrams T alloc_ok ch (TimerSet ms m s) = adapter_set_timer T alloc_ok (channel_service_id ch) ms m (ucast s)"
| "datagrams T alloc_ok ch (TimerCancelled m s) = []"
| "datagrams T alloc_ok ch (ActionRun n ss) = []"

text \<open>The ids \<^verbatim>\<open>TimerMgr\<close> holds after these effects.\<close>

fun cancel_of :: "'v event \<Rightarrow> rpc_sequence_id list \<Rightarrow> rpc_sequence_id list" where
  "cancel_of (TimerCancelled m s) cs = adapter_cancel_timer m (ucast s) cs"
| "cancel_of e cs = cs"

definition canceled_timer_ids :: "'v event list \<Rightarrow> rpc_sequence_id list" where
  "canceled_timer_ids events = fold cancel_of events []"

lemma ucast_64_32 [simp]: "ucast (ucast (s :: 32 word) :: 64 word) = s"
  by (rule bit_word_eqI) (simp add: bit_unsigned_iff)

lemma canceled_in:
  assumes "TimerCancelled m s \<in> set events"
  shows "s \<in> set (canceled_timer_ids events)"
proof -
  have "s \<in> set (fold cancel_of events cs)" if "TimerCancelled m s \<in> set events \<or> s \<in> set cs" for cs
    using that
  proof (induction events arbitrary: cs)
    case (Cons e events)
    have "s \<in> set (cancel_of e cs)" if "e = TimerCancelled m s \<or> s \<in> set cs"
      using that by (cases e) (auto simp: adapter_cancel_timer_def timer_mgr_cancel_timer_def)
    with Cons show ?case by auto
  qed simp
  with assms show ?thesis by (simp add: canceled_timer_ids_def)
qed

section \<open>The process\<close>

text \<open>
  A process starts with whatever its memory held in the buffer.  It takes what its socket delivers,
  any datagram from anyone, until a receive fails; in between its own code calls the library.
\<close>

inductive process ::
  "('v, 'r) env \<Rightarrow> ('v, 'r) repository \<Rightarrow> (nat \<Rightarrow> ('v, 'r) rt \<Rightarrow> ('v, 'r) res) \<Rightarrow> timer_layout
   \<Rightarrow> (bytes \<Rightarrow> fault + bool) \<Rightarrow> udp_channel \<Rightarrow> ('v, 'r) rt \<Rightarrow> bool"
  for E repo run_task T should_drop where
  opened: "recv_buffer_size \<le> length memory
    \<Longrightarrow> process E repo run_task T should_drop (fst (open_channel sid memory)) (initial_rt r)"
| received: "process E repo run_task T should_drop ch rt \<Longrightarrow> receiving ch \<Longrightarrow> handle_receive rec ch = (ch', Some d)
    \<Longrightarrow> loop_on_msg E repo run_task T should_drop (canceled_timer_ids (trace rt)) d rt = Inr (ev, rt')
    \<Longrightarrow> process E repo run_task T should_drop ch' rt'"
| failed: "process E repo run_task T should_drop ch rt \<Longrightarrow> receiving ch \<Longrightarrow> handle_receive rec ch = (ch', None)
    \<Longrightarrow> process E repo run_task T should_drop ch' rt"
| called: "process E repo run_task T should_drop ch rt \<Longrightarrow> legal_call rt c \<Longrightarrow> perform E repo run_task c rt = Inr rt'
    \<Longrightarrow> process E repo run_task T should_drop ch rt'"

lemma in_loop_iff [simp]:
  "in_loop r = Inr x \<longleftrightarrow> r = Inr x" "in_loop r = Inl f \<longleftrightarrow> (\<exists>f'. r = Inl f' \<and> f = Fault f')"
  by (cases r; auto)+

text \<open>The loop either leaves the runtime alone or delivers one message to it.\<close>

lemma loop_step:
  assumes "loop_on_msg E repo run_task T should_drop cs d rt = Inr (ev, rt')"
  shows "rt' = rt \<or> perform E repo run_task (Deliver (del_id d) (take (unat (del_len d)) (del_msg d)) (del_sender d)) rt = Inr rt'"
  using assms
  by (auto simp: loop_on_msg_def Let_def bindR_eq_Inr drop_result_def split: if_splits)

lemma loop_fault:
  assumes "loop_on_msg E repo run_task T should_drop cs d rt = Inl (Fault f)"
  shows "should_drop (take (unat (del_len d)) (del_msg d)) = Inl f \<or> should_ignore T (take (unat (del_len d)) (del_msg d)) cs = Inl f
    \<or> perform E repo run_task (Deliver (del_id d) (take (unat (del_len d)) (del_msg d)) (del_sender d)) rt = Inl f"
  using assms
  by (auto simp: loop_on_msg_def Let_def drop_result_def bindR_def split: if_splits sum.splits)

lemma received_buffer: "handle_receive rec ch = (ch', x) \<Longrightarrow> length (recv_buffer ch') = length (recv_buffer ch)"
  by (auto simp: handle_receive_def Let_def split: received.splits)

lemma process_buffer: "process E repo run_task T should_drop ch rt \<Longrightarrow> length (recv_buffer ch) = recv_buffer_size"
  by (induction rule: process.induct) (auto simp: open_channel_def dest: received_buffer)

lemma process_refines: "process E repo run_task T should_drop ch rt \<Longrightarrow> reach E repo run_task False rt"
proof (induction rule: process.induct)
  case (received ch rt rec ch' d ev rt')
  from loop_step [OF received.hyps(4)] show ?case
  proof
    assume "perform E repo run_task (Deliver (del_id d) (take (unat (del_len d)) (del_msg d)) (del_sender d)) rt = Inr rt'"
    then show ?case by (rule reach_call [OF received.IH, rotated -1]) simp_all
  qed (simp add: received.IH)
qed (auto intro: reach_initial reach_call)

lemma receive_length:
  assumes "handle_receive (Datagram data sender) ch = (ch', Some d)" and "length (recv_buffer ch) = recv_buffer_size"
    and "2 \<le> length data"
  shows "unat (del_len d) \<le> length (del_msg d)"
proof -
  let ?n = "min recv_buffer_size (length data)"
  have "2 \<le> ?n" using assms(3) by (simp add: recv_buffer_size_def)
  then obtain k where k: "?n = k + 2" by (metis le_add_diff_inverse2)
  then have "k < 2 ^ 64" by (simp add: recv_buffer_size_def)
  then have "unat (of_nat ?n - 2 :: 64 word) = k" by (simp add: k unsigned_of_nat take_bit_nat_eq_self)
  with assms(1,2) k show ?thesis by (auto simp: handle_receive_def Let_def min.commute)
qed

section \<open>Any datagram\<close>


text \<open>
  C39: \<^verbatim>\<open>TimerMgr\<close> never forgets a cancelled id: at any later time a timeout with that id is dropped, so
  once the ids have come round, the call that is given it again has no timeout and never retries.
\<close>

theorem cancelled_for_good:
  assumes ids: "loop_ids E" and p: "process E repo run_task T should_drop ch rt" and cancelled: "TimerCancelled m s \<in> set (trace rt)"
    and msg: "ti_fields T msg = Some (ms, sid, ucast s)" "length msg + 2 \<le> recv_buffer_size" "5 \<le> length msg" "\<not> is_init msg"
  shows "\<exists>ch' d. handle_receive (Datagram (le16 k_msgrpc_timeout_msg @ msg) sender) ch = (ch', Some d)
    \<and> loop_on_msg E repo run_task T should_drop (canceled_timer_ids (trace rt)) d rt = Inr (TimeoutIgnored, rt)"
proof -
  have "should_ignore T msg (canceled_timer_ids (trace rt)) = Inr True"
    using canceled_in [OF cancelled] by (simp add: should_ignore_def msg(1))
  then show ?thesis
    using loop_takes [OF process_buffer [OF p] msg(2-4), of k_msgrpc_timeout_msg sender E repo run_task T should_drop
        "canceled_timer_ids (trace rt)" rt] ids
    by (auto simp: msg_ids)
qed

section \<open>A call over UDP\<close>

lemma not_init_header: "msgrpc_version h \<noteq> 105 \<Longrightarrow> \<not> is_init (msg_header_bytes h @ bs)"
  by (simp add: is_init_def ascii_def msg_header_bytes_def)

lemma request_taken: "5 \<le> length (request_bytes i mi s bs)" "\<not> is_init (request_bytes i mi s bs)"
  by (simp_all add: request_bytes_def not_init_header new_req_header_def sizeof_req_header_def)

lemma reply_taken: "5 \<le> length (reply_bytes E h r out)" "msgrpc_version h \<noteq> 105 \<Longrightarrow> \<not> is_init (reply_bytes E h r out)"
  by (simp_all add: reply_bytes_def rsp_header_bytes_def not_init_header rsp_header_of_def sizeof_rsp_header_def sizeof_req_header_def)

text \<open>A request that is not dropped, and a response, reach their handlers.\<close>

lemma loop_request:
  assumes "loop_ids E" and "length (recv_buffer ch) = recv_buffer_size" and "length buf + 2 \<le> recv_buffer_size"
    and "5 \<le> length buf" "\<not> is_init buf" and "should_drop buf = Inr False"
    and "on_rpc_req_msg E repo (request_msg_id (env_config E)) buf sender rt = Inr rt'"
  shows "\<exists>d. snd (handle_receive (Datagram (le16 (request_msg_id (env_config E)) @ buf) sender) ch) = Some d
    \<and> loop_on_msg E repo run_task T should_drop cs d rt = Inr (MsgHandled, rt')"
  using loop_takes [OF assms(2-5), of "request_msg_id (env_config E)" sender E repo run_task T should_drop cs rt] assms(1,6,7)
  by (auto simp: msg_ids handle_msg_def)

lemma loop_response:
  assumes "loop_ids E" and "length (recv_buffer ch) = recv_buffer_size" and "length buf + 2 \<le> recv_buffer_size"
    and "5 \<le> length buf" "\<not> is_init buf"
    and "handle_rpc_rsp E (update E) buf rt = Inr rt'"
  shows "\<exists>d. snd (handle_receive (Datagram (le16 (response_msg_id (env_config E)) @ buf) sender) ch) = Some d
    \<and> loop_on_msg E repo run_task T should_drop cs d rt = Inr (MsgHandled, rt')"
  using loop_takes [OF assms(2-5), of "response_msg_id (env_config E)" sender E repo run_task T should_drop cs rt] assms(1,6)
  by (auto simp: msg_ids handle_msg_def)

text \<open>
  C5: a remote call between two processes.  The stub's request leaves as one datagram to the resolved
  endpoint; the server's loop takes it, runs the method and answers with one datagram to the client's
  endpoint; the client's loop takes that, sets the cell of the call to the method's result, and
  nothing stays pending for it.
\<close>

theorem rpc_over_udp:
  assumes client: "sends_to Ec r svc v bs sid" "ctxs rt k = Some x" "ctx_resolver x = Some r"
      "id_func_map rt (fst (get (seq_counter rt))) = None" and fine: "rt_ok rt" "rt_ok rtS"
    and server: "msg_channel (env_config Es) \<noteq> None" "repo i = Some ms"
      "find (\<lambda>m. method_index m = mi) ms = Some m" "answers m v' ty' w"
    and wire: "thrift_read Es (req_type m) bs = Some (v', n)" "0 < n" "thrift_write Es w = Some out" "out \<noteq> []"
      "malloc_ok Es (sizeof_rsp_header + length out)" "thrift_read Ec ty out = Some (w', n')" "0 < n'"
    and ids: "loop_ids Ec" "loop_ids Es"
    and chans: "length (recv_buffer chc) = recv_buffer_size" "length (recv_buffer chs) = recv_buffer_size"
    and sizes: "sizeof_req_header + length bs + 2 \<le> recv_buffer_size" "sizeof_rsp_header + length out + 2 \<le> recv_buffer_size"
    and memory: "alloc_ok (2 + (sizeof_req_header + length bs))" "alloc_ok (2 + (sizeof_rsp_header + length out))"
    and kept: "should_drop (request_bytes i mi (fst (get (seq_counter rt))) bs) = Inr False"
  shows "\<exists>a rt1 e1 mem1 d1 rtS' e2 mem2 d2 rt2.
    encode_request_and_send Ec k svc i mi ty v rt = Inr (a, rt1) \<and> trace rt1 = trace rt @ [e1]
    \<and> datagrams T alloc_ok chc e1 = [(mem1, sid)]
    \<and> snd (handle_receive (Datagram mem1 (channel_service_id chc)) chs) = Some d1
    \<and> loop_on_msg Es repo tasks_s T should_drop css d1 rtS = Inr (MsgHandled, rtS') \<and> trace rtS' = trace rtS @ [e2]
    \<and> datagrams T alloc_ok chs e2 = [(mem2, channel_service_id chc)]
    \<and> snd (handle_receive (Datagram mem2 sid) chc) = Some d2
    \<and> loop_on_msg Ec repo_c tasks_c T drop_c csc d2 rt1 = Inr (MsgHandled, rt2)
    \<and> (\<exists>c. heap rt2 a = Some (CellObj c) \<and> cell_value (cstate c) = Some (Rsp w') \<and> \<not> has_seq_id c)
    \<and> id_func_map rt2 = id_func_map rt"
proof -
  let ?s = "fst (get (seq_counter rt))" and ?me = "channel_service_id chc"
  let ?req = "request_bytes i mi ?s bs" and ?rsp = "reply_bytes Es (new_req_header i mi ?s) Succeeded out"
  obtain a rt1 rtS' rt2 where call: "encode_request_and_send Ec k svc i mi ty v rt = Inr (a, rt1)"
      "sent_one rt sid (request_msg_id (env_config Ec)) ?req rt1"
    and serve: "on_rpc_req_msg Es repo (request_msg_id (env_config Es)) ?req ?me rtS = Inr rtS'"
      "sent_one rtS ?me (response_msg_id (env_config Es)) ?rsp rtS'"
    and answer: "handle_rpc_rsp Ec (update Ec) ?rsp rt1 = Inr rt2"
      "\<exists>c. heap rt2 a = Some (CellObj c) \<and> cell_value (cstate c) = Some (Rsp w') \<and> \<not> has_seq_id c"
      "id_func_map rt2 = id_func_map rt"
    using rpc_way [where repo = repo and i = i and mi = mi, OF client fine server wire, of ?me] by blast
  from call(2) serve(2) obtain ok1 ok2 where
    e1: "trace rt1 = trace rt @ [Sent sid (request_msg_id (env_config Ec)) ?req ok1]" and
    e2: "trace rtS' = trace rtS @ [Sent ?me (response_msg_id (env_config Es)) ?rsp ok2]"
    unfolding sent_one_def by blast
  have same_ids: "request_msg_id (env_config Ec) = request_msg_id (env_config Es)"
    "response_msg_id (env_config Ec) = response_msg_id (env_config Es)" using ids by (simp_all add: msg_ids)
  have len: "length ?req = sizeof_req_header + length bs" "length ?rsp = sizeof_rsp_header + length out"
    by (simp_all add: request_bytes_def reply_bytes_def)
  have version: "msgrpc_version (new_req_header i mi ?s) \<noteq> 105" by (simp add: new_req_header_def)
  from loop_request [where should_drop = should_drop and buf = ?req and T = T and cs = css and run_task = tasks_s,
      OF ids(2) chans(2) _ request_taken kept serve(1)] sizes(1)
  obtain d1 where d1: "snd (handle_receive (Datagram (le16 (request_msg_id (env_config Es)) @ ?req) ?me) chs) = Some d1"
    "loop_on_msg Es repo tasks_s T should_drop css d1 rtS = Inr (MsgHandled, rtS')" by (auto simp: len)
  from loop_response [where buf = ?rsp and T = T and cs = csc and run_task = tasks_c and repo = repo_c
      and should_drop = drop_c and sender = sid, OF ids(1) chans(1) _ reply_taken(1) reply_taken(2) [OF version] answer(1)] sizes(2)
  obtain d2 where d2: "snd (handle_receive (Datagram (le16 (response_msg_id (env_config Ec)) @ ?rsp) sid) chc) = Some d2"
    "loop_on_msg Ec repo_c tasks_c T drop_c csc d2 rt1 = Inr (MsgHandled, rt2)" by (auto simp: len)
  have "datagrams T alloc_ok chc (Sent sid (request_msg_id (env_config Ec)) ?req ok1) = [(le16 (request_msg_id (env_config Es)) @ ?req, sid)]"
    "datagrams T alloc_ok chs (Sent ?me (response_msg_id (env_config Es)) ?rsp ok2) = [(le16 (response_msg_id (env_config Ec)) @ ?rsp, ?me)]"
    using memory by (simp_all add: udp_send_msg_def len same_ids)
  with call(1) e1 d1 e2 d2 answer(2,3) show ?thesis by blast
qed

section \<open>Witnesses\<close>

lemma sample_process: "process sample_env Map.empty (\<lambda>n. Inr) sample_layout not_drop_msg sample_channel (initial_rt ())"
  unfolding sample_channel_def by (rule opened) simp

lemma process_run:
  "legal_run E repo run_task client cs rt = Some rt' \<Longrightarrow> process E repo run_task T should_drop ch rt
   \<Longrightarrow> process E repo run_task T should_drop ch rt'"
proof (induction cs arbitrary: rt)
  case (Cons c cs)
  then show ?case by (auto split: if_splits sum.splits intro: called)
qed simp

definition answered_calls :: "bytes call list" where
  "answered_calls = retry_calls @ [Deliver 102 (sample_rsp 1) (Endpoint 1 7777)]"

theorem cancelled_for_good_witness:
  "\<exists>rt ch' d. TimerCancelled 103 1 \<in> set (trace (rt :: (bytes, unit) rt))
    \<and> handle_receive (Datagram (le16 k_msgrpc_timeout_msg @ ti_bytes sample_layout 100 (Endpoint localhost 6666) 1)
        (Endpoint localhost 20001)) sample_channel = (ch', Some d)
    \<and> loop_on_msg sample_env Map.empty (\<lambda>n. Inr) sample_layout not_drop_msg (canceled_timer_ids (trace rt)) d rt = Inr (TimeoutIgnored, rt)"
proof -
  let ?ti = "ti_bytes sample_layout 100 (Endpoint localhost 6666) 1"
  have "case legal_run sample_env Map.empty (\<lambda>n. Inr) True answered_calls (initial_rt ()) of
      None \<Rightarrow> False | Some rt \<Rightarrow> list_ex (\<lambda>e. case e of TimerCancelled m s \<Rightarrow> m = 103 \<and> s = 1 | _ \<Rightarrow> False) (trace rt)"
    by code_simp
  then obtain rt e where rt: "legal_run sample_env Map.empty (\<lambda>n. Inr) True answered_calls (initial_rt ()) = Some rt"
    and e: "e \<in> set (trace rt)" "case e of TimerCancelled m s \<Rightarrow> m = 103 \<and> s = 1 | _ \<Rightarrow> False"
    by (auto simp: list_ex_iff split: option.splits)
  from e(2) have "e = TimerCancelled 103 1" by (cases e) auto
  with e(1) have cancelled: "TimerCancelled 103 1 \<in> set (trace rt)" by simp
  have ti: "ti_fields sample_layout ?ti = Some (100, Endpoint localhost 6666, ucast (1 :: 32 word))" "length ?ti = 18" "\<not> is_init ?ti"
    by (simp_all add: sample_fields localhost_def) (simp_all add: sample_layout_def is_init_def ascii_def le32_def)
  from cancelled_for_good [OF sample_loop_ids process_run [OF rt sample_process] cancelled ti(1)] ti(2,3) cancelled
  show ?thesis by (fastforce simp: recv_buffer_size_def)
qed


theorem rpc_over_udp_witness:
  "\<exists>a rt1 mem1 d1 rtS' mem2 d2 rt2.
    encode_request_and_send sample_env 0 ''service_y'' 2 1 ''rsp'' [5] retry_state = Inr (a, rt1)
    \<and> snd (handle_receive (Datagram mem1 (Endpoint localhost 6666)) sample_channel) = Some d1
    \<and> loop_on_msg sample_env sample_repo (\<lambda>n. Inr) sample_layout not_drop_msg [] d1 (initial_rt ()) = Inr (MsgHandled, rtS')
    \<and> snd (handle_receive (Datagram mem2 (Endpoint 1 7777)) sample_channel) = Some d2
    \<and> loop_on_msg sample_env Map.empty (\<lambda>n. Inr) sample_layout not_drop_msg [] d2 rt1 = Inr (MsgHandled, rt2)
    \<and> (\<exists>c. heap rt2 a = Some (CellObj c) \<and> cell_value (cstate c) = Some (Rsp [5, 1]))"
proof -
  from retry_state_waiting obtain x where k: "ctxs retry_state 0 = Some x" "ctx_resolver x = Some 0"
    and map: "id_func_map retry_state = [seq_counter retry_state \<mapsto> 1]" by (auto simp: waiting_def)
  have free: "id_func_map retry_state (fst (get (seq_counter retry_state))) = None" by (simp add: map get_differs)
  have me: "channel_service_id sample_channel = Endpoint localhost 6666" by (simp add: sample_channel_def open_channel_def)
  have repo: "sample_repo 2 = Some [append_method]" "find (\<lambda>m. method_index m = 1) [append_method] = Some append_method"
    by (simp_all add: sample_repo_def append_method_def)
  have ans: "answers append_method [5] ''rsp'' [5, 1]" using append_answers [of "[5]"] by simp
  have sends: "sends_to sample_env 0 ''service_y'' [5] [5] (Endpoint 1 7777)" by (rule sample_sends) simp
  have buf: "length (recv_buffer sample_channel) = recv_buffer_size" by simp
  note way = rpc_over_udp [where repo = sample_repo and i = 2 and mi = 1 and ms = "[append_method]" and m = append_method
      and v' = "[5]" and ty' = "''rsp''" and w = "[5, 1]" and n = 1 and out = "[5, 1]" and ty = "''rsp''" and w' = "[5, 1]" and n' = 2
      and alloc_ok = "\<lambda>n. True" and should_drop = not_drop_msg and T = sample_layout and tasks_s = "\<lambda>n. Inr" and css = "[]"
      and tasks_c = "\<lambda>n. Inr" and repo_c = Map.empty and drop_c = not_drop_msg and csc = "[]" and Es = sample_env,
      OF sends k free retry_state_ok rt_ok_initial _ repo ans _ _ _ _ _ _ _ sample_loop_ids sample_loop_ids buf buf]
  show ?thesis
    using way by (simp add: recv_buffer_size_def sizeof_req_header_def sizeof_rsp_header_def not_drop_msg_def me) blast
qed

end
