(* ===== verification/Network.thy ===== *)
theory Network
  imports Protocol "HOL-Library.Sublist"
begin

text \<open>
  A client and a server on a network that loses, repeats and reorders messages: which request the
  response belongs to that a call gets.  The first part is a contract for properties of a runtime
  that survive every call: those kept by what sends no request, and by sending one.
\<close>

section \<open>What sends no request\<close>

fun request_of :: "('v, 'r) env \<Rightarrow> 'v event \<Rightarrow> bytes list" where
  "request_of E (Sent sid m mem ok) = (if m = request_msg_id (env_config E) then [mem] else [])"
| "request_of E _ = []"

definition sent_requests :: "('v, 'r) env \<Rightarrow> 'v event list \<Rightarrow> bytes list" where
  "sent_requests E evs = concat (map (request_of E) evs)"

lemma sent_requests_append [simp]: "sent_requests E (xs @ ys) = sent_requests E xs @ sent_requests E ys"
  by (simp add: sent_requests_def)

lemma sent_requests_single [simp]: "sent_requests E [e] = request_of E e" "sent_requests E [] = []"
  by (simp_all add: sent_requests_def)

text \<open>No new id and no new entry of the table; objects may be made.\<close>

definition silent :: "('v, 'r) env \<Rightarrow> ('v, 'r) rt \<Rightarrow> ('v, 'r) rt \<Rightarrow> bool" where
  "silent E rt rt' \<longleftrightarrow>
     next_addr rt \<le> next_addr rt' \<and> seq_counter rt' = seq_counter rt \<and> id_func_map rt' \<subseteq>\<^sub>m id_func_map rt
     \<and> (\<exists>evs. trace rt' = trace rt @ evs \<and> sent_requests E evs = [])"

lemma silent_state:
  assumes "next_addr rt \<le> next_addr rt'" and "seq_counter rt' = seq_counter rt" and "trace rt' = trace rt"
    and "id_func_map rt' = id_func_map rt"
  shows "silent E rt rt'"
  using assms by (simp add: silent_def)

lemma silent_emit: "request_of E e = [] \<Longrightarrow> silent E rt (emit e rt)"
  by (auto simp: silent_def emit_def)

lemma silent_erase: "silent E rt (erase_handler s rt)"
  by (auto simp: silent_def erase_handler_def map_le_def)

lemma silent_deleted: "only_deleted rt rt' \<Longrightarrow> silent E rt rt'"
  by (simp add: silent_def only_deleted_def)

text \<open>A call that runs no code of the program itself: of the messages only responses and timeouts.\<close>

fun library_call :: "('v, 'r) env \<Rightarrow> 'v call \<Rightarrow> bool" where
  "library_call E (Deliver m msg sender) =
     (m \<noteq> request_msg_id (env_config E)
      \<and> (m = response_msg_id (env_config E) \<or> m = timeout_msg_id (env_config E)
         \<or> m \<noteq> schedule_task_on_main_thread_msg_id (env_config E)))"
| "library_call E _ = True"

section \<open>What survives every call\<close>

locale survives_calls =
  fixes E :: "('v, 'r) env" and I :: "('v, 'r) rt \<Rightarrow> bool"
  assumes quiet: "I rt \<Longrightarrow> silent E rt rt' \<Longrightarrow> I rt'"
    and asking: "I rt \<Longrightarrow> outcome (\<lambda>(a, rt'). I rt') any_error (encode_request_and_send E k svc i mi ty v rt)"
    and replying: "I rt \<Longrightarrow> I (emit (Sent sid (response_msg_id (env_config E)) mem ok) rt)"
begin

lemma stays [simp]:
  assumes "I rt"
  shows "I (put_cell a c rt)" "I (put_action a x rt)" "I (free_obj a rt)" "I (erase_handler s rt)"
    "I (rt\<lparr>ctxs := m\<rparr>)" "I (rt\<lparr>tasks := t, next_task := n\<rparr>)" "I (rt\<lparr>tasks := t\<rparr>)"
    "I (rt\<lparr>should_reset_to_default_size := b\<rparr>)" "I (rt\<lparr>ctxs := m, next_ctx := k\<rparr>)"
    "request_of E e = [] \<Longrightarrow> I (emit e rt)"
  using assms by (auto intro!: quiet [OF assms] silent_state silent_emit silent_erase simp: put_cell_def put_action_def free_obj_def)

lemma made: "I rt \<Longrightarrow> alloc ob rt = (a, rt') \<Longrightarrow> I rt'"
  by (erule quiet) (auto simp: alloc_def intro: silent_state)

lemma deleted: "I rt \<Longrightarrow> outcome I any_error (delete_obj E a rt)"
  using delete_obj_only_deleted [of rt E a] by (rule outcome_mono) (auto intro: quiet silent_deleted)

lemma tracked: "I rt \<Longrightarrow> outcome I any_error (track k a rt)"
  by (simp add: track_def split: option.split)

lemma looked [outcome_rules]: "(\<And>c. heap rt a = Some (CellObj c) \<Longrightarrow> outcome Q any_error (f c)) \<Longrightarrow> outcome Q any_error (with_cell a rt f)"
  by (simp add: with_cell_def split: option.split obj.split)

lemma looked_timeout: "(\<And>c ti. outcome Q any_error (f c ti)) \<Longrightarrow> outcome Q any_error (with_timeout_cell a rt f)"
  by (auto simp: with_timeout_cell_def intro!: looked split: kind.split)

lemma read_then: "(\<And>ss. outcome Q any_error (f ss)) \<Longrightarrow> outcome Q any_error (bindR (read_args as rt) f)"
  by (cases "read_args as rt") auto

lemma updated_info: "I rt \<Longrightarrow> outcome I any_error (update_timeout_info a f rt)"
  by (simp add: update_timeout_info_def looked_timeout)

lemma logged: "I rt \<Longrightarrow> outcome I any_error (msgrpc_log E rt)"
  by (simp add: msgrpc_log_def split: option.split)

lemma failed_cell: "I rt \<Longrightarrow> outcome (\<lambda>(a, rt'). I rt') any_error (failed_cell_with_reason k ty r rt)"
  by (auto simp: failed_cell_with_reason_def new_instance_def split: prod.split intro!: outcome_bind [OF tracked] dest: made)

lemma started_rpc: "I rt \<Longrightarrow> outcome (\<lambda>(a, rt'). I rt') any_error (start_rpc E k ty st rt)"
  unfolding start_rpc_def
  by (cases st) (auto intro!: outcome_bind [OF failed_cell] outcome_bind [OF asking])

lemma timers: "I rt \<Longrightarrow> outcome I any_error (set_timer E ms m s rt)" "I rt \<Longrightarrow> outcome I any_error (cancel_timer E m s rt)"
  by (simp_all add: set_timer_def cancel_timer_def split: option.split)

lemma encoded: "I rt \<Longrightarrow> outcome (\<lambda>(buf, rt'). I rt') any_error (do_encode E v rt)"
  by (auto simp: do_encode_def Let_def logged intro!: outcome_bind [OF logged] split: option.split)

lemma response_sent: "I rt \<Longrightarrow> outcome (\<lambda>(b, rt'). I rt') any_error (send_msg E sid (response_msg_id (env_config E)) mem rt)"
  by (simp add: send_msg_def Let_def replying split: option.split)

lemma header_sent: "I rt \<Longrightarrow> outcome I any_error (send_msg_with_header E sid h out rt)"
  by (auto simp: send_msg_with_header_def Let_def split: option.split intro!: outcome_bind [OF response_sent])

lemma value_sent: "I rt \<Longrightarrow> outcome (\<lambda>(b, rt'). I rt') any_error (send_rsp_cell_value E sid h c rt)"
  by (auto simp: send_rsp_cell_value_def split: option.split cval.split intro!: outcome_bind [OF encoded] outcome_bind [OF header_sent])

text \<open>The operations that call \<^verbatim>\<open>update\<close>.\<close>

definition calm :: "('v, 'r) update \<Rightarrow> bool" where
  "calm upd \<longleftrightarrow> (\<forall>u rt. I rt \<longrightarrow> outcome I any_error (upd u rt))"

lemma calmD: "calm upd \<Longrightarrow> I rt \<Longrightarrow> outcome I any_error (upd u rt)"
  by (simp add: calm_def)

lemma evaluated:
  assumes "calm upd" and "I rt"
  shows "outcome I any_error (evaluate_all_derived_cells upd a rt)"
  unfolding evaluate_all_derived_cells_def
  by (intro looked outcome_fold) (auto simp: assms calmD intro!: looked)

lemma states_set:
  assumes "calm upd" and "I rt"
  shows "outcome I any_error (set_failed_reason upd a r rt)" "outcome I any_error (set_value upd a v rt)"
  unfolding set_failed_reason_def set_value_def by (intro looked evaluated assms stays(1))+

lemma cell_value_set: "calm upd \<Longrightarrow> I rt \<Longrightarrow> outcome I any_error (set_cell_value upd a st rt)"
  by (auto simp: set_cell_value_def the_value_def states_set split: option.split)

lemma listener_registered:
  assumes "calm upd" and "I rt"
  shows "outcome I any_error (register_as_listener upd u args rt)"
  unfolding register_as_listener_def register_listener_def
  by (rule outcome_fold) (auto simp: assms calmD intro!: looked)

lemma action_made:
  assumes "calm upd" and "I rt"
  shows "outcome (\<lambda>(u, rt'). I rt') any_error (new_derived_action upd fin lg args rt)"
  unfolding new_derived_action_def
  by (auto simp: assms split: prod.split option.split obj.split
      intro!: outcome_bind [OF listener_registered [OF assms(1)]] outcome_bind [OF tracked] looked dest: made [OF assms(2)])

lemma action_derived:
  assumes "calm upd" and "I rt"
  shows "outcome (\<lambda>(u, rt'). I rt') any_error (derive_action upd k lg args rt)"
  unfolding derive_action_def by (rule outcome_bind [OF action_made [OF assms]]) (auto intro!: outcome_bind [OF tracked])

lemma rpc_invoked:
  assumes upd: "calm upd" and I: "I rt"
  shows "outcome I any_error (invoke_rpc_once E upd a ms rt)"
proof -
  have bound: "outcome I any_error (bind_timeout_cell upd a b rt)" if "I rt" for b rt
    unfolding bind_timeout_cell_def by (auto intro!: looked_timeout outcome_bind [OF action_derived [OF upd that]])
  show ?thesis
    unfolding invoke_rpc_once_def
    by (auto simp: states_set upd bound split: option.split
        intro!: looked_timeout read_then outcome_bind [OF started_rpc [OF I]] outcome_bind [OF updated_info] looked
          outcome_bind [OF timers(1)])
qed

lemma rpc_changed:
  assumes upd: "calm upd" and I: "I rt"
  shows "outcome I any_error (on_rpc_cell_changed E upd a rpc rt)"
proof -
  have "outcome I any_error (retry_rpc_if_need E upd a st rt)" for st
    unfolding retry_rpc_if_need_def
    by (auto simp: I upd states_set split: option.split
        intro!: looked_timeout outcome_bind [OF updated_info [OF I]] rpc_invoked [OF upd] outcome_bind [OF states_set(1) [OF upd I]])
  then show ?thesis
    unfolding on_rpc_cell_changed_def
    by (auto simp: I upd cell_value_set intro!: outcome_bind [OF timers(2) [OF I]])
qed

lemma action_ran: "calm upd \<Longrightarrow> I rt \<Longrightarrow> outcome I any_error (run_action E upd x rt)"
  unfolding run_action_def on_async_rsp_def
  by (auto simp: rpc_changed states_set cell_value_set split: action_logic.split
      intro!: read_then looked outcome_bind [OF value_sent])

lemma cell_updated:
  assumes upd: "calm upd" and I: "I rt"
  shows "outcome I any_error (update_body E upd u rt)"
proof -
  have "outcome I any_error (derived_cell_update upd u c lg args rt)" for c lg args
    unfolding derived_cell_update_def run_request_def
    by (auto simp: I upd states_set cell_value_set split: option.split outcome_request.split intro!: read_then)
  moreover have "outcome I any_error (async_cell_update E upd u c k f args rt)" for c k f args
    unfolding async_cell_update_def
    by (auto simp: I upd states_set split: option.split
        intro!: read_then outcome_bind [OF started_rpc [OF I]] looked outcome_bind [OF action_derived [OF upd]])
  moreover have "outcome I any_error (timeout_update E upd u c ti rt)" for c ti
    by (simp add: timeout_update_def rpc_invoked upd I)
  moreover have "outcome I any_error (action_update E upd u x rt)" for x
    unfolding action_update_def
    by (auto simp: action_ran upd I deleted split: option.split obj.split intro!: outcome_bind [OF action_ran [OF upd I]])
  ultimately show ?thesis using I by (simp add: update_body_def split: option.split obj.split kind.split)
qed

lemma update_calm: "calm (update E)"
proof -
  have "calm (update_f n E)" for n
    by (induction n) (auto simp: calm_def cell_updated [unfolded calm_def])
  then show ?thesis by (simp add: calm_def update_def del: update_f.simps)
qed

lemma cells_made:
  assumes "I rt"
  shows "outcome (\<lambda>(a, rt'). I rt') any_error (derive_cell E k ty lg args rt)"
    "outcome (\<lambda>(a, rt'). I rt') any_error (derive_rpc_cell E k ty ms n f args rt)"
    "outcome (\<lambda>(a, rt'). I rt') any_error (derive_async_cell E k ty f args rt)"
  unfolding derive_cell_def derive_rpc_cell_def derive_async_cell_def
  by (auto split: prod.split dest!: made [OF assms]
      intro!: outcome_bind [OF listener_registered [OF update_calm]] outcome_bind [OF rpc_invoked [OF update_calm]] outcome_bind [OF tracked])

lemma handler_deleted: "I rt \<Longrightarrow> outcome I any_error (delete_rsp_handler_if_exist s rt)"
  by (auto simp: delete_rsp_handler_if_exist_def reset_sequential_id_def with_cell_def split: option.split obj.split)

lemma response_handled:
  assumes "I rt"
  shows "outcome I any_error (handle_rpc_rsp E (update E) msg rt)"
proof -
  have "outcome I any_error (set_rpc_rsp E (update E) a h m rt)" for a h m
    unfolding set_rpc_rsp_def
    by (auto simp: states_set update_calm assms do_decode_def logged bindR_assoc split: option.split
        intro!: looked outcome_bind [OF logged [OF assms]])
  then show ?thesis
    unfolding handle_rpc_rsp_def using assms
    by (auto simp: logged handler_deleted split: option.split intro!: outcome_bind [where R = I])
qed

lemma timeout_handled: "I rt \<Longrightarrow> outcome I any_error (on_timeout E (update E) msg rt)"
  unfolding on_timeout_def on_rsp_handler_timeout_def set_timeout_def reset_sequential_id_def
  by (auto simp: logged states_set update_calm bindR_assoc with_cell_def split: option.split obj.split)

lemma message_handled:
  assumes "I rt" and "library_call E (Deliver m msg sender)"
  shows "outcome (\<lambda>(b, rt'). I rt') any_error (handle_msg E repo run_task m msg sender rt)"
proof -
  have handled: "outcome (\<lambda>(b, rt'). I rt') any_error (bindR r (\<lambda>rt. Inr (True, rt)))" if "outcome I any_error r" for r
    using that by (rule outcome_bind) simp
  show ?thesis
    using assms unfolding handle_msg_def by (intro outcome_if handled response_handled timeout_handled) simp_all
qed

lemma task_dispatched: "I rt \<Longrightarrow> outcome (\<lambda>(b, rt'). I rt') any_error (dispatch_async_to_main_queue E n rt)"
  unfolding dispatch_async_to_main_queue_def schedule_task_def send_msg_to_self_def delete_task_def
  by (auto simp: Let_def split: option.split intro!: outcome_bind [OF logged])

lemma timeout_made: "I rt \<Longrightarrow> outcome (\<lambda>(a, rt'). I rt') any_error (timeout_of a rt)"
  unfolding timeout_of_def
  by (auto split: option.split prod.split dest: made intro!: looked_timeout outcome_bind [OF updated_info])

lemma bound: "I rt \<Longrightarrow> outcome I any_error (bindR (set_binded_context a k rt) (release_list_remove k a))"
  by (auto simp: set_binded_context_def release_list_remove_def with_cell_def split: option.split obj.split)

lemma call_survived:
  assumes "I rt" and "library_call E c"
  shows "outcome I any_error (perform E repo run_task c rt)"
proof (cases c)
  case (NewContext r)
  then show ?thesis using assms(1) by (simp add: new_ctx_def)
next
  case (MakeValueCell ty v)
  obtain a rt' where a: "alloc (CellObj (new_cell ty PlainCell)) rt = (a, rt')" by fastforce
  show ?thesis using made [OF assms(1) a] by (simp add: MakeValueCell cell_with_value_def a)
qed (use assms in \<open>auto simp: bound derive_final_action_def intro!: outcome_drop_result asking failed_cell cells_made
      action_derived action_made update_calm timeout_made task_dispatched message_handled\<close>)

end

section \<open>Ids\<close>

primrec gets_after :: "nat \<Rightarrow> rpc_sequence_id \<Rightarrow> rpc_sequence_id" where
  "gets_after 0 s = s"
| "gets_after (Suc n) s = gets_after n (snd (get s))"

lemma gets_after_add: "gets_after (m + n) s = gets_after n (gets_after m s)"
  by (induction m arbitrary: s) simp_all

lemma get_many_add: "get_many (m + n) s = get_many m s @ get_many n (gets_after m s)"
  by (induction m arbitrary: s) (auto split: prod.split)

lemma snd_get: "snd (get s) = fst (get s)"
  by (simp add: get_def Let_def)

lemma get_one: "get_many (Suc 0) s = [fst (get s)]" "gets_after (Suc 0) s = fst (get s)"
  by (simp_all add: case_prod_beta snd_get)

lemma get_last: "get_many (Suc n) s = get_many n s @ [fst (get (gets_after n s))]"
  using get_many_add [of n 1 s] by (simp add: get_one del: get_many.simps)

lemma get_middle:
  "get_many (n + 1 + j) s = get_many n s @ fst (get (gets_after n s)) # get_many j (fst (get (gets_after n s)))"
  using get_many_add [of "n + 1" j s] gets_after_add [of n 1 s] by (simp add: get_last get_one(2) del: get_many.simps gets_after.simps)

definition request_id :: "bytes \<Rightarrow> rpc_sequence_id" where
  "request_id mem = sequence_id (the (cast_req_header mem))"

text \<open>
  From one state to a later one \<open>n\<close> ids were taken; every request that was sent carries one of them,
  in order, and an entry of the table is an old one or under one of them.
\<close>

definition took :: "('v, 'r) env \<Rightarrow> nat \<Rightarrow> ('v, 'r) rt \<Rightarrow> ('v, 'r) rt \<Rightarrow> bool" where
  "took E n rt rt' \<longleftrightarrow>
     seq_counter rt' = gets_after n (seq_counter rt)
     \<and> (\<exists>evs. trace rt' = trace rt @ evs \<and> subseq (map request_id (sent_requests E evs)) (get_many n (seq_counter rt)))
     \<and> (\<forall>s a. id_func_map rt' s = Some a \<longrightarrow> id_func_map rt s = Some a \<or> s \<in> set (get_many n (seq_counter rt)))"

text \<open>Every id is taken for a new object.\<close>

definition ids_for_objects :: "('v, 'r) env \<Rightarrow> ('v, 'r) rt \<Rightarrow> ('v, 'r) rt \<Rightarrow> bool" where
  "ids_for_objects E rt rt' \<longleftrightarrow> (\<exists>n. n + next_addr rt \<le> next_addr rt' \<and> took E n rt rt')"

lemma took_trans:
  assumes "took E m rt rt1" and "took E n rt1 rt2"
  shows "took E (m + n) rt rt2"
proof -
  from assms obtain e f where e: "trace rt1 = trace rt @ e" "subseq (map request_id (sent_requests E e)) (get_many m (seq_counter rt))"
    and f: "trace rt2 = trace rt1 @ f" "subseq (map request_id (sent_requests E f)) (get_many n (seq_counter rt1))"
    by (auto simp: took_def)
  have "subseq (map request_id (sent_requests E (e @ f))) (get_many (m + n) (seq_counter rt))"
    using list_emb_append_mono [OF e(2) f(2)] assms(1) by (simp add: get_many_add took_def)
  then show ?thesis using assms e f by (auto simp: took_def gets_after_add get_many_add)
qed

lemma took_silent: "silent E rt rt' \<Longrightarrow> took E 0 rt rt'"
  by (auto simp: took_def silent_def map_le_def dom_def)

lemma ids_for_objects_trans: "ids_for_objects E rt rt1 \<Longrightarrow> ids_for_objects E rt1 rt2 \<Longrightarrow> ids_for_objects E rt rt2"
  unfolding ids_for_objects_def by (elim exE conjE, rule_tac x = "n + na" in exI) (auto intro: took_trans)

lemma ids_for_objects_silent: "silent E rt rt' \<Longrightarrow> ids_for_objects E rt rt'"
  using took_silent [of E rt rt'] by (auto simp: ids_for_objects_def silent_def intro: exI [of _ 0])

lemma ids_for_objects_refl [simp]: "ids_for_objects E rt rt"
  by (rule ids_for_objects_silent) (simp add: silent_def)

lemma request_id_bytes [simp]: "request_id (msg_header_bytes (new_req_header i m s) @ bs) = s"
  by (simp add: request_id_def new_req_header_def)

lemma request_buf_takes_one:
  "outcome (\<lambda>(b, rt'). \<exists>n\<le>1. took E n rt rt' \<and> next_addr rt' = next_addr rt) any_error
     (send_rpc_request_buf E k svc i m pbuf sink rt)"
proof -
  obtain s where g: "get (seq_counter rt) = (s, s)" by (metis get_pair)
  have zero: "\<exists>n\<le>1. took E n rt rt \<and> next_addr rt = next_addr rt"
    by (rule exI [of _ 0]) (auto intro: took_silent simp: silent_def)
  have one: "took E 1 rt (rt\<lparr>seq_counter := s, id_func_map := (id_func_map rt)(s \<mapsto> sink), heap := h, register_state := g,
      trace := trace rt @ es\<rparr>)" if "map request_id (sent_requests E es) = [s] \<or> sent_requests E es = []" for h g es
    using that by (auto simp: took_def g subseq_Cons' split: if_splits)
  have reg: "outcome (\<lambda>rt'. \<exists>h. rt' = rt\<lparr>seq_counter := s, id_func_map := (id_func_map rt)(s \<mapsto> sink), heap := h\<rparr>) any_error
      (register_rsp_Handler s sink (rt\<lparr>seq_counter := s\<rparr>))"
    by (auto simp: register_rsp_Handler_def set_sequential_id_def with_cell_def put_cell_def split: option.split obj.split)
  show ?thesis
    unfolding send_rpc_request_buf_def g
    using zero one [of "[]"] one
    by (auto simp: send_msg_def emit_def Let_def split: option.split prod.split intro!: outcome_bind [OF reg] exI [of _ 1])
qed

lemma asking_takes_ids: "outcome (\<lambda>(a, rt'). ids_for_objects E rt rt') any_error (encode_request_and_send E k svc i mi ty v rt)"
proof -
  have failed: "outcome (\<lambda>(a, rt'). ids_for_objects E rt rt') any_error (failed_cell_with_reason k ty r rt1)"
    if "ids_for_objects E rt rt1" for r rt1
    using that
    by (auto simp: failed_cell_with_reason_def new_instance_def alloc_def track_def
        intro!: ids_for_objects_trans [OF that ids_for_objects_silent [OF silent_state]] split: option.split)
  have encoded: "outcome (\<lambda>(buf, rt1). silent E rt rt1) any_error (do_encode E v rt)"
    by (auto simp: do_encode_def msgrpc_log_def Let_def intro: silent_state split: option.split)
  have asked: "outcome (\<lambda>(b, rt'). ids_for_objects E rt rt') any_error (send_rpc_request_buf E k svc i mi pbuf (next_addr rt1)
      (rt1\<lparr>heap := (heap rt1)(next_addr rt1 \<mapsto> ob), next_addr := Suc (next_addr rt1)\<rparr>))" if rt1: "silent E rt rt1" for pbuf rt1 ob
  proof (rule outcome_mono [OF request_buf_takes_one])
    fix y assume "case y of (b, rt') \<Rightarrow> \<exists>n\<le>1. took E n (rt1\<lparr>heap := (heap rt1)(next_addr rt1 \<mapsto> ob), next_addr := Suc (next_addr rt1)\<rparr>) rt'
        \<and> next_addr rt' = next_addr (rt1\<lparr>heap := (heap rt1)(next_addr rt1 \<mapsto> ob), next_addr := Suc (next_addr rt1)\<rparr>)"
    then obtain b rt' n where y: "y = (b, rt')" and n: "n \<le> 1" "took E n (rt1\<lparr>heap := (heap rt1)(next_addr rt1 \<mapsto> ob), next_addr := Suc (next_addr rt1)\<rparr>) rt'"
      "next_addr rt' = Suc (next_addr rt1)" by auto
    have "silent E rt1 (rt1\<lparr>heap := (heap rt1)(next_addr rt1 \<mapsto> ob), next_addr := Suc (next_addr rt1)\<rparr>)" by (rule silent_state) simp_all
    with n have "took E n rt1 rt'" using took_trans [OF took_silent, of E] by fastforce
    with took_trans [OF took_silent [OF rt1]] have "took E n rt rt'" by fastforce
    then show "case y of (b, rt') \<Rightarrow> ids_for_objects E rt rt'"
      using n rt1 unfolding y ids_for_objects_def silent_def by (auto intro!: exI [of _ n])
  qed simp
  have deleted: "outcome (ids_for_objects E rt) any_error (delete_obj E a rt1)" if "ids_for_objects E rt rt1" for a rt1
    using delete_obj_only_deleted [of rt1 E a]
    by (rule outcome_mono) (auto intro: ids_for_objects_trans [OF that] ids_for_objects_silent silent_deleted)
  have tracked: "outcome (ids_for_objects E rt) any_error (track k a rt1)" if "ids_for_objects E rt rt1" for a rt1
    by (auto simp: track_def intro!: ids_for_objects_trans [OF that ids_for_objects_silent [OF silent_state]] split: option.split)
  have logged: "outcome (ids_for_objects E rt) any_error (msgrpc_log E rt1)" if "ids_for_objects E rt rt1" for rt1
    using that by (simp add: msgrpc_log_def split: option.split)
  show ?thesis
    unfolding encode_request_and_send_def alloc_def
    by (auto intro!: outcome_bind [OF encoded] outcome_bind [OF asked] outcome_bind [OF deleted] outcome_bind [OF tracked]
        outcome_bind [OF logged] failed ids_for_objects_silent split: option.split)
qed

text \<open>The contract of what survives every call, for a given earlier state.\<close>

definition responses_apart :: "('v, 'r) env \<Rightarrow> bool" where
  "responses_apart E \<longleftrightarrow> response_msg_id (env_config E) \<noteq> request_msg_id (env_config E)"

lemma ids_emit: "ids_for_objects E rt0 rt \<Longrightarrow> request_of E e = [] \<Longrightarrow> ids_for_objects E rt0 (emit e rt)"
  by (erule ids_for_objects_trans) (rule ids_for_objects_silent [OF silent_emit])

interpretation ids: survives_calls E "\<lambda>rt. responses_apart E \<longrightarrow> ids_for_objects E rt0 rt" for E rt0
proof
  fix rt k svc i mi ty v
  assume "responses_apart E \<longrightarrow> ids_for_objects E rt0 rt"
  then show "outcome (\<lambda>(a, rt'). responses_apart E \<longrightarrow> ids_for_objects E rt0 rt') any_error (encode_request_and_send E k svc i mi ty v rt)"
    by (intro outcome_mono [OF asking_takes_ids]) (auto intro: ids_for_objects_trans)
qed (auto simp: responses_apart_def intro: ids_for_objects_trans ids_for_objects_silent ids_emit)

lemma call_takes_ids:
  "responses_apart E \<Longrightarrow> library_call E c \<Longrightarrow> perform E repo run_task c rt = Inr rt' \<Longrightarrow> ids_for_objects E rt rt'"
  using ids.call_survived [of E rt rt c repo run_task] by simp

section \<open>The server\<close>

text \<open>Its methods have their results at once; \<open>result\<close> is what they compute.\<close>

definition computes :: "('v, 'r) repository \<Rightarrow> (('v, 'r) rpc_method \<Rightarrow> 'v \<Rightarrow> 'v) \<Rightarrow> bool" where
  "computes repo result \<longleftrightarrow> (\<forall>i ms m v. repo i = Some ms \<longrightarrow> m \<in> set ms \<longrightarrow> (\<exists>ty. answers m v ty (result m v)))"

text \<open>What a request with header \<open>h\<close> and payload \<open>bs\<close> is to be answered with.\<close>

definition reply_to ::
  "('v, 'r) env \<Rightarrow> ('v, 'r) repository \<Rightarrow> (('v, 'r) rpc_method \<Rightarrow> 'v \<Rightarrow> 'v) \<Rightarrow> req_msg_header \<Rightarrow> bytes \<Rightarrow> rpc_result \<times> bytes" where
  "reply_to E repo result h bs =
     (case repo (iface_index_in_service h) of
        None \<Rightarrow> (IfaceNotFound, [])
      | Some ms \<Rightarrow>
          (case find (\<lambda>m. method_index m = method_index_in_interface h) ms of
             None \<Rightarrow> (MethodNotFound, [])
           | Some m \<Rightarrow>
               (case thrift_read E (req_type m) bs of
                  None \<Rightarrow> (Failed, [])
                | Some (v, n) \<Rightarrow>
                    if n = 0 then (Failed, [])
                    else case thrift_write E (result m v) of
                      None \<Rightarrow> (Failed, [])
                    | Some out \<Rightarrow> (if out = [] then Failed else Succeeded, out))))"

definition replies ::
  "('v, 'r) env \<Rightarrow> ('v, 'r) repository \<Rightarrow> (('v, 'r) rpc_method \<Rightarrow> 'v \<Rightarrow> 'v) \<Rightarrow> bytes \<Rightarrow> service_id \<Rightarrow> 'v event \<Rightarrow> bool" where
  "replies E repo result msg sender e \<longleftrightarrow>
     (\<exists>h r out ok. cast_req_header msg = Some h \<and> reply_to E repo result h (drop sizeof_req_header msg) = (r, out)
       \<and> e = Sent sender (response_msg_id (env_config E)) (reply_bytes E h r out) ok)"

definition adds :: "('v event \<Rightarrow> bool) \<Rightarrow> ('v, 'r) rt \<Rightarrow> ('v, 'r) rt \<Rightarrow> bool" where
  "adds Q rt rt' \<longleftrightarrow> (\<exists>evs. trace rt' = trace rt @ evs \<and> (\<forall>e\<in>set evs. Q e))"

lemma adds_same: "trace rt' = trace rt \<Longrightarrow> adds Q rt rt'"
  by (simp add: adds_def)

lemma adds_trans: "adds Q rt rt1 \<Longrightarrow> adds Q rt1 rt2 \<Longrightarrow> adds Q rt rt2"
  by (auto simp: adds_def)

lemma adds_emit: "adds Q rt rt1 \<Longrightarrow> Q e \<Longrightarrow> adds Q rt (emit e rt1)"
  by (auto simp: adds_def emit_def)

lemma message_adds:
  "adds Q rt rt1 \<Longrightarrow> (\<And>ok. Q (Sent sid m mem ok)) \<Longrightarrow> outcome (\<lambda>(b, rt'). adds Q rt rt') any_error (send_msg E sid m mem rt1)"
  by (simp add: send_msg_def Let_def adds_emit split: option.split)

lemma header_adds:
  "adds Q rt rt1 \<Longrightarrow> (\<And>ok. Q (Sent sid (response_msg_id (env_config E)) (rsp_header_bytes (stack_pad E) h @ (case out of None \<Rightarrow> [] | Some bs \<Rightarrow> bs)) ok))
   \<Longrightarrow> outcome (adds Q rt) any_error (send_msg_with_header E sid h out rt1)"
  by (auto simp: send_msg_with_header_def Let_def send_msg_def intro!: adds_emit split: option.split)

lemma value_adds:
  assumes "adds Q rt rt1" and "cell_value c = Some (Rsp w)"
    and "\<And>out ok. thrift_write E w = Some out \<Longrightarrow> out \<noteq> [] \<Longrightarrow> Q (Sent sid (response_msg_id (env_config E)) (rsp_header_bytes (stack_pad E) h @ out) ok)"
  shows "outcome (\<lambda>(ret, rt'). adds Q rt rt' \<and> ret \<in> {Failed, Succeeded}
      \<and> (ret = Failed \<longrightarrow> trace rt' = trace rt1 \<and> thrift_write E w \<in> {None, Some []})) any_error (send_rsp_cell_value E sid h c rt1)"
proof (cases "thrift_write E w")
  case (Some out)
  let ?rt = "if thrift_default_size E < length out then rt1\<lparr>should_reset_to_default_size := True\<rparr> else rt1"
  have rt: "adds Q rt ?rt" using assms(1) by (simp add: adds_def)
  show ?thesis
  proof (cases "out = []")
    case True
    then show ?thesis using assms(1,2) Some by (simp add: send_rsp_cell_value_def do_encode_def)
  next
    case False
    have "outcome (adds Q rt) any_error (send_msg_with_header E sid h (Some out) ?rt)"
      using assms(3) [OF Some False] by (intro header_adds rt) simp
    with False show ?thesis
      by (auto simp: send_rsp_cell_value_def do_encode_def Some assms(2) Let_def outcome_bind_eq elim: outcome_mono split del: if_split)
  qed
qed (use assms(1,2) in \<open>auto simp: send_rsp_cell_value_def do_encode_def msgrpc_log_def split: option.split\<close>)

lemma server_replies:
  assumes comp: "computes repo result"
  shows "outcome (adds (replies E repo result msg sender) rt) any_error
    (on_rpc_req_msg E repo (request_msg_id (env_config E)) msg sender rt)"
proof (cases "cast_req_header msg")
  case None
  then show ?thesis by (simp add: on_rpc_req_msg_def msgrpc_log_def adds_same split: option.split)
next
  case h: (Some h)
  let ?bs = "drop sizeof_req_header msg" and ?Q = "replies E repo result msg sender" and ?rsp = "response_msg_id (env_config E)"
  let ?h = "\<lambda>r. (rsp_header_of h)\<lparr>rpc_result_of := r\<rparr>"
  have Q: "?Q (Sent sender ?rsp (rsp_header_bytes (stack_pad E) (?h r) @ out) ok)" if "reply_to E repo result h ?bs = (r, out)" for r out ok
    using that h by (simp add: replies_def reply_bytes_def)
  have refused: "outcome (adds ?Q rt) any_error (send_msg_with_header E sender (?h r) None rt1)"
    if "reply_to E repo result h ?bs = (r, [])" "adds ?Q rt rt1" for r rt1
    using Q [OF that(1)] by (intro header_adds that(2)) simp
  show ?thesis
  proof (cases "repo (iface_index_in_service h)")
    case None
    have "\<And>ok. ?Q (Sent sender ?rsp (rsp_header_bytes (stack_pad E) (?h IfaceNotFound)) ok)"
      using Q [of IfaceNotFound "[]"] None by (simp add: reply_to_def)
    from message_adds [where E = E and Q = ?Q and rt = rt and ?rt1.0 = rt, OF adds_same [OF refl] this]
    show ?thesis by (auto simp: on_rpc_req_msg_def h get_iface_impl_by_def None Let_def outcome_bind_eq elim: outcome_mono)
  next
    case ms: (Some ms)
    show ?thesis
    proof (cases "find (\<lambda>m. method_index m = method_index_in_interface h) ms")
      case None
      then show ?thesis using refused [of MethodNotFound rt] ms
        by (simp add: on_rpc_req_msg_def h get_iface_impl_by_def ms Let_def onRpcInvoke_def reply_to_def adds_same)
    next
      case m: (Some m)
      have "outcome (\<lambda>(ret, rt'). adds ?Q rt rt' \<and> ret \<in> {Failed, Succeeded}
          \<and> (ret = Failed \<longrightarrow> reply_to E repo result h ?bs = (Failed, []))) any_error
          (invoke_templated_method E m ?bs sender (rsp_header_of h) rt)" (is "outcome ?R _ _")
      proof (cases "\<exists>v n. thrift_read E (req_type m) ?bs = Some (v, n) \<and> 0 < n")
        case False
        then show ?thesis
          by (auto simp: invoke_templated_method_def do_decode_def msgrpc_log_def reply_to_def ms m adds_same split: option.split)
      next
        case True
        then obtain v n where dec: "thrift_read E (req_type m) ?bs = Some (v, n)" "0 < n" by blast
        have "m \<in> set ms" using m by (metis find_Some_iff nth_mem)
        with comp ms obtain ty where ans: "answers m v ty (result m v)" unfolding computes_def by blast
        obtain rt1 where cell: "cell_with_value ty (result m v) rt = (next_addr rt, rt1)" and rt1: "trace rt1 = trace rt"
          "heap rt1 = (heap rt)(next_addr rt \<mapsto> CellObj ((new_cell ty PlainCell)\<lparr>cstate := empty_state\<lparr>cell_value := Some (Rsp (result m v))\<rparr>\<rparr>))"
          using cell_with_value_effect [of ty "result m v" rt] by blast
        let ?c = "(new_cell ty PlainCell)\<lparr>cstate := empty_state\<lparr>cell_value := Some (Rsp (result m v))\<rparr>\<rparr>"
        have "outcome (\<lambda>(ret, rt'). adds ?Q rt rt' \<and> ret \<in> {Failed, Succeeded}
            \<and> (ret = Failed \<longrightarrow> trace rt' = trace rt1 \<and> thrift_write E (result m v) \<in> {None, Some []})) any_error
            (send_rsp_cell_value E sender (rsp_header_of h) (cstate ?c) rt1)"
          using Q [of Succeeded] dec ms m rt1(1)
          by (intro value_adds adds_same) (auto simp: reply_to_def rsp_header_of_def)
        then have "outcome ?R any_error (bindR (send_rsp_cell_value E sender (rsp_header_of h) (cstate ?c) rt1)
            (\<lambda>(ret, rt2). bindR (delete_obj E (next_addr rt) rt2) (\<lambda>rt2. Inr (ret, rt2))))"
        proof (rule outcome_bind)
          fix x assume x: "case x of (ret, rt') \<Rightarrow> adds ?Q rt rt' \<and> ret \<in> {Failed, Succeeded}
            \<and> (ret = Failed \<longrightarrow> trace rt' = trace rt1 \<and> thrift_write E (result m v) \<in> {None, Some []})"
          obtain ret rt2 where [simp]: "x = (ret, rt2)" by fastforce
          have "outcome (\<lambda>rt'. trace rt' = trace rt2) any_error (delete_obj E (next_addr rt) rt2)"
            using delete_obj_only_deleted by (rule outcome_mono) (simp_all add: only_deleted_def)
          moreover have "?R (ret, rt3)" if "trace rt3 = trace rt2" for rt3
            using x that dec ms m by (auto simp: reply_to_def adds_def)
          ultimately show "outcome ?R any_error (case x of (ret, rt2) \<Rightarrow> bindR (delete_obj E (next_addr rt) rt2) (\<lambda>rt2. Inr (ret, rt2)))"
            by (auto simp: outcome_bind_eq elim!: outcome_mono)
        qed
        then show ?thesis
          using ans [unfolded answers_def, rule_format, of rt] rt1(2)
          by (simp add: invoke_templated_method_def do_decode_def dec cell with_cell_def has_value_def)
      qed
      then show ?thesis
        by (auto simp: on_rpc_req_msg_def h get_iface_impl_by_def ms Let_def onRpcInvoke_def m outcome_bind_eq
            elim!: outcome_mono intro!: refused)
    qed
  qed
qed

section \<open>The network\<close>

text \<open>
  Every message that was sent may come any number of times, in any order, or never.  Timeouts, and
  whatever else the client's program does between two messages, are calls.
\<close>

inductive net_step ::
  "('v, 'r) env \<Rightarrow> ('w, 'q) env \<Rightarrow> ('w, 'q) repository \<Rightarrow> service_id
   \<Rightarrow> ('v, 'r) rt \<times> ('w, 'q) rt \<Rightarrow> ('v, 'r) rt \<times> ('w, 'q) rt \<Rightarrow> bool" for Ec Es repo client_id where
  client_calls: "library_call Ec c \<Longrightarrow> (\<And>msg sender. c \<noteq> Deliver (response_msg_id (env_config Ec)) msg sender)
    \<Longrightarrow> perform Ec Map.empty (\<lambda>n. Inr) c rt = Inr rt' \<Longrightarrow> net_step Ec Es repo client_id (rt, S) (rt', S)"
| request_comes: "Sent sid (request_msg_id (env_config Ec)) mem ok \<in> set (trace rt)
    \<Longrightarrow> on_rpc_req_msg Es repo (request_msg_id (env_config Es)) mem client_id S = Inr S'
    \<Longrightarrow> net_step Ec Es repo client_id (rt, S) (rt, S')"
| response_comes: "Sent client_id (response_msg_id (env_config Es)) mem ok \<in> set (trace S)
    \<Longrightarrow> handle_rpc_rsp Ec (update Ec) mem rt = Inr rt' \<Longrightarrow> net_step Ec Es repo client_id (rt, S) (rt', S)"

definition only_replies ::
  "('v, 'r) env \<Rightarrow> ('w, 'q) env \<Rightarrow> ('w, 'q) repository \<Rightarrow> (('w, 'q) rpc_method \<Rightarrow> 'w \<Rightarrow> 'w) \<Rightarrow> service_id
   \<Rightarrow> ('v, 'r) rt \<Rightarrow> ('w, 'q) rt \<Rightarrow> bool" where
  "only_replies Ec Es repo result client_id rt S \<longleftrightarrow>
     (\<forall>e\<in>set (trace S). \<exists>mem\<in>set (sent_requests Ec (trace rt)). replies Es repo result mem client_id e)"

lemma ids_for_objects_trace: "ids_for_objects E rt rt' \<Longrightarrow> set (sent_requests E (trace rt)) \<subseteq> set (sent_requests E (trace rt'))"
  by (auto simp: ids_for_objects_def took_def)

lemma sent_request: "Sent sid (request_msg_id (env_config E)) mem ok \<in> set evs \<Longrightarrow> mem \<in> set (sent_requests E evs)"
  by (force simp: sent_requests_def)

lemma net_step_keeps:
  assumes "net_step Ec Es repo client_id (rt, S) (rt', S')" and "responses_apart Ec" and "computes repo result"
  shows "ids_for_objects Ec rt rt'
    \<and> (only_replies Ec Es repo result client_id rt S \<longrightarrow> only_replies Ec Es repo result client_id rt' S')"
proof -
  have more: "only_replies Ec Es repo result client_id rt' S"
    if "ids_for_objects Ec rt rt'" "only_replies Ec Es repo result client_id rt S" for rt rt' :: "('a, 'b) rt" and S
    using that ids_for_objects_trace [OF that(1)] by (fastforce simp: only_replies_def)
  from assms(1) show ?thesis
  proof cases
    case (client_calls c)
    with call_takes_ids [OF assms(2)] have "ids_for_objects Ec rt rt'" by blast
    with more client_calls show ?thesis by blast
  next
    case (request_comes sid mem ok)
    from outcome_InrD [OF server_replies [OF assms(3)] request_comes(3)] obtain evs
      where evs: "trace S' = trace S @ evs" "\<forall>e\<in>set evs. replies Es repo result mem client_id e" unfolding adds_def by blast
    from sent_request [OF request_comes(2)] evs request_comes(1) show ?thesis by (auto simp: only_replies_def)
  next
    case (response_comes mem ok)
    have "ids_for_objects Ec rt rt'"
      using ids.response_handled [of Ec rt rt mem] assms(2) response_comes(3) by simp
    with more response_comes show ?thesis by blast
  qed
qed

lemma net_steps_keep:
  assumes "(net_step Ec Es repo client_id)\<^sup>*\<^sup>* (rt, S) (rt', S')" and "responses_apart Ec" and "computes repo result"
  shows "ids_for_objects Ec rt rt'
    \<and> (only_replies Ec Es repo result client_id rt S \<longrightarrow> only_replies Ec Es repo result client_id rt' S')"
  using assms(1)
proof (induction rule: rtranclp_induct2)
  case (step rt1 S1 rt2 S2)
  with net_step_keeps [OF step(2) assms(2,3)] show ?case by (blast intro: ids_for_objects_trans)
qed simp

lemma request_unique:
  assumes "took E n (initial_rt r) rt" and "n \<le> seq_period" and "mem \<in> set (sent_requests E (trace rt))" and "mem' \<in> set (sent_requests E (trace rt))"
    and "request_id mem = request_id mem'"
  shows "mem = mem'"
proof -
  from assms(1) have "subseq (map request_id (sent_requests E (trace rt))) (get_many n (seq_counter (initial_rt r)))"
    by (auto simp: took_def initial_rt_def)
  then have "distinct (map request_id (sent_requests E (trace rt)))"
    using get_many_apart [OF assms(2)] unfolding subseq_conv_nths by (metis distinct_nthsI)
  with assms(3-5) show ?thesis by (auto simp: distinct_map dest: inj_onD)
qed

lemma fresh_id:
  assumes "took E n (initial_rt r) rt" and "n < seq_period"
  shows "id_func_map rt (fst (get (seq_counter rt))) = None"
proof (rule ccontr)
  let ?s = "fst (get (seq_counter rt))" and ?c = "k_invalid_rpc_sequence_id"
  assume "id_func_map rt ?s \<noteq> None"
  then have "?s \<in> set (get_many n ?c)" using assms(1) by (auto simp: took_def initial_rt_def)
  moreover have "get_many (Suc n) ?c = get_many n ?c @ [?s]"
    using assms(1) by (simp add: get_last took_def initial_rt_def del: get_many.simps)
  ultimately show False using get_many_apart [of "Suc n" ?c] assms(2) by simp
qed

lemma reply_of_request:
  assumes "replies Es repo result mem client_id (Sent to mid m ok)" and "cast_rsp_header m = Some h"
  shows "sequence_id h = request_id mem"
proof -
  from assms(1) obtain h' r out where h': "cast_req_header mem = Some h'" "m = reply_bytes Es h' r out"
    and r: "reply_to Es repo result h' (drop sizeof_req_header mem) = (r, out)" by (auto simp: replies_def)
  from r have "listed_result r" by (auto simp: reply_to_def split: option.splits if_splits)
  with h' assms(2) show ?thesis by (auto simp: reply_bytes_header request_id_def rsp_header_of_def)
qed

text \<open>What a call that goes out leaves.\<close>

lemma call_takes_one:
  assumes "took E n (initial_rt reg) rt0" and "n < seq_period"
    and "sends_to E q svc v bs sid" "ctxs rt0 k = Some x" "ctx_resolver x = Some q"
    and "encode_request_and_send E k svc i mi ty v rt0 = Inr (a, rt1)"
  defines "s \<equiv> fst (get (seq_counter rt0))"
  shows "a = next_addr rt0 \<and> next_addr rt1 = Suc a \<and> seq_counter rt1 = s \<and> id_func_map rt1 s = Some a
    \<and> request_bytes i mi s bs \<in> set (sent_requests E (trace rt1)) \<and> took E 1 rt0 rt1"
proof -
  from encode_request_and_send_ok [OF assms(3-5) fresh_id [OF assms(1,2)], of i mi ty] assms(6)
  have rt1: "a = next_addr rt0" "next_addr rt1 = Suc a" "seq_counter rt1 = s" "id_func_map rt1 = (id_func_map rt0)(s \<mapsto> a)"
    "trace rt1 = trace rt0 @ [Sent sid (request_msg_id (env_config E)) (request_bytes i mi s bs) True]"
    by (auto simp: s_def)
  moreover have "took E 1 rt0 rt1"
    using rt1(3,4,5) unfolding took_def One_nat_def get_one s_def [symmetric] by (auto simp: request_bytes_def)
  ultimately show ?thesis by simp
qed

text \<open>Until the counter wraps, an id is not taken again, so its entry of the table is not replaced.\<close>

lemma entry_stays:
  assumes "took E n (initial_rt reg) rt0" and "took E j rt1 rt2" and "n + 1 + j \<le> seq_period"
    and "seq_counter rt1 = fst (get (seq_counter rt0))" and "id_func_map rt1 (seq_counter rt1) = Some a"
  shows "id_func_map rt2 (seq_counter rt1) = None \<or> id_func_map rt2 (seq_counter rt1) = Some a"
proof -
  have "get_many (n + 1 + j) k_invalid_rpc_sequence_id
      = get_many n k_invalid_rpc_sequence_id @ seq_counter rt1 # get_many j (seq_counter rt1)"
    using assms(1,4) unfolding get_middle by (simp add: took_def initial_rt_def)
  then have "seq_counter rt1 \<notin> set (get_many j (seq_counter rt1))"
    using get_many_apart [OF assms(3), of k_invalid_rpc_sequence_id] by simp
  moreover have "id_func_map rt1 s = Some b \<or> s \<in> set (get_many j (seq_counter rt1))" if "id_func_map rt2 s = Some b" for s b
    using assms(2) that by (simp add: took_def)
  ultimately show ?thesis using assms(5) by (cases "id_func_map rt2 (seq_counter rt1)") fastforce+
qed

text \<open>
  C4: a client calls a method; whatever the network then loses, repeats, delays or reorders, and
  whatever else the client calls, a response that carries the id of the call is the server's answer
  to exactly that request, and it can only reach the cell the call returned, as long as the client
  has made fewer objects than there are ids.
\<close>

theorem response_belongs_to_call:
  fixes rt0 rt1 rt2 :: "('v, 'r) rt"
  assumes apart: "responses_apart Ec" and server: "computes repo result" "trace S0 = []"
    and before: "(net_step Ec Es repo client_id)\<^sup>*\<^sup>* (initial_rt reg, S0) (rt0, S1)"
    and call: "sends_to Ec q svc v bs sid" "ctxs rt0 k = Some x" "ctx_resolver x = Some q"
      "encode_request_and_send Ec k svc i mi ty v rt0 = Inr (a, rt1)"
    and after: "(net_step Ec Es repo client_id)\<^sup>*\<^sup>* (rt1, S1) (rt2, S2)" and few: "next_addr rt2 < seq_period"
    and response: "Sent client_id (response_msg_id (env_config Es)) m ok \<in> set (trace S2)" "cast_rsp_header m = Some h"
      "sequence_id h = fst (get (seq_counter rt0))"
  shows "m = (case reply_to Es repo result (new_req_header i mi (sequence_id h)) bs of (r, out) \<Rightarrow>
        reply_bytes Es (new_req_header i mi (sequence_id h)) r out)
    \<and> (id_func_map rt2 (sequence_id h) = None \<or> id_func_map rt2 (sequence_id h) = Some a)"
proof -
  define s where "s = fst (get (seq_counter rt0))"
  have none: "only_replies Ec Es repo result client_id (initial_rt reg) S0" by (simp add: only_replies_def server(2))
  from net_steps_keep [OF before apart server(1)] none
  have ids0: "ids_for_objects Ec (initial_rt reg) rt0" and only1: "only_replies Ec Es repo result client_id rt0 S1" by blast+
  from net_steps_keep [OF after apart server(1)] have ids2: "ids_for_objects Ec rt1 rt2"
    and only2: "only_replies Ec Es repo result client_id rt1 S1 \<Longrightarrow> only_replies Ec Es repo result client_id rt2 S2" by blast+
  from ids0 obtain n where n: "took Ec n (initial_rt reg) rt0" "n \<le> next_addr rt0"
    by (auto simp: ids_for_objects_def initial_rt_def)
  from ids2 obtain j where j: "took Ec j rt1 rt2" "j + next_addr rt1 \<le> next_addr rt2" by (auto simp: ids_for_objects_def)
  have call': "ids_for_objects Ec rt0 rt1" using asking_takes_ids [of Ec rt0 k svc i mi ty v] call(4) by simp
  then have "n < seq_period" using n(2) j(2) few by (auto simp: ids_for_objects_def)
  from call_takes_one [OF n(1) this call, folded s_def]
  have rt1: "a = next_addr rt0" "next_addr rt1 = Suc a" "seq_counter rt1 = s" "id_func_map rt1 s = Some a"
    "request_bytes i mi s bs \<in> set (sent_requests Ec (trace rt1))" and one: "took Ec 1 rt0 rt1" by simp_all
  have all: "took Ec (n + 1 + j) (initial_rt reg) rt2" using took_trans [OF took_trans [OF n(1) one] j(1)] .
  have few': "n + 1 + j \<le> seq_period" using n(2) j(2) few rt1(1,2) by simp
  have "only_replies Ec Es repo result client_id rt1 S1"
    using only1 ids_for_objects_trace [OF call'] by (fastforce simp: only_replies_def)
  from only2 [OF this] response(1) obtain mem
    where mem: "mem \<in> set (sent_requests Ec (trace rt2))" "replies Es repo result mem client_id (Sent client_id (response_msg_id (env_config Es)) m ok)"
    unfolding only_replies_def by blast
  have "request_bytes i mi s bs \<in> set (sent_requests Ec (trace rt2))" using ids_for_objects_trace [OF ids2] rt1(5) by blast
  moreover have "request_id mem = s" using reply_of_request [OF mem(2) response(2)] response(3) s_def by simp
  ultimately have "mem = request_bytes i mi s bs"
    using request_unique [OF all few' mem(1)] by (simp add: request_bytes_def)
  then have "m = (case reply_to Es repo result (new_req_header i mi s) bs of (r, out) \<Rightarrow> reply_bytes Es (new_req_header i mi s) r out)"
    using mem(2) by (auto simp: replies_def)
  then show ?thesis
    using entry_stays [OF n(1) j(1) few'] rt1(3,4) response(3) s_def by simp
qed

text \<open>The call of the sample client, answered once.\<close>

lemma sample_computes: "computes sample_repo (\<lambda>m v. v @ [1])"
  using append_answers by (auto simp: computes_def sample_repo_def split: if_splits)

theorem response_belongs_to_call_witness:
  "\<exists>rt0 rt1 S2 a m ok. encode_request_and_send sample_env 0 ''service_y'' 2 1 ''rsp'' [5] rt0 = Inr (a, rt1)
    \<and> Sent (Endpoint 1 6666) 102 m ok \<in> set (trace (S2 :: (bytes, unit) rt)) \<and> id_func_map rt1 1 \<in> {None, Some a}
    \<and> m = reply_bytes sample_env (new_req_header 2 1 1) Succeeded [5, 1]"
proof -
  let ?E = "sample_env" and ?q = "request_bytes 2 1 1 [5]" and ?S = "initial_rt () :: (bytes, unit) rt"
  define rt0 :: "(bytes, unit) rt" where "rt0 = snd (new_ctx (Some 0) (initial_rt ()))"
  have rt0: "seq_counter rt0 = 0" "id_func_map rt0 = Map.empty" "ctxs rt0 0 = Some \<lparr>release_list = [], ctx_resolver = Some 0\<rparr>"
    "next_addr rt0 = 0" "trace rt0 = []"
    by (simp_all add: rt0_def new_ctx_def initial_rt_def k_invalid_rpc_sequence_id_def)
  have g: "fst (get 0) = 1" by (simp add: get_def k_invalid_rpc_sequence_id_def)
  have sends: "sends_to ?E 0 ''service_y'' [5] [5] (Endpoint 1 7777)" by (rule sample_sends) simp
  obtain rt1 where call: "encode_request_and_send ?E 0 ''service_y'' 2 1 ''rsp'' [5] rt0 = Inr (0, rt1)"
    and rt1: "next_addr rt1 = 1" "trace rt1 = [Sent (Endpoint 1 7777) 101 ?q True]"
    using encode_request_and_send_ok [OF sends rt0(3), of 2 1 "''rsp''"] rt0 g by auto
  obtain f ok where serve: "on_rpc_req_msg ?E sample_repo 101 ?q (Endpoint 1 6666) ?S
      = Inr (emit (Sent (Endpoint 1 6666) 102 (reply_bytes ?E (new_req_header 2 1 1) Succeeded [5, 1]) ok)
          (?S\<lparr>next_addr := Suc (next_addr ?S), should_reset_to_default_size := f\<rparr>))" (is "_ = Inr ?S2")
    using served [of ?S ?E ?q "new_req_header 2 1 1" sample_repo "[append_method]" append_method "[5]" 1 "''rsp''" "[5, 1]" "[5, 1]" "Endpoint 1 6666"]
      append_answers [of "[5]"] by (auto simp: sample_repo_def header_ids)
  have before: "(net_step ?E ?E sample_repo (Endpoint 1 6666))\<^sup>*\<^sup>* (initial_rt (), ?S) (rt0, ?S)"
    by (rule r_into_rtranclp, rule client_calls [of _ "NewContext (Some 0)"]) (simp_all add: rt0_def)
  have after: "(net_step ?E ?E sample_repo (Endpoint 1 6666))\<^sup>*\<^sup>* (rt1, ?S) (rt1, ?S2)"
    by (rule r_into_rtranclp, rule request_comes [of "Endpoint 1 7777" _ ?q True]) (simp_all add: rt1 serve)
  let ?m = "reply_bytes ?E (new_req_header 2 1 1) Succeeded [5, 1]" and ?h = "(rsp_header_of (new_req_header 2 1 1))\<lparr>rpc_result_of := Succeeded\<rparr>"
  have sent: "Sent (Endpoint 1 6666) (response_msg_id (env_config ?E)) ?m ok \<in> set (trace ?S2)" by (simp add: emit_def)
  have "id_func_map rt1 (sequence_id ?h) = None \<or> id_func_map rt1 (sequence_id ?h) = Some 0"
    using response_belongs_to_call [OF _ sample_computes _ before sends rt0(3) _ call after _ sent] g
    by (simp add: responses_apart_def initial_rt_def rt1(1) seq_period_def rt0(1) reply_bytes_header rsp_header_of_def header_ids)
  then have "id_func_map rt1 1 \<in> {None, Some 0}" by (simp add: rsp_header_of_def header_ids)
  moreover have "Sent (Endpoint 1 6666) 102 ?m ok \<in> set (trace ?S2)" using sent by simp
  ultimately show ?thesis
    by - (rule exI [of _ rt0], rule exI [of _ rt1], rule exI [of _ ?S2], rule exI [of _ 0], rule exI [of _ ?m], rule exI [of _ ok],
        intro conjI call refl)
qed

end
