(* ===== verification/ReaderSim.thy ===== *)
theory ReaderSim
  imports Readers
begin

text \<open>
  When two readers do the same: equations of the reader monad, and a simulation that follows the
  structure of two readers whose results correspond.
\<close>

section \<open>Equal readers\<close>

lemma bindT_assoc: "bindT (bindT r f) g = bindT r (\<lambda>x. bindT (f x) g)"
  by (auto simp: bindT_def fun_eq_iff add.assoc split: option.splits)

lemma bindT_return [simp]: "bindT (returnT x) k = k x" "bindT r returnT = r"
  by (auto simp: bindT_def returnT_def fun_eq_iff split: option.splits)

lemma bindT_throw [simp]: "bindT throwT k = throwT"
  by (simp add: bindT_def throwT_def)

lemma mapT_bind: "mapT f (bindT r k) = bindT r (\<lambda>x. mapT f (k x))"
  by (simp add: mapT_def bindT_assoc)

lemma bindT_map: "bindT (mapT f r) k = bindT r (\<lambda>x. k (f x))"
  by (simp add: mapT_def bindT_assoc)

lemma mapT_simps [simp]: "mapT f (returnT x) = returnT (f x)" "mapT f throwT = throwT" "mapT (\<lambda>x. x) r = r"
  by (simp_all add: mapT_def)

lemma mapT_map [simp]: "mapT f (mapT g r) = mapT (\<lambda>x. f (g x)) r"
  by (simp add: mapT_def bindT_assoc)

lemma read_times_map: "read_times n (mapT f r) = mapT (map f) (read_times n r)"
  by (induction n) (simp_all add: bindT_map mapT_bind)

section \<open>Readers that run alike\<close>

text \<open>\<open>sim R r r'\<close>: both fail, or take the same bytes and give related results.\<close>

named_theorems sim_rules "rules for two readers that run alike"

definition sim :: "('a \<Rightarrow> 'b \<Rightarrow> bool) \<Rightarrow> 'a reader \<Rightarrow> 'b reader \<Rightarrow> bool" where
  "sim R r r' \<longleftrightarrow>
     (\<forall>bs. (r bs = None \<and> r' bs = None)
        \<or> (\<exists>x y n bs'. r bs = Some (x, n, bs') \<and> r' bs = Some (y, n, bs') \<and> R x y))"

lemma sim_return [sim_rules]: "R x y \<Longrightarrow> sim R (returnT x) (returnT y)"
  by (simp add: sim_def returnT_def)

lemma sim_throw [sim_rules]: "sim R throwT throwT"
  by (simp add: sim_def throwT_def)

lemma sim_bind [sim_rules]:
  assumes "sim R r r'" and "\<And>x y. R x y \<Longrightarrow> sim S (k x) (k' y)"
  shows "sim S (bindT r k) (bindT r' k')"
  unfolding sim_def
proof
  fix bs
  show "(bindT r k bs = None \<and> bindT r' k' bs = None)
      \<or> (\<exists>x y n bs'. bindT r k bs = Some (x, n, bs') \<and> bindT r' k' bs = Some (y, n, bs') \<and> S x y)"
  proof (cases "r bs")
    case None
    with assms(1) [unfolded sim_def, rule_format, of bs] show ?thesis by (auto simp: bindT_def)
  next
    case (Some z)
    with assms(1) [unfolded sim_def, rule_format, of bs] obtain x y n bs' where
      z: "z = (x, n, bs')" "r' bs = Some (y, n, bs')" "R x y" by auto
    with Some assms(2) [OF z(3), unfolded sim_def, rule_format, of bs'] show ?thesis by (auto simp: bindT_def)
  qed
qed

lemma sim_same: "sim (=) r r"
  unfolding sim_def
proof
  fix bs
  show "(r bs = None \<and> r bs = None) \<or> (\<exists>x y n bs'. r bs = Some (x, n, bs') \<and> r bs = Some (y, n, bs') \<and> x = y)"
    by (cases "r bs") auto
qed

lemma sim_mono: "sim R r r' \<Longrightarrow> (\<And>x y. R x y \<Longrightarrow> S x y) \<Longrightarrow> sim S r r'"
  by (fastforce simp: sim_def)

lemma sim_same_bind: "(\<And>x. sim S (k x) (k' x)) \<Longrightarrow> sim S (bindT r k) (bindT r k')"
  by (rule sim_bind [OF sim_same]) simp

lemma sim_maps: "(\<And>x. R (f x) (g x)) \<Longrightarrow> sim R (mapT f r) (mapT g r)"
  unfolding mapT_def by (rule sim_same_bind) (rule sim_return)

lemma sim_iff_map: "sim (\<lambda>x y. y = f x) r r' \<longleftrightarrow> r' = mapT f r"
proof
  assume s: "sim (\<lambda>x y. y = f x) r r'"
  have "r' bs = mapT f r bs" for bs
    using s [unfolded sim_def, rule_format, of bs] by (auto simp: mapT_def bindT_def returnT_def)
  then show "r' = mapT f r" ..
next
  assume "r' = mapT f r"
  then show "sim (\<lambda>x y. y = f x) r r'"
    using sim_maps [of "\<lambda>x y. y = f x" "\<lambda>x. x" f r] by simp
qed

end
