(* ===== verification/ApiTypes.thy ===== *)
theory ApiTypes
  imports DemoApi ReaderSim
begin

text \<open>
  The small classes of \<^verbatim>\<open>demo/gen1/api_types.cpp\<close>, which the thrift compiler wrote out member by
  member, as they are written; and what their members have to do with the functions of a list of
  fields: \<open>f_val\<close> takes an object to the value \<open>read_val\<close> and \<open>write_val\<close> work on.
\<close>

section \<open>The loop of read\<close>

primrec gen_read_loop ::
  "thrift_lib \<Rightarrow> (16 word \<Rightarrow> ttype \<Rightarrow> 's \<Rightarrow> 's reader) \<Rightarrow> nat \<Rightarrow> 's \<Rightarrow> 's reader" where
  "gen_read_loop L switch 0 s = throwT"
| "gen_read_loop L switch (Suc n) s =
     bindT (readFieldBegin L) (\<lambda>(ftype, fid).
     if ftype = T_STOP then returnT s
     else bindT (switch fid ftype s) (\<lambda>s'.
          bindT (readFieldEnd L) (\<lambda>_. gen_read_loop L switch n s')))"

lemma sim_loop:
  assumes "\<And>s ss fid ft. R s ss \<Longrightarrow> sim R (switch fid ft s) (read_case L frs ss fid ft)"
  shows "R s ss \<Longrightarrow> sim R (gen_read_loop L switch n s) (read_fields L frs n ss)"
proof (induction n arbitrary: s ss)
  case (Suc n)
  show ?case
  proof (simp, rule sim_same_bind, clarsimp split del: if_split)
    fix ft fid
    show "sim R (if ft = T_STOP then returnT s else bindT (switch fid ft s) (\<lambda>s'. bindT (readFieldEnd L) (\<lambda>_. gen_read_loop L switch n s')))
      (if ft = T_STOP then returnT ss else bindT (read_case L frs ss fid ft) (\<lambda>ss'. bindT (readFieldEnd L) (\<lambda>_. read_fields L frs n ss')))"
      using Suc by (auto intro!: sim_return sim_bind [OF assms] sim_same_bind)
  qed
qed (simp add: sim_throw)

lemma sim_loop_bytes:
  assumes "\<And>s ss fid ft. R s ss \<Longrightarrow> sim R (switch fid ft s) (read_case L frs ss fid ft)" and "R s ss"
  shows "sim R (\<lambda>bs. gen_read_loop L switch (Suc (length bs)) s bs) (\<lambda>bs. read_fields L frs (Suc (length bs)) ss bs)"
  unfolding sim_def
proof
  fix bs
  from sim_loop [of R switch L frs, OF assms, of "Suc (length bs)", unfolded sim_def, rule_format, of bs]
  show "(gen_read_loop L switch (Suc (length bs)) s bs = None \<and> read_fields L frs (Suc (length bs)) ss bs = None)
      \<or> (\<exists>x y n bs'. gen_read_loop L switch (Suc (length bs)) s bs = Some (x, n, bs')
          \<and> read_fields L frs (Suc (length bs)) ss bs = Some (y, n, bs') \<and> R x y)" .
qed

section \<open>SingleOptionalFieldStruct\<close>

record gen_SingleOptionalFieldStruct =
  sof_value :: "16 word"
  sof_value64 :: "64 word"
  sof_isset_value :: bool

definition new_SingleOptionalFieldStruct :: gen_SingleOptionalFieldStruct where
  "new_SingleOptionalFieldStruct = \<lparr>sof_value = 0, sof_value64 = 0, sof_isset_value = False\<rparr>"

definition set_sof_value :: "16 word \<Rightarrow> gen_SingleOptionalFieldStruct \<Rightarrow> gen_SingleOptionalFieldStruct" where
  "set_sof_value val s = s\<lparr>sof_value := val, sof_isset_value := True\<rparr>"

definition set_sof_value64 :: "64 word \<Rightarrow> gen_SingleOptionalFieldStruct \<Rightarrow> gen_SingleOptionalFieldStruct" where
  "set_sof_value64 val s = s\<lparr>sof_value64 := val\<rparr>"

definition SingleOptionalFieldStruct_switch ::
  "thrift_lib \<Rightarrow> 16 word \<Rightarrow> ttype \<Rightarrow> gen_SingleOptionalFieldStruct \<times> bool \<Rightarrow> (gen_SingleOptionalFieldStruct \<times> bool) reader" where
  "SingleOptionalFieldStruct_switch L fid ftype = (\<lambda>(s, isset_value64).
     if fid = 1 then
       if ftype = T_I16 then mapT (\<lambda>v. (s\<lparr>sof_value := v, sof_isset_value := True\<rparr>, isset_value64)) (readI16 L)
       else mapT (\<lambda>_. (s, isset_value64)) (skip L ftype)
     else if fid = 2 then
       if ftype = T_I64 then mapT (\<lambda>v. (s\<lparr>sof_value64 := v\<rparr>, True)) (readI64 L)
       else mapT (\<lambda>_. (s, isset_value64)) (skip L ftype)
     else mapT (\<lambda>_. (s, isset_value64)) (skip L ftype))"

definition SingleOptionalFieldStruct_read ::
  "thrift_lib \<Rightarrow> gen_SingleOptionalFieldStruct \<Rightarrow> gen_SingleOptionalFieldStruct reader" where
  "SingleOptionalFieldStruct_read L s =
     bindT (readStructBegin L) (\<lambda>_.
     bindT (\<lambda>bs. gen_read_loop L (SingleOptionalFieldStruct_switch L) (Suc (length bs)) (s, False) bs) (\<lambda>(s', isset_value64).
     bindT (readStructEnd L) (\<lambda>_.
     if \<not> isset_value64 then throwT else returnT s')))"

definition SingleOptionalFieldStruct_write :: "thrift_lib \<Rightarrow> gen_SingleOptionalFieldStruct \<Rightarrow> bytes" where
  "SingleOptionalFieldStruct_write L s =
     writeStructBegin L ''SingleOptionalFieldStruct''
     @ (if sof_isset_value s then writeFieldBegin L ''value'' T_I16 1 @ writeI16 L (sof_value s) @ writeFieldEnd L else [])
     @ writeFieldBegin L ''value64'' T_I64 2 @ writeI64 L (sof_value64 s) @ writeFieldEnd L
     @ writeFieldStop L @ writeStructEnd L"

definition SingleOptionalFieldStruct_swap ::
  "gen_SingleOptionalFieldStruct \<Rightarrow> gen_SingleOptionalFieldStruct \<Rightarrow> gen_SingleOptionalFieldStruct \<times> gen_SingleOptionalFieldStruct" where
  "SingleOptionalFieldStruct_swap a b =
     (a\<lparr>sof_value := sof_value b, sof_value64 := sof_value64 b, sof_isset_value := sof_isset_value b\<rparr>,
      b\<lparr>sof_value := sof_value a, sof_value64 := sof_value64 a, sof_isset_value := sof_isset_value a\<rparr>)"

definition SingleOptionalFieldStruct_assign ::
  "gen_SingleOptionalFieldStruct \<Rightarrow> gen_SingleOptionalFieldStruct \<Rightarrow> gen_SingleOptionalFieldStruct" where
  "SingleOptionalFieldStruct_assign this other =
     this\<lparr>sof_value := sof_value other, sof_value64 := sof_value64 other, sof_isset_value := sof_isset_value other\<rparr>"

definition SingleOptionalFieldStruct_printTo :: "(ftype \<Rightarrow> tval \<Rightarrow> string) \<Rightarrow> gen_SingleOptionalFieldStruct \<Rightarrow> string" where
  "SingleOptionalFieldStruct_printTo to_str s =
     ''SingleOptionalFieldStruct('' @ ''value='' @ (if sof_isset_value s then to_str I16 (VI16 (sof_value s)) else ''<null>'')
     @ '', '' @ ''value64='' @ to_str I64 (VI64 (sof_value64 s)) @ '')''"

definition SingleOptionalFieldStruct_eq :: "gen_SingleOptionalFieldStruct \<Rightarrow> gen_SingleOptionalFieldStruct \<Rightarrow> bool" where
  "SingleOptionalFieldStruct_eq s rhs =
     (if sof_isset_value s \<noteq> sof_isset_value rhs then False
      else if sof_isset_value s \<and> \<not> sof_value s = sof_value rhs then False
      else if \<not> sof_value64 s = sof_value64 rhs then False
      else True)"

definition sof_val :: "gen_SingleOptionalFieldStruct \<Rightarrow> tval" where
  "sof_val s = VStruct [(sof_isset_value s, VI16 (sof_value s)), (True, VI64 (sof_value64 s))]"

section \<open>EmbeddedStruct\<close>

record gen_EmbeddedStruct =
  es_i8 :: "8 word"
  es_i16 :: "16 word"
  isset_es_i16 :: bool

definition new_EmbeddedStruct :: gen_EmbeddedStruct where
  "new_EmbeddedStruct = \<lparr>es_i8 = 0, es_i16 = 0, isset_es_i16 = False\<rparr>"

definition set_es_i8 :: "8 word \<Rightarrow> gen_EmbeddedStruct \<Rightarrow> gen_EmbeddedStruct" where
  "set_es_i8 val s = s\<lparr>es_i8 := val\<rparr>"

definition set_es_i16 :: "16 word \<Rightarrow> gen_EmbeddedStruct \<Rightarrow> gen_EmbeddedStruct" where
  "set_es_i16 val s = s\<lparr>es_i16 := val, isset_es_i16 := True\<rparr>"

definition EmbeddedStruct_switch ::
  "thrift_lib \<Rightarrow> 16 word \<Rightarrow> ttype \<Rightarrow> gen_EmbeddedStruct \<times> bool \<Rightarrow> (gen_EmbeddedStruct \<times> bool) reader" where
  "EmbeddedStruct_switch L fid ftype = (\<lambda>(s, isset_es_i8).
     if fid = 1 then
       if ftype = T_BYTE then mapT (\<lambda>v. (s\<lparr>es_i8 := v\<rparr>, True)) (readByte L)
       else mapT (\<lambda>_. (s, isset_es_i8)) (skip L ftype)
     else if fid = 2 then
       if ftype = T_I16 then mapT (\<lambda>v. (s\<lparr>es_i16 := v, isset_es_i16 := True\<rparr>, isset_es_i8)) (readI16 L)
       else mapT (\<lambda>_. (s, isset_es_i8)) (skip L ftype)
     else mapT (\<lambda>_. (s, isset_es_i8)) (skip L ftype))"

definition EmbeddedStruct_read :: "thrift_lib \<Rightarrow> gen_EmbeddedStruct \<Rightarrow> gen_EmbeddedStruct reader" where
  "EmbeddedStruct_read L s =
     bindT (readStructBegin L) (\<lambda>_.
     bindT (\<lambda>bs. gen_read_loop L (EmbeddedStruct_switch L) (Suc (length bs)) (s, False) bs) (\<lambda>(s', isset_es_i8).
     bindT (readStructEnd L) (\<lambda>_.
     if \<not> isset_es_i8 then throwT else returnT s')))"

definition EmbeddedStruct_write :: "thrift_lib \<Rightarrow> gen_EmbeddedStruct \<Rightarrow> bytes" where
  "EmbeddedStruct_write L s =
     writeStructBegin L ''EmbeddedStruct''
     @ writeFieldBegin L ''es_i8'' T_BYTE 1 @ writeByte L (es_i8 s) @ writeFieldEnd L
     @ (if isset_es_i16 s then writeFieldBegin L ''es_i16'' T_I16 2 @ writeI16 L (es_i16 s) @ writeFieldEnd L else [])
     @ writeFieldStop L @ writeStructEnd L"

definition EmbeddedStruct_swap :: "gen_EmbeddedStruct \<Rightarrow> gen_EmbeddedStruct \<Rightarrow> gen_EmbeddedStruct \<times> gen_EmbeddedStruct" where
  "EmbeddedStruct_swap a b =
     (a\<lparr>es_i8 := es_i8 b, es_i16 := es_i16 b, isset_es_i16 := isset_es_i16 b\<rparr>,
      b\<lparr>es_i8 := es_i8 a, es_i16 := es_i16 a, isset_es_i16 := isset_es_i16 a\<rparr>)"

definition EmbeddedStruct_assign :: "gen_EmbeddedStruct \<Rightarrow> gen_EmbeddedStruct \<Rightarrow> gen_EmbeddedStruct" where
  "EmbeddedStruct_assign this other =
     this\<lparr>es_i8 := es_i8 other, es_i16 := es_i16 other, isset_es_i16 := isset_es_i16 other\<rparr>"

definition EmbeddedStruct_printTo :: "(ftype \<Rightarrow> tval \<Rightarrow> string) \<Rightarrow> gen_EmbeddedStruct \<Rightarrow> string" where
  "EmbeddedStruct_printTo to_str s =
     ''EmbeddedStruct('' @ ''es_i8='' @ to_str I8 (VI8 (es_i8 s))
     @ '', '' @ ''es_i16='' @ (if isset_es_i16 s then to_str I16 (VI16 (es_i16 s)) else ''<null>'') @ '')''"

definition EmbeddedStruct_eq :: "gen_EmbeddedStruct \<Rightarrow> gen_EmbeddedStruct \<Rightarrow> bool" where
  "EmbeddedStruct_eq s rhs =
     (if \<not> es_i8 s = es_i8 rhs then False
      else if isset_es_i16 s \<noteq> isset_es_i16 rhs then False
      else if isset_es_i16 s \<and> \<not> es_i16 s = es_i16 rhs then False
      else True)"

text \<open>\<^verbatim>\<open>operator<\<close> of this class, too, is defined by hand.\<close>

definition gen_EmbeddedStruct_less :: "gen_EmbeddedStruct \<Rightarrow> gen_EmbeddedStruct \<Rightarrow> bool" where
  "gen_EmbeddedStruct_less s rhs =
     (if sint (es_i8 s) < sint (es_i8 rhs) then True
      else if sint (es_i8 s) > sint (es_i8 rhs) then False
      else sint (es_i16 s) < sint (es_i16 rhs))"

definition es_val :: "gen_EmbeddedStruct \<Rightarrow> tval" where
  "es_val s = VStruct [(True, VI8 (es_i8 s)), (isset_es_i16 s, VI16 (es_i16 s))]"

section \<open>Both do what the macros' members do\<close>

lemma read_case_Cons:
  "read_case L ((i, r, tt, rd) # frs) ((seen, v) # ss) fid ft =
     (if fid = i then if ft = tt then mapT (\<lambda>v'. (True, v') # ss) (rd v) else mapT (\<lambda>_. (seen, v) # ss) (skip L ft)
      else mapT (\<lambda>ss'. (seen, v) # ss') (read_case L frs ss fid ft))"
  by simp

definition es_rel :: "bool \<Rightarrow> gen_EmbeddedStruct \<times> bool \<Rightarrow> (bool \<times> tval) list \<Rightarrow> bool" where
  "es_rel old = (\<lambda>(s, seen) ss. map snd ss = [VI8 (es_i8 s), VI16 (es_i16 s)] \<and> fst (ss ! 0) = seen
     \<and> isset_es_i16 s = (old \<or> fst (ss ! 1)))"

lemma es_slots: "es_rel old s ss \<Longrightarrow> \<exists>a b. ss = [(a, VI8 (es_i8 (fst s))), (b, VI16 (es_i16 (fst s)))]"
  by (auto simp: es_rel_def map_eq_Cons_conv)

lemma es_switch:
  "es_rel old s ss \<Longrightarrow> sim (es_rel old) (EmbeddedStruct_switch L fid ft s) (read_case L (map (read_field L) EmbeddedStruct) ss fid ft)"
  by (cases s, frule es_slots) (auto simp: es_rel_def EmbeddedStruct_switch_def EmbeddedStruct_def intro!: sim_maps)

lemma es_end:
  "es_rel (isset_es_i16 s0) s ss \<Longrightarrow>
   sim (\<lambda>x y. y = es_val x)
     (case s of (s', isset_es_i8) \<Rightarrow> bindT (readStructEnd L) (\<lambda>_. if \<not> isset_es_i8 then throwT else returnT s'))
     (bindT (readStructEnd L) (\<lambda>_. if missing_required (map (read_field L) EmbeddedStruct) ss then throwT
        else returnT (VStruct (finish_slots (slots (es_val s0)) ss))))"
  by (auto simp: es_rel_def es_val_def EmbeddedStruct_def missing_required_def finish_slots_def map_eq_Cons_conv
      intro!: sim_same_bind sim_return sim_throw)

lemma es_read: "read_val L EMBEDDED (es_val s) = mapT es_val (EmbeddedStruct_read L s)"
proof -
  have "es_rel (isset_es_i16 s) (s, False) (map (\<lambda>(isset, v). (False, v)) (slots (es_val s)))"
    by (simp add: es_rel_def es_val_def)
  note loop = sim_loop_bytes [where R = "es_rel (isset_es_i16 s)", OF es_switch this]
  have "sim (\<lambda>x y. y = es_val x) (EmbeddedStruct_read L s) (read_struct L (map (read_field L) EmbeddedStruct) (es_val s))"
    unfolding EmbeddedStruct_read_def read_struct_def
    by (rule sim_same_bind, rule sim_bind [OF loop es_end])
  then show ?thesis by (simp add: sim_iff_map)
qed

lemma es_write: "write_val L EMBEDDED (es_val s) = EmbeddedStruct_write L s"
  by (simp add: EmbeddedStruct_def es_val_def EmbeddedStruct_write_def)

lemma es_eq: "val_eq L EMBEDDED (es_val a) (es_val b) = EmbeddedStruct_eq a b"
  by (auto simp: EmbeddedStruct_def es_val_def EmbeddedStruct_eq_def)

lemma es_less: "EmbeddedStruct_less (es_val a) (es_val b) = gen_EmbeddedStruct_less a b"
  by (simp add: EmbeddedStruct_less_def es_val_def gen_EmbeddedStruct_less_def Let_def)

lemma es_new: "default_val EMBEDDED = es_val new_EmbeddedStruct"
  by (simp add: EmbeddedStruct_def es_val_def new_EmbeddedStruct_def)

definition sof_rel :: "bool \<Rightarrow> gen_SingleOptionalFieldStruct \<times> bool \<Rightarrow> (bool \<times> tval) list \<Rightarrow> bool" where
  "sof_rel old = (\<lambda>(s, seen) ss. map snd ss = [VI16 (sof_value s), VI64 (sof_value64 s)] \<and> fst (ss ! 1) = seen
     \<and> sof_isset_value s = (old \<or> fst (ss ! 0)))"

lemma sof_slots: "sof_rel old s ss \<Longrightarrow> \<exists>a b. ss = [(a, VI16 (sof_value (fst s))), (b, VI64 (sof_value64 (fst s)))]"
  by (auto simp: sof_rel_def map_eq_Cons_conv)

lemma sof_switch:
  "sof_rel old s ss \<Longrightarrow>
   sim (sof_rel old) (SingleOptionalFieldStruct_switch L fid ft s) (read_case L (map (read_field L) SingleOptionalFieldStruct) ss fid ft)"
  by (cases s, frule sof_slots)
    (auto simp: sof_rel_def SingleOptionalFieldStruct_switch_def SingleOptionalFieldStruct_def intro!: sim_maps)

lemma sof_end:
  "sof_rel (sof_isset_value s0) s ss \<Longrightarrow>
   sim (\<lambda>x y. y = sof_val x)
     (case s of (s', isset_value64) \<Rightarrow> bindT (readStructEnd L) (\<lambda>_. if \<not> isset_value64 then throwT else returnT s'))
     (bindT (readStructEnd L) (\<lambda>_. if missing_required (map (read_field L) SingleOptionalFieldStruct) ss then throwT
        else returnT (VStruct (finish_slots (slots (sof_val s0)) ss))))"
  by (auto simp: sof_rel_def sof_val_def SingleOptionalFieldStruct_def missing_required_def finish_slots_def map_eq_Cons_conv
      intro!: sim_same_bind sim_return sim_throw)

abbreviation SOF :: ftype where
  "SOF \<equiv> STRUCT ''SingleOptionalFieldStruct'' SingleOptionalFieldStruct"

lemma sof_read: "read_val L SOF (sof_val s) = mapT sof_val (SingleOptionalFieldStruct_read L s)"
proof -
  have "sof_rel (sof_isset_value s) (s, False) (map (\<lambda>(isset, v). (False, v)) (slots (sof_val s)))"
    by (simp add: sof_rel_def sof_val_def)
  note loop = sim_loop_bytes [where R = "sof_rel (sof_isset_value s)", OF sof_switch this]
  have "sim (\<lambda>x y. y = sof_val x) (SingleOptionalFieldStruct_read L s)
      (read_struct L (map (read_field L) SingleOptionalFieldStruct) (sof_val s))"
    unfolding SingleOptionalFieldStruct_read_def read_struct_def
    by (rule sim_same_bind, rule sim_bind [OF loop sof_end])
  then show ?thesis by (simp add: sim_iff_map)
qed

lemma sof_write: "write_val L SOF (sof_val s) = SingleOptionalFieldStruct_write L s"
  by (simp add: SingleOptionalFieldStruct_def sof_val_def SingleOptionalFieldStruct_write_def)

lemma sof_eq: "val_eq L SOF (sof_val a) (sof_val b) = SingleOptionalFieldStruct_eq a b"
  by (auto simp: SingleOptionalFieldStruct_def sof_val_def SingleOptionalFieldStruct_eq_def)

lemma small_setters:
  "set_field 0 (VI8 x) EmbeddedStruct (es_val e) = es_val (set_es_i8 x e)"
  "set_field 1 (VI16 y) EmbeddedStruct (es_val e) = es_val (set_es_i16 y e)"
  "set_field 0 (VI16 y) SingleOptionalFieldStruct (sof_val s) = sof_val (set_sof_value y s)"
  "set_field 1 (VI64 z) SingleOptionalFieldStruct (sof_val s) = sof_val (set_sof_value64 z s)"
  by (simp_all add: set_field_def EmbeddedStruct_def SingleOptionalFieldStruct_def es_val_def sof_val_def
      set_es_i8_def set_es_i16_def set_sof_value_def set_sof_value64_def)

text \<open>The macros' \<^verbatim>\<open>printTo\<close> has a comma before the first field, the compiler's has not.\<close>

lemma small_print:
  "print_to to_str ''EmbeddedStruct'' EmbeddedStruct (es_val e)
     = ''EmbeddedStruct(, '' @ drop 15 (EmbeddedStruct_printTo to_str e)"
  by (simp add: print_to_def print_field_def EmbeddedStruct_def es_val_def EmbeddedStruct_printTo_def)

end
