(* ===== verification/ResponseData.thy ===== *)
theory ResponseData
  imports ApiTypes
begin

text \<open>
  The class \<^verbatim>\<open>ResponseData\<close> of \<^verbatim>\<open>demo/gen1/api_types.cpp\<close>, member by member.  A \<^verbatim>\<open>std::set\<close> and a
  \<^verbatim>\<open>std::map\<close> are lists in their order; a \<^verbatim>\<open>double\<close> is kept as its bits.
\<close>

section \<open>The class\<close>

record ResponseData_isset =
  is_pet_id :: bool
  is_pet_name :: bool
  is_pet_weight :: bool
  is_pet_i8_value :: bool
  is_pet_i16_value :: bool
  is_pet_i64_value :: bool
  is_pet_double_value :: bool
  is_pet_bool_value :: bool
  is_pet_binary_value :: bool
  is_pet_embedded_struct :: bool
  is_pet_list_i32 :: bool
  is_pet_list_of_struct :: bool
  is_pet_list_of_bool :: bool
  is_pet_set_of_i32 :: bool
  is_pet_set_of_struct :: bool
  is_pet_map_i32_string :: bool
  is_pet_map_string_struct :: bool

record ResponseData =
  pet_id :: "32 word"
  pet_name :: bytes
  pet_weight :: "32 word"
  pet_i8_value :: "8 word"
  pet_i16_value :: "16 word"
  pet_i64_value :: "64 word"
  pet_double_value :: "64 word"
  pet_bool_value :: bool
  pet_binary_value :: bytes
  pet_embedded_struct :: gen_EmbeddedStruct
  pet_list_i32 :: "32 word list"
  pet_list_of_struct :: "gen_EmbeddedStruct list"
  pet_list_of_bool :: "bool list"
  pet_set_of_i32 :: "32 word list"
  pet_set_of_struct :: "gen_EmbeddedStruct list"
  pet_map_i32_string :: "(32 word \<times> bytes) list"
  pet_map_string_struct :: "(bytes \<times> gen_EmbeddedStruct) list"
  data_isset :: ResponseData_isset

definition new_ResponseData :: ResponseData where
  "new_ResponseData =
     \<lparr>pet_id = 0, pet_name = [], pet_weight = 0, pet_i8_value = 0, pet_i16_value = 0, pet_i64_value = 0,
      pet_double_value = 0, pet_bool_value = False, pet_binary_value = [], pet_embedded_struct = new_EmbeddedStruct,
      pet_list_i32 = [], pet_list_of_struct = [], pet_list_of_bool = [], pet_set_of_i32 = [], pet_set_of_struct = [],
      pet_map_i32_string = [], pet_map_string_struct = [],
      data_isset = \<lparr>is_pet_id = False, is_pet_name = False, is_pet_weight = False
        , is_pet_i8_value = False, is_pet_i16_value = False, is_pet_i64_value = False, is_pet_double_value = False
        , is_pet_bool_value = False, is_pet_binary_value = False, is_pet_embedded_struct = False, is_pet_list_i32 = False
        , is_pet_list_of_struct = False, is_pet_list_of_bool = False, is_pet_set_of_i32 = False
        , is_pet_set_of_struct = False, is_pet_map_i32_string = False, is_pet_map_string_struct = False\<rparr>\<rparr>"

text \<open>No setter touches \<^verbatim>\<open>__isset\<close>: no field is optional.\<close>

definition set_pet_id :: "32 word \<Rightarrow> ResponseData \<Rightarrow> ResponseData" where
  "set_pet_id val s = s\<lparr>pet_id := val\<rparr>"

definition set_pet_name :: "bytes \<Rightarrow> ResponseData \<Rightarrow> ResponseData" where
  "set_pet_name val s = s\<lparr>pet_name := val\<rparr>"

definition set_pet_weight :: "32 word \<Rightarrow> ResponseData \<Rightarrow> ResponseData" where
  "set_pet_weight val s = s\<lparr>pet_weight := val\<rparr>"

definition set_pet_i8_value :: "8 word \<Rightarrow> ResponseData \<Rightarrow> ResponseData" where
  "set_pet_i8_value val s = s\<lparr>pet_i8_value := val\<rparr>"

definition set_pet_i16_value :: "16 word \<Rightarrow> ResponseData \<Rightarrow> ResponseData" where
  "set_pet_i16_value val s = s\<lparr>pet_i16_value := val\<rparr>"

definition set_pet_i64_value :: "64 word \<Rightarrow> ResponseData \<Rightarrow> ResponseData" where
  "set_pet_i64_value val s = s\<lparr>pet_i64_value := val\<rparr>"

definition set_pet_double_value :: "64 word \<Rightarrow> ResponseData \<Rightarrow> ResponseData" where
  "set_pet_double_value val s = s\<lparr>pet_double_value := val\<rparr>"

definition set_pet_bool_value :: "bool \<Rightarrow> ResponseData \<Rightarrow> ResponseData" where
  "set_pet_bool_value val s = s\<lparr>pet_bool_value := val\<rparr>"

definition set_pet_binary_value :: "bytes \<Rightarrow> ResponseData \<Rightarrow> ResponseData" where
  "set_pet_binary_value val s = s\<lparr>pet_binary_value := val\<rparr>"

definition set_pet_embedded_struct :: "gen_EmbeddedStruct \<Rightarrow> ResponseData \<Rightarrow> ResponseData" where
  "set_pet_embedded_struct val s = s\<lparr>pet_embedded_struct := val\<rparr>"

definition set_pet_list_i32 :: "32 word list \<Rightarrow> ResponseData \<Rightarrow> ResponseData" where
  "set_pet_list_i32 val s = s\<lparr>pet_list_i32 := val\<rparr>"

definition set_pet_list_of_struct :: "gen_EmbeddedStruct list \<Rightarrow> ResponseData \<Rightarrow> ResponseData" where
  "set_pet_list_of_struct val s = s\<lparr>pet_list_of_struct := val\<rparr>"

definition set_pet_list_of_bool :: "bool list \<Rightarrow> ResponseData \<Rightarrow> ResponseData" where
  "set_pet_list_of_bool val s = s\<lparr>pet_list_of_bool := val\<rparr>"

definition set_pet_set_of_i32 :: "32 word list \<Rightarrow> ResponseData \<Rightarrow> ResponseData" where
  "set_pet_set_of_i32 val s = s\<lparr>pet_set_of_i32 := val\<rparr>"

definition set_pet_set_of_struct :: "gen_EmbeddedStruct list \<Rightarrow> ResponseData \<Rightarrow> ResponseData" where
  "set_pet_set_of_struct val s = s\<lparr>pet_set_of_struct := val\<rparr>"

definition set_pet_map_i32_string :: "(32 word \<times> bytes) list \<Rightarrow> ResponseData \<Rightarrow> ResponseData" where
  "set_pet_map_i32_string val s = s\<lparr>pet_map_i32_string := val\<rparr>"

definition set_pet_map_string_struct :: "(bytes \<times> gen_EmbeddedStruct) list \<Rightarrow> ResponseData \<Rightarrow> ResponseData" where
  "set_pet_map_string_struct val s = s\<lparr>pet_map_string_struct := val\<rparr>"

section \<open>read\<close>

definition gen_read_list :: "thrift_lib \<Rightarrow> 'a reader \<Rightarrow> 'a list reader" where
  "gen_read_list L read_elem =
     bindT (readListBegin L) (\<lambda>(etype, size).
     if \<not> resize_ok L (unat size) then throwT
     else bindT (read_times (unat size) read_elem) (\<lambda>xs.
          bindT (readListEnd L) (\<lambda>_. returnT xs)))"

definition gen_read_set :: "thrift_lib \<Rightarrow> ('a \<Rightarrow> 'a \<Rightarrow> bool) \<Rightarrow> 'a reader \<Rightarrow> 'a list reader" where
  "gen_read_set L lt read_elem =
     bindT (readSetBegin L) (\<lambda>(etype, size).
     bindT (read_times (unat size) read_elem) (\<lambda>xs.
     bindT (readSetEnd L) (\<lambda>_.
     returnT (foldl (\<lambda>s x. set_insert lt x s) [] xs))))"

definition gen_read_map ::
  "thrift_lib \<Rightarrow> ('a \<Rightarrow> 'a \<Rightarrow> bool) \<Rightarrow> 'a reader \<Rightarrow> ('b \<Rightarrow> 'b reader) \<Rightarrow> 'b \<Rightarrow> ('a \<times> 'b) list reader" where
  "gen_read_map L lt read_key read_value new_val =
     bindT (readMapBegin L) (\<lambda>(types, size).
     bindT (read_entries lt read_key read_value new_val (unat size) []) (\<lambda>m.
     bindT (readMapEnd L) (\<lambda>_. returnT m)))"

definition i32_less :: "32 word \<Rightarrow> 32 word \<Rightarrow> bool" where
  "i32_less a b = (sint a < sint b)"

definition read_pet_list_i32 :: "thrift_lib \<Rightarrow> 32 word list reader" where
  "read_pet_list_i32 L = gen_read_list L (readI32 L)"

definition read_pet_list_of_struct :: "thrift_lib \<Rightarrow> gen_EmbeddedStruct list reader" where
  "read_pet_list_of_struct L = gen_read_list L (EmbeddedStruct_read L new_EmbeddedStruct)"

definition read_pet_list_of_bool :: "thrift_lib \<Rightarrow> bool list reader" where
  "read_pet_list_of_bool L = gen_read_list L (readBool L)"

definition read_pet_set_of_i32 :: "thrift_lib \<Rightarrow> 32 word list reader" where
  "read_pet_set_of_i32 L = gen_read_set L i32_less (readI32 L)"

definition read_pet_set_of_struct :: "thrift_lib \<Rightarrow> gen_EmbeddedStruct list reader" where
  "read_pet_set_of_struct L = gen_read_set L gen_EmbeddedStruct_less (EmbeddedStruct_read L new_EmbeddedStruct)"

definition read_pet_map_i32_string :: "thrift_lib \<Rightarrow> (32 word \<times> bytes) list reader" where
  "read_pet_map_i32_string L = gen_read_map L i32_less (readI32 L) (\<lambda>val. readString L) []"

definition read_pet_map_string_struct :: "thrift_lib \<Rightarrow> (bytes \<times> gen_EmbeddedStruct) list reader" where
  "read_pet_map_string_struct L = gen_read_map L string_less (readString L) (EmbeddedStruct_read L) new_EmbeddedStruct"

text \<open>A \<^verbatim>\<open>switch\<close> over the field id: its cases with the type each expects, and the skipping default.\<close>

fun run_switch :: "thrift_lib \<Rightarrow> (16 word \<times> ttype \<times> 's reader) list \<Rightarrow> 's \<Rightarrow> 16 word \<Rightarrow> ttype \<Rightarrow> 's reader" where
  "run_switch L [] s fid ftype = mapT (\<lambda>_. s) (skip L ftype)"
| "run_switch L ((i, t, r) # cs) s fid ftype =
     (if fid = i then if ftype = t then r else mapT (\<lambda>_. s) (skip L ftype) else run_switch L cs s fid ftype)"

text \<open>A field that was read, and its \<^verbatim>\<open>__isset\<close> bit.\<close>

definition data_cases :: "thrift_lib \<Rightarrow> ResponseData \<Rightarrow> (16 word \<times> ttype \<times> ResponseData reader) list" where
  "data_cases L s =
     (let isset = data_isset s
      in [(1, T_I32, mapT (\<lambda>v. s\<lparr>pet_id := v, data_isset := isset\<lparr>is_pet_id := True\<rparr>\<rparr>) (readI32 L)),
          (2, T_STRING, mapT (\<lambda>v. s\<lparr>pet_name := v, data_isset := isset\<lparr>is_pet_name := True\<rparr>\<rparr>) (readString L)),
          (3, T_I32, mapT (\<lambda>v. s\<lparr>pet_weight := v, data_isset := isset\<lparr>is_pet_weight := True\<rparr>\<rparr>) (readI32 L)),
          (4, T_BYTE, mapT (\<lambda>v. s\<lparr>pet_i8_value := v, data_isset := isset\<lparr>is_pet_i8_value := True\<rparr>\<rparr>) (readByte L)),
          (5, T_I16, mapT (\<lambda>v. s\<lparr>pet_i16_value := v, data_isset := isset\<lparr>is_pet_i16_value := True\<rparr>\<rparr>) (readI16 L)),
          (6, T_I64, mapT (\<lambda>v. s\<lparr>pet_i64_value := v, data_isset := isset\<lparr>is_pet_i64_value := True\<rparr>\<rparr>) (readI64 L)),
          (7, T_DOUBLE, mapT (\<lambda>v. s\<lparr>pet_double_value := v, data_isset := isset\<lparr>is_pet_double_value := True\<rparr>\<rparr>) (readDouble L)),
          (8, T_BOOL, mapT (\<lambda>v. s\<lparr>pet_bool_value := v, data_isset := isset\<lparr>is_pet_bool_value := True\<rparr>\<rparr>) (readBool L)),
          (9, T_STRING, mapT (\<lambda>v. s\<lparr>pet_binary_value := v, data_isset := isset\<lparr>is_pet_binary_value := True\<rparr>\<rparr>) (readBinary L)),
          (10, T_STRUCT, mapT (\<lambda>v. s\<lparr>pet_embedded_struct := v, data_isset := isset\<lparr>is_pet_embedded_struct := True\<rparr>\<rparr>) (EmbeddedStruct_read L (pet_embedded_struct s))),
          (11, T_LIST, mapT (\<lambda>v. s\<lparr>pet_list_i32 := v, data_isset := isset\<lparr>is_pet_list_i32 := True\<rparr>\<rparr>) (read_pet_list_i32 L)),
          (12, T_LIST, mapT (\<lambda>v. s\<lparr>pet_list_of_struct := v, data_isset := isset\<lparr>is_pet_list_of_struct := True\<rparr>\<rparr>) (read_pet_list_of_struct L)),
          (13, T_LIST, mapT (\<lambda>v. s\<lparr>pet_list_of_bool := v, data_isset := isset\<lparr>is_pet_list_of_bool := True\<rparr>\<rparr>) (read_pet_list_of_bool L)),
          (14, T_SET, mapT (\<lambda>v. s\<lparr>pet_set_of_i32 := v, data_isset := isset\<lparr>is_pet_set_of_i32 := True\<rparr>\<rparr>) (read_pet_set_of_i32 L)),
          (15, T_SET, mapT (\<lambda>v. s\<lparr>pet_set_of_struct := v, data_isset := isset\<lparr>is_pet_set_of_struct := True\<rparr>\<rparr>) (read_pet_set_of_struct L)),
          (16, T_MAP, mapT (\<lambda>v. s\<lparr>pet_map_i32_string := v, data_isset := isset\<lparr>is_pet_map_i32_string := True\<rparr>\<rparr>) (read_pet_map_i32_string L)),
          (17, T_MAP, mapT (\<lambda>v. s\<lparr>pet_map_string_struct := v, data_isset := isset\<lparr>is_pet_map_string_struct := True\<rparr>\<rparr>) (read_pet_map_string_struct L))])"

definition ResponseData_switch :: "thrift_lib \<Rightarrow> 16 word \<Rightarrow> ttype \<Rightarrow> ResponseData \<Rightarrow> ResponseData reader" where
  "ResponseData_switch L fid ftype s = run_switch L (data_cases L s) s fid ftype"

definition ResponseData_read :: "thrift_lib \<Rightarrow> ResponseData \<Rightarrow> ResponseData reader" where
  "ResponseData_read L s =
     bindT (readStructBegin L) (\<lambda>_.
     bindT (\<lambda>bs. gen_read_loop L (ResponseData_switch L) (Suc (length bs)) s bs) (\<lambda>s'.
     bindT (readStructEnd L) (\<lambda>_. returnT s')))"

section \<open>write\<close>

definition write_pet_list_i32 :: "thrift_lib \<Rightarrow> 32 word list \<Rightarrow> bytes" where
  "write_pet_list_i32 L xs = writeListBegin L T_I32 (of_nat (length xs)) @ concat (map (writeI32 L) xs) @ writeListEnd L"

definition write_pet_list_of_struct :: "thrift_lib \<Rightarrow> gen_EmbeddedStruct list \<Rightarrow> bytes" where
  "write_pet_list_of_struct L xs =
     writeListBegin L T_STRUCT (of_nat (length xs)) @ concat (map (EmbeddedStruct_write L) xs) @ writeListEnd L"

definition write_pet_list_of_bool :: "thrift_lib \<Rightarrow> bool list \<Rightarrow> bytes" where
  "write_pet_list_of_bool L xs = writeListBegin L T_BOOL (of_nat (length xs)) @ concat (map (writeBool L) xs) @ writeListEnd L"

definition write_pet_set_of_i32 :: "thrift_lib \<Rightarrow> 32 word list \<Rightarrow> bytes" where
  "write_pet_set_of_i32 L xs = writeSetBegin L T_I32 (of_nat (length xs)) @ concat (map (writeI32 L) xs) @ writeSetEnd L"

definition write_pet_set_of_struct :: "thrift_lib \<Rightarrow> gen_EmbeddedStruct list \<Rightarrow> bytes" where
  "write_pet_set_of_struct L xs =
     writeSetBegin L T_STRUCT (of_nat (length xs)) @ concat (map (EmbeddedStruct_write L) xs) @ writeSetEnd L"

definition write_pet_map_i32_string :: "thrift_lib \<Rightarrow> (32 word \<times> bytes) list \<Rightarrow> bytes" where
  "write_pet_map_i32_string L m =
     writeMapBegin L T_I32 T_STRING (of_nat (length m))
     @ concat (map (\<lambda>(key, val). writeI32 L key @ writeString L val) m) @ writeMapEnd L"

definition write_pet_map_string_struct :: "thrift_lib \<Rightarrow> (bytes \<times> gen_EmbeddedStruct) list \<Rightarrow> bytes" where
  "write_pet_map_string_struct L m =
     writeMapBegin L T_STRING T_STRUCT (of_nat (length m))
     @ concat (map (\<lambda>(key, val). writeString L key @ EmbeddedStruct_write L val) m) @ writeMapEnd L"

definition ResponseData_write :: "thrift_lib \<Rightarrow> ResponseData \<Rightarrow> bytes" where
  "ResponseData_write L s =
     writeStructBegin L ''ResponseData''
     @ writeFieldBegin L ''pet_id'' T_I32 1 @ writeI32 L (pet_id s) @ writeFieldEnd L
     @ writeFieldBegin L ''pet_name'' T_STRING 2 @ writeString L (pet_name s) @ writeFieldEnd L
     @ writeFieldBegin L ''pet_weight'' T_I32 3 @ writeI32 L (pet_weight s) @ writeFieldEnd L
     @ writeFieldBegin L ''pet_i8_value'' T_BYTE 4 @ writeByte L (pet_i8_value s) @ writeFieldEnd L
     @ writeFieldBegin L ''pet_i16_value'' T_I16 5 @ writeI16 L (pet_i16_value s) @ writeFieldEnd L
     @ writeFieldBegin L ''pet_i64_value'' T_I64 6 @ writeI64 L (pet_i64_value s) @ writeFieldEnd L
     @ writeFieldBegin L ''pet_double_value'' T_DOUBLE 7 @ writeDouble L (pet_double_value s) @ writeFieldEnd L
     @ writeFieldBegin L ''pet_bool_value'' T_BOOL 8 @ writeBool L (pet_bool_value s) @ writeFieldEnd L
     @ writeFieldBegin L ''pet_binary_value'' T_STRING 9 @ writeBinary L (pet_binary_value s) @ writeFieldEnd L
     @ writeFieldBegin L ''pet_embedded_struct'' T_STRUCT 10 @ EmbeddedStruct_write L (pet_embedded_struct s) @ writeFieldEnd L
     @ writeFieldBegin L ''pet_list_i32'' T_LIST 11 @ write_pet_list_i32 L (pet_list_i32 s) @ writeFieldEnd L
     @ writeFieldBegin L ''pet_list_of_struct'' T_LIST 12 @ write_pet_list_of_struct L (pet_list_of_struct s) @ writeFieldEnd L
     @ writeFieldBegin L ''pet_list_of_bool'' T_LIST 13 @ write_pet_list_of_bool L (pet_list_of_bool s) @ writeFieldEnd L
     @ writeFieldBegin L ''pet_set_of_i32'' T_SET 14 @ write_pet_set_of_i32 L (pet_set_of_i32 s) @ writeFieldEnd L
     @ writeFieldBegin L ''pet_set_of_struct'' T_SET 15 @ write_pet_set_of_struct L (pet_set_of_struct s) @ writeFieldEnd L
     @ writeFieldBegin L ''pet_map_i32_string'' T_MAP 16 @ write_pet_map_i32_string L (pet_map_i32_string s) @ writeFieldEnd L
     @ writeFieldBegin L ''pet_map_string_struct'' T_MAP 17 @ write_pet_map_string_struct L (pet_map_string_struct s) @ writeFieldEnd L
     @ writeFieldStop L @ writeStructEnd L"

section \<open>The other members\<close>

definition ResponseData_assign :: "ResponseData \<Rightarrow> ResponseData \<Rightarrow> ResponseData" where
  "ResponseData_assign this other =
     this\<lparr>pet_id := pet_id other, pet_name := pet_name other, pet_weight := pet_weight other, pet_i8_value := pet_i8_value other,
        pet_i16_value := pet_i16_value other, pet_i64_value := pet_i64_value other, pet_double_value := pet_double_value other, pet_bool_value := pet_bool_value other,
        pet_binary_value := pet_binary_value other, pet_embedded_struct := pet_embedded_struct other, pet_list_i32 := pet_list_i32 other, pet_list_of_struct := pet_list_of_struct other,
        pet_list_of_bool := pet_list_of_bool other, pet_set_of_i32 := pet_set_of_i32 other, pet_set_of_struct := pet_set_of_struct other, pet_map_i32_string := pet_map_i32_string other,
        pet_map_string_struct := pet_map_string_struct other, data_isset := data_isset other\<rparr>"

definition ResponseData_swap :: "ResponseData \<Rightarrow> ResponseData \<Rightarrow> ResponseData \<times> ResponseData" where
  "ResponseData_swap a b =
     (a\<lparr>pet_id := pet_id b, pet_name := pet_name b, pet_weight := pet_weight b, pet_i8_value := pet_i8_value b,
        pet_i16_value := pet_i16_value b, pet_i64_value := pet_i64_value b, pet_double_value := pet_double_value b, pet_bool_value := pet_bool_value b,
        pet_binary_value := pet_binary_value b, pet_embedded_struct := pet_embedded_struct b, pet_list_i32 := pet_list_i32 b, pet_list_of_struct := pet_list_of_struct b,
        pet_list_of_bool := pet_list_of_bool b, pet_set_of_i32 := pet_set_of_i32 b, pet_set_of_struct := pet_set_of_struct b, pet_map_i32_string := pet_map_i32_string b,
        pet_map_string_struct := pet_map_string_struct b, data_isset := data_isset b\<rparr>,
      b\<lparr>pet_id := pet_id a, pet_name := pet_name a, pet_weight := pet_weight a, pet_i8_value := pet_i8_value a,
        pet_i16_value := pet_i16_value a, pet_i64_value := pet_i64_value a, pet_double_value := pet_double_value a, pet_bool_value := pet_bool_value a,
        pet_binary_value := pet_binary_value a, pet_embedded_struct := pet_embedded_struct a, pet_list_i32 := pet_list_i32 a, pet_list_of_struct := pet_list_of_struct a,
        pet_list_of_bool := pet_list_of_bool a, pet_set_of_i32 := pet_set_of_i32 a, pet_set_of_struct := pet_set_of_struct a, pet_map_i32_string := pet_map_i32_string a,
        pet_map_string_struct := pet_map_string_struct a, data_isset := data_isset a\<rparr>)"

definition ResponseData_eq :: "thrift_lib \<Rightarrow> ResponseData \<Rightarrow> ResponseData \<Rightarrow> bool" where
  "ResponseData_eq L s rhs =
     (if \<not> pet_id s = pet_id rhs then False
      else if \<not> pet_name s = pet_name rhs then False
      else if \<not> pet_weight s = pet_weight rhs then False
      else if \<not> pet_i8_value s = pet_i8_value rhs then False
      else if \<not> pet_i16_value s = pet_i16_value rhs then False
      else if \<not> pet_i64_value s = pet_i64_value rhs then False
      else if \<not> double_eq L (pet_double_value s) (pet_double_value rhs) then False
      else if \<not> pet_bool_value s = pet_bool_value rhs then False
      else if \<not> pet_binary_value s = pet_binary_value rhs then False
      else if \<not> EmbeddedStruct_eq (pet_embedded_struct s) (pet_embedded_struct rhs) then False
      else if \<not> pet_list_i32 s = pet_list_i32 rhs then False
      else if \<not> list_all2 EmbeddedStruct_eq (pet_list_of_struct s) (pet_list_of_struct rhs) then False
      else if \<not> pet_list_of_bool s = pet_list_of_bool rhs then False
      else if \<not> pet_set_of_i32 s = pet_set_of_i32 rhs then False
      else if \<not> list_all2 EmbeddedStruct_eq (pet_set_of_struct s) (pet_set_of_struct rhs) then False
      else if \<not> pet_map_i32_string s = pet_map_i32_string rhs then False
      else if \<not> list_all2 (\<lambda>(k, v) (k', v'). k = k' \<and> EmbeddedStruct_eq v v') (pet_map_string_struct s) (pet_map_string_struct rhs) then False
      else True)"

text \<open>The value that the functions of a list of fields work on.\<close>

definition list_val :: "('a \<Rightarrow> tval) \<Rightarrow> 'a list \<Rightarrow> tval" where
  "list_val h xs = VList (map h xs)"

definition set_val :: "('a \<Rightarrow> tval) \<Rightarrow> 'a list \<Rightarrow> tval" where
  "set_val h xs = VSet (map h xs)"

definition map_val :: "('a \<Rightarrow> tval) \<Rightarrow> ('b \<Rightarrow> tval) \<Rightarrow> ('a \<times> 'b) list \<Rightarrow> tval" where
  "map_val h g m = VMap (map (\<lambda>(x, y). (h x, g y)) m)"

definition data_vals :: "ResponseData \<Rightarrow> tval list" where
  "data_vals s =
     [VI32 (pet_id s),
      VString (pet_name s),
      VI32 (pet_weight s),
      VI8 (pet_i8_value s),
      VI16 (pet_i16_value s),
      VI64 (pet_i64_value s),
      VDouble (pet_double_value s),
      VBool (pet_bool_value s),
      VString (pet_binary_value s),
      es_val (pet_embedded_struct s),
      list_val VI32 (pet_list_i32 s),
      list_val es_val (pet_list_of_struct s),
      list_val VBool (pet_list_of_bool s),
      set_val VI32 (pet_set_of_i32 s),
      set_val es_val (pet_set_of_struct s),
      map_val VI32 VString (pet_map_i32_string s),
      map_val VString es_val (pet_map_string_struct s)]"

definition data_issets :: "ResponseData \<Rightarrow> bool list" where
  "data_issets s =
     (let i = data_isset s
      in [is_pet_id i, is_pet_name i, is_pet_weight i, is_pet_i8_value i, is_pet_i16_value i,
          is_pet_i64_value i, is_pet_double_value i, is_pet_bool_value i, is_pet_binary_value i, is_pet_embedded_struct i,
          is_pet_list_i32 i, is_pet_list_of_struct i, is_pet_list_of_bool i, is_pet_set_of_i32 i, is_pet_set_of_struct i,
          is_pet_map_i32_string i, is_pet_map_string_struct i])"

definition data_val :: "ResponseData \<Rightarrow> tval" where
  "data_val s = VStruct (zip (data_issets s) (data_vals s))"

text \<open>\<^verbatim>\<open>printTo\<close>; \<open>to_str\<close> is \<^verbatim>\<open>to_string\<close> of the thrift library.\<close>

definition ResponseData_printTo :: "(ftype \<Rightarrow> tval \<Rightarrow> string) \<Rightarrow> ResponseData \<Rightarrow> string" where
  "ResponseData_printTo to_str s =
     ''ResponseData(''
     @ ''pet_id='' @ to_str I32 (VI32 (pet_id s))
     @ '', '' @ ''pet_name='' @ to_str STRING (VString (pet_name s))
     @ '', '' @ ''pet_weight='' @ to_str I32 (VI32 (pet_weight s))
     @ '', '' @ ''pet_i8_value='' @ to_str I8 (VI8 (pet_i8_value s))
     @ '', '' @ ''pet_i16_value='' @ to_str I16 (VI16 (pet_i16_value s))
     @ '', '' @ ''pet_i64_value='' @ to_str I64 (VI64 (pet_i64_value s))
     @ '', '' @ ''pet_double_value='' @ to_str DOUBLE (VDouble (pet_double_value s))
     @ '', '' @ ''pet_bool_value='' @ to_str BOOL (VBool (pet_bool_value s))
     @ '', '' @ ''pet_binary_value='' @ to_str (BINARY True) (VString (pet_binary_value s))
     @ '', '' @ ''pet_embedded_struct='' @ to_str EMBEDDED (es_val (pet_embedded_struct s))
     @ '', '' @ ''pet_list_i32='' @ to_str (LIST I32) (list_val VI32 (pet_list_i32 s))
     @ '', '' @ ''pet_list_of_struct='' @ to_str (LIST EMBEDDED) (list_val es_val (pet_list_of_struct s))
     @ '', '' @ ''pet_list_of_bool='' @ to_str (LIST BOOL) (list_val VBool (pet_list_of_bool s))
     @ '', '' @ ''pet_set_of_i32='' @ to_str (SET True I32) (set_val VI32 (pet_set_of_i32 s))
     @ '', '' @ ''pet_set_of_struct='' @ to_str (SET True EMBEDDED) (set_val es_val (pet_set_of_struct s))
     @ '', '' @ ''pet_map_i32_string='' @ to_str (MAP I32 STRING) (map_val VI32 VString (pet_map_i32_string s))
     @ '', '' @ ''pet_map_string_struct='' @ to_str (MAP STRING EMBEDDED) (map_val VString es_val (pet_map_string_struct s))
     @ '')''"

section \<open>Containers read like the macros' ones\<close>

named_theorems leaves "how a field of the class is read by the function of its type"

lemma leaf_scalars [leaves]:
  "read_val L BOOL cur = mapT VBool (readBool L)" "read_val L I8 cur = mapT VI8 (readByte L)"
  "read_val L I16 cur = mapT VI16 (readI16 L)" "read_val L I32 cur = mapT VI32 (readI32 L)"
  "read_val L I64 cur = mapT VI64 (readI64 L)" "read_val L DOUBLE cur = mapT VDouble (readDouble L)"
  "read_val L STRING cur = mapT VString (readString L)" "read_val L (BINARY g) cur = mapT VString (readBinary L)"
  by simp_all

lemma leaf_list:
  "read_val L t (default_val t) = mapT h rd \<Longrightarrow> read_val L (LIST t) cur = mapT (list_val h) (gen_read_list L rd)"
  by (auto simp: gen_read_list_def read_times_map bindT_map mapT_bind list_val_def if_distrib cong: if_cong
      intro!: arg_cong2 [where f = bindT])

lemma set_insert_map:
  "(\<And>a b. lt' (h a) (h b) = lt a b) \<Longrightarrow> set_insert lt' (h x) (map h xs) = map h (set_insert lt x xs)"
  by (induction xs) auto

lemma insert_all_map:
  assumes "\<And>a b. lt' (h a) (h b) = lt a b"
  shows "foldl (\<lambda>s x. set_insert lt' x s) (map h ys) (map h xs) = map h (foldl (\<lambda>s x. set_insert lt x s) ys xs)"
  by (induction xs arbitrary: ys) (simp_all add: set_insert_map [of lt' h lt, OF assms])

lemma leaf_set:
  assumes "read_val L t (default_val t) = mapT h rd" and "\<And>a b. val_less L (h a) (h b) = lt a b"
  shows "read_val L (SET True t) cur = mapT (set_val h) (gen_read_set L lt rd)"
  using insert_all_map [of "val_less L" h lt "[]", OF assms(2)]
  by (auto simp: gen_read_set_def assms(1) read_times_map bindT_map mapT_bind set_val_def
      intro!: arg_cong2 [where f = bindT])

lemma map_lookup_map:
  "(\<And>a b. lt' (h a) (h b) = lt a b) \<Longrightarrow>
   map_lookup lt' (h x) (map (\<lambda>(x, y). (h x, g y)) m) = map_option g (map_lookup lt x m)"
  by (induction m) auto

lemma map_store_map:
  "(\<And>a b. lt' (h a) (h b) = lt a b) \<Longrightarrow>
   map_store lt' (h x) (g y) (map (\<lambda>(x, y). (h x, g y)) m) = map (\<lambda>(x, y). (h x, g y)) (map_store lt x y m)"
  by (induction m) auto

lemma read_entries_map:
  assumes lt: "\<And>a b. lt' (h a) (h b) = lt a b" and rv: "\<And>y. rv' (g y) = mapT g (rv y)"
  shows "read_entries lt' (mapT h rk) rv' (g d) n (map (\<lambda>(x, y). (h x, g y)) m)
    = mapT (map (\<lambda>(x, y). (h x, g y))) (read_entries lt rk rv d n m)"
proof (induction n arbitrary: m)
  case (Suc n)
  have "rv' (case map_lookup lt' (h x) (map (\<lambda>(x, y). (h x, g y)) m) of None \<Rightarrow> g d | Some y \<Rightarrow> y)
      = mapT g (rv (case map_lookup lt x m of None \<Rightarrow> d | Some y \<Rightarrow> y))" for x
    by (simp add: map_lookup_map [of lt' h lt, OF lt] rv split: option.split)
  then show ?case
    by (simp add: bindT_map mapT_bind map_store_map [of lt' h lt, OF lt] Suc)
qed simp

lemma leaf_map:
  assumes "read_val L tk (default_val tk) = mapT h rk" and "\<And>a b. val_less L (h a) (h b) = lt a b"
    and "\<And>y. read_val L tv (g y) = mapT g (rv y)" and "default_val tv = g d"
  shows "read_val L (MAP tk tv) cur = mapT (map_val h g) (gen_read_map L lt rk rv d)"
  using read_entries_map [of "val_less L" h lt "read_val L tv" g rv rk d _ "[]", OF assms(2,3)]
  by (auto simp: gen_read_map_def assms(1,4) bindT_map mapT_bind map_val_def intro!: arg_cong2 [where f = bindT])

lemma leaf_less:
  "val_less L (VI32 a) (VI32 b) = i32_less a b" "val_less L (VString c) (VString d) = string_less c d"
  "user_less L = EmbeddedStruct_less \<Longrightarrow> val_less L (es_val x) (es_val y) = gen_EmbeddedStruct_less x y"
  by (simp_all add: val_less_def i32_less_def es_val_def) (simp add: es_val_def [symmetric] es_less)

lemma leaf_struct [leaves]: "read_val L EMBEDDED (es_val s) = mapT es_val (EmbeddedStruct_read L s)"
  by (rule es_read)

lemma leaf_new: "read_val L EMBEDDED (default_val EMBEDDED) = mapT es_val (EmbeddedStruct_read L new_EmbeddedStruct)"
  by (simp only: es_new es_read)

lemma leaf_containers [leaves]:
  "read_val L (LIST I32) cur = mapT (list_val VI32) (read_pet_list_i32 L)"
  "read_val L (LIST EMBEDDED) cur = mapT (list_val es_val) (read_pet_list_of_struct L)"
  "read_val L (LIST BOOL) cur = mapT (list_val VBool) (read_pet_list_of_bool L)"
  "read_val L (SET True I32) cur = mapT (set_val VI32) (read_pet_set_of_i32 L)"
  "read_val L (MAP I32 STRING) cur = mapT (map_val VI32 VString) (read_pet_map_i32_string L)"
proof -
  show "read_val L (LIST I32) cur = mapT (list_val VI32) (read_pet_list_i32 L)"
    unfolding read_pet_list_i32_def by (rule leaf_list) simp
  show "read_val L (LIST EMBEDDED) cur = mapT (list_val es_val) (read_pet_list_of_struct L)"
    unfolding read_pet_list_of_struct_def by (rule leaf_list [OF leaf_new])
  show "read_val L (LIST BOOL) cur = mapT (list_val VBool) (read_pet_list_of_bool L)"
    unfolding read_pet_list_of_bool_def by (rule leaf_list) simp
  show "read_val L (SET True I32) cur = mapT (set_val VI32) (read_pet_set_of_i32 L)"
    unfolding read_pet_set_of_i32_def by (rule leaf_set) (simp_all add: leaf_less)
  show "read_val L (MAP I32 STRING) cur = mapT (map_val VI32 VString) (read_pet_map_i32_string L)"
    unfolding read_pet_map_i32_string_def by (rule leaf_map) (simp_all add: leaf_less)
qed

lemma leaf_struct_containers:
  assumes less: "user_less L = EmbeddedStruct_less"
  shows "read_val L (SET True EMBEDDED) cur = mapT (set_val es_val) (read_pet_set_of_struct L)"
    and "read_val L (MAP STRING EMBEDDED) cur = mapT (map_val VString es_val) (read_pet_map_string_struct L)"
proof -
  show "read_val L (SET True EMBEDDED) cur = mapT (set_val es_val) (read_pet_set_of_struct L)"
    unfolding read_pet_set_of_struct_def by (rule leaf_set [OF leaf_new leaf_less(3) [OF less]])
  show "read_val L (MAP STRING EMBEDDED) cur = mapT (map_val VString es_val) (read_pet_map_string_struct L)"
    unfolding read_pet_map_string_struct_def
    by (rule leaf_map [OF leaf_scalars(7) leaf_less(2) es_read es_new])
qed

section \<open>The class does what its declaration says\<close>

text \<open>The \<^verbatim>\<open>switch\<close> of a list of fields, as a list of cases.\<close>

fun slot_cases ::
  "field_reader list \<Rightarrow> (bool \<times> tval) list \<Rightarrow> ((bool \<times> tval) list \<Rightarrow> (bool \<times> tval) list)
   \<Rightarrow> (16 word \<times> ttype \<times> (bool \<times> tval) list reader) list" where
  "slot_cases ((i, r, tt, rd) # frs) ((seen, v) # ss) c =
     (i, tt, mapT (\<lambda>v'. c ((True, v') # ss)) (rd v)) # slot_cases frs ss (\<lambda>ss'. c ((seen, v) # ss'))"
| "slot_cases frs ss c = []"

lemma run_slot_cases: "mapT c (read_case L frs ss fid ft) = run_switch L (slot_cases frs ss c) (c ss) fid ft"
proof (induction L frs ss fid ft arbitrary: c rule: read_case.induct)
  case (1 L i r tt rd frs seen v ss fid ft)
  show ?case
  proof (cases "fid = i")
    case True
    then show ?thesis by simp
  next
    case False
    show ?thesis using "1.IH" [OF False, of "\<lambda>ss'. c ((seen, v) # ss')"] by (simp add: False)
  qed
qed simp_all

lemma sim_run_switch:
  assumes "list_all2 (\<lambda>(i, t, r) (i', t', r'). i = i' \<and> t = t' \<and> sim R r r') cs cs'" and "R s ss"
  shows "sim R (run_switch L cs s fid ft) (run_switch L cs' ss fid ft)"
  using assms(1) by (induction rule: list_all2_induct) (auto intro!: sim_maps assms(2))

definition data_rel :: "ResponseData \<Rightarrow> ResponseData \<Rightarrow> (bool \<times> tval) list \<Rightarrow> bool" where
  "data_rel s0 s ss \<longleftrightarrow> map snd ss = data_vals s \<and> data_issets s = map2 (\<or>) (data_issets s0) (map fst ss)"

lemma data_rows:
  assumes less: "user_less L = EmbeddedStruct_less" and rel: "data_rel s0 s ss"
  shows "list_all2 (\<lambda>(i, t, r) (i', t', r'). i = i' \<and> t = t' \<and> sim (data_rel s0) r r')
    (data_cases L s) (slot_cases (map (read_field L) gen_ResponseData) ss (\<lambda>ss. ss))"
proof -
  from rel have "map snd ss = data_vals s" by (simp add: data_rel_def)
  then obtain a1 a2 a3 a4 a5 a6 a7 a8 a9 a10 a11 a12 a13 a14 a15 a16 a17 where
    ss: "ss = zip [a1, a2, a3, a4, a5, a6, a7, a8, a9, a10, a11, a12, a13, a14, a15, a16, a17] (data_vals s)"
    by (fastforce simp: data_vals_def map_eq_Cons_conv)
  show ?thesis
    using rel
    unfolding ss data_vals_def data_cases_def gen_ResponseData_def Let_def
    by (simp del: read_val.simps add: leaves leaf_struct_containers [OF less], intro conjI)
      (rule sim_maps, simp add: data_rel_def data_vals_def data_issets_def Let_def)+
qed

lemma data_switch:
  assumes "user_less L = EmbeddedStruct_less" and "data_rel s0 s ss"
  shows "sim (data_rel s0) (ResponseData_switch L fid ft s) (read_case L (map (read_field L) gen_ResponseData) ss fid ft)"
  using sim_run_switch [where R = "data_rel s0" and L = L and fid = fid and ft = ft, OF data_rows [OF assms] assms(2)]
  by (simp add: ResponseData_switch_def run_slot_cases [where c = "\<lambda>ss. ss", symmetric])

lemma finish_zip:
  "length I = length ss \<Longrightarrow> length V = length ss \<Longrightarrow> finish_slots (zip I V) ss = zip (map2 (\<or>) I (map fst ss)) (map snd ss)"
  by (rule nth_equalityI) (auto simp: finish_slots_def split: prod.split)

lemma data_lengths [simp]: "length (data_vals s) = 17" "length (data_issets s) = 17"
  by (simp_all add: data_vals_def data_issets_def Let_def)

lemma data_rel_length: "data_rel s0 s ss \<Longrightarrow> length ss = 17"
  unfolding data_rel_def by (metis data_lengths(1) length_map)

lemma nothing_required: "length ss = 17 \<Longrightarrow> \<not> missing_required (map (read_field L) gen_ResponseData) ss"
  by (auto simp: missing_required_def gen_ResponseData_def list_ex_iff in_set_zip nth_Cons' split: if_splits)

lemma data_end:
  "data_rel s0 s ss \<Longrightarrow>
   sim (\<lambda>x y. y = data_val x) (bindT (readStructEnd L) (\<lambda>_. returnT s))
     (bindT (readStructEnd L) (\<lambda>_. if missing_required (map (read_field L) gen_ResponseData) ss then throwT
        else returnT (VStruct (finish_slots (slots (data_val s0)) ss))))"
  by (frule data_rel_length)
    (auto simp: nothing_required data_val_def finish_zip data_rel_def intro!: sim_same_bind sim_return)

lemma data_read:
  assumes "user_less L = EmbeddedStruct_less"
  shows "read_val L GEN_DATA (data_val s) = mapT data_val (ResponseData_read L s)"
proof -
  have "data_rel s s (map (\<lambda>(isset, v). (False, v)) (slots (data_val s)))"
    by (simp add: data_rel_def data_val_def data_vals_def data_issets_def Let_def)
  note loop = sim_loop_bytes [where R = "data_rel s", OF data_switch [OF assms] this]
  have "sim (\<lambda>x y. y = data_val x) (ResponseData_read L s) (read_struct L (map (read_field L) gen_ResponseData) (data_val s))"
    unfolding ResponseData_read_def read_struct_def
    by (rule sim_same_bind, rule sim_bind [OF loop data_end])
  then show ?thesis by (simp add: sim_iff_map)
qed

named_theorems writers "the loops that write the containers"

lemma write_containers [writers]:
  "write_val L (LIST I32) (list_val VI32 xs) = write_pet_list_i32 L xs"
  "write_val L (LIST EMBEDDED) (list_val es_val es) = write_pet_list_of_struct L es"
  "write_val L (LIST BOOL) (list_val VBool bs) = write_pet_list_of_bool L bs"
  "write_val L (SET True I32) (set_val VI32 xs) = write_pet_set_of_i32 L xs"
  "write_val L (SET True EMBEDDED) (set_val es_val es) = write_pet_set_of_struct L es"
  "write_val L (MAP I32 STRING) (map_val VI32 VString m) = write_pet_map_i32_string L m"
  "write_val L (MAP STRING EMBEDDED) (map_val VString es_val em) = write_pet_map_string_struct L em"
  unfolding write_pet_list_i32_def write_pet_list_of_struct_def write_pet_list_of_bool_def write_pet_set_of_i32_def
    write_pet_set_of_struct_def write_pet_map_i32_string_def write_pet_map_string_struct_def list_val_def set_val_def map_val_def
  by (simp_all del: write_val.simps(12) add: es_write o_def case_prod_unfold)

lemma data_write: "write_val L GEN_DATA (data_val s) = ResponseData_write L s"
  unfolding gen_ResponseData_def data_val_def data_vals_def data_issets_def Let_def ResponseData_write_def
  by (simp only: write_val.simps(12) write_field.simps)
    (simp del: write_val.simps(9-12) add: writers es_write)

lemma eq_containers:
  "val_eq L (LIST EMBEDDED) (list_val es_val es) (list_val es_val es') = list_all2 EmbeddedStruct_eq es es'"
  "val_eq L (SET True EMBEDDED) (set_val es_val es) (set_val es_val es') = list_all2 EmbeddedStruct_eq es es'"
  by (simp_all del: val_eq.simps(12) add: list_val_def set_val_def list_all2_map1 list_all2_map2 es_eq)

lemma eq_maps:
  "val_eq L (LIST I32) (list_val VI32 xs) (list_val VI32 ys) = (xs = ys)"
  "val_eq L (LIST BOOL) (list_val VBool bs) (list_val VBool cs) = (bs = cs)"
  "val_eq L (SET True I32) (set_val VI32 xs) (set_val VI32 ys) = (xs = ys)"
  by (simp_all add: list_val_def set_val_def list_all2_map1 list_all2_map2 list.rel_eq inj_map_eq_map inj_def)

lemma eq_entries:
  "val_eq L (MAP I32 STRING) (map_val VI32 VString m) (map_val VI32 VString m') = (m = m')"
  "val_eq L (MAP STRING EMBEDDED) (map_val VString es_val em) (map_val VString es_val em')
     = list_all2 (\<lambda>(k, v) (k', v'). k = k' \<and> EmbeddedStruct_eq v v') em em'"
proof -
  have "(\<lambda>(x, y) (x', y'). x = (x' :: 32 word) \<and> y = (y' :: bytes)) = (=)" by (auto simp: fun_eq_iff)
  then show "val_eq L (MAP I32 STRING) (map_val VI32 VString m) (map_val VI32 VString m') = (m = m')"
    by (simp add: map_val_def list_all2_map1 list_all2_map2 list.rel_eq case_prod_unfold)
  show "val_eq L (MAP STRING EMBEDDED) (map_val VString es_val em) (map_val VString es_val em')
     = list_all2 (\<lambda>(k, v) (k', v'). k = k' \<and> EmbeddedStruct_eq v v') em em'"
    by (simp del: val_eq.simps(12) add: map_val_def list_all2_map1 list_all2_map2 es_eq case_prod_unfold)
qed

lemma data_eq: "val_eq L GEN_DATA (data_val a) (data_val b) = ResponseData_eq L a b"
  unfolding gen_ResponseData_def data_val_def data_vals_def data_issets_def Let_def ResponseData_eq_def
  by (simp only: val_eq.simps(12) slot_eq.simps)
    (simp del: val_eq.simps(9-12) add: eq_containers eq_maps eq_entries es_eq)

lemma data_new: "default_val GEN_DATA = data_val new_ResponseData"
  by (simp add: gen_ResponseData_def data_val_def data_vals_def data_issets_def Let_def new_ResponseData_def
      list_val_def set_val_def map_val_def EmbeddedStruct_def es_val_def new_EmbeddedStruct_def)

lemma data_assign: "assign_fields gen_ResponseData (data_val b) = data_val (ResponseData_assign a b)"
  by (simp add: assign_fields_def gen_ResponseData_def data_val_def data_vals_def data_issets_def Let_def
      ResponseData_assign_def upt_rec)

lemma data_swap:
  "swap_fields gen_ResponseData (data_val a) (data_val b)
     = (data_val (fst (ResponseData_swap a b)), data_val (snd (ResponseData_swap a b)))"
proof -
  have "ResponseData_swap a b = (ResponseData_assign a b, ResponseData_assign b a)"
    by (simp add: ResponseData_swap_def ResponseData_assign_def)
  then show ?thesis by (simp add: swap_fields_def data_assign [symmetric])
qed

lemma data_setters:
  "set_field 0 (VI32 w) gen_ResponseData (data_val s) = data_val (set_pet_id w s)"
  "set_field 1 (VString b) gen_ResponseData (data_val s) = data_val (set_pet_name b s)"
  "set_field 2 (VI32 w) gen_ResponseData (data_val s) = data_val (set_pet_weight w s)"
  "set_field 3 (VI8 c) gen_ResponseData (data_val s) = data_val (set_pet_i8_value c s)"
  "set_field 4 (VI16 h) gen_ResponseData (data_val s) = data_val (set_pet_i16_value h s)"
  "set_field 5 (VI64 l) gen_ResponseData (data_val s) = data_val (set_pet_i64_value l s)"
  "set_field 6 (VDouble l) gen_ResponseData (data_val s) = data_val (set_pet_double_value l s)"
  "set_field 7 (VBool t) gen_ResponseData (data_val s) = data_val (set_pet_bool_value t s)"
  "set_field 8 (VString b) gen_ResponseData (data_val s) = data_val (set_pet_binary_value b s)"
  "set_field 9 (es_val e) gen_ResponseData (data_val s) = data_val (set_pet_embedded_struct e s)"
  "set_field 10 (list_val VI32 ws) gen_ResponseData (data_val s) = data_val (set_pet_list_i32 ws s)"
  "set_field 11 (list_val es_val es) gen_ResponseData (data_val s) = data_val (set_pet_list_of_struct es s)"
  "set_field 12 (list_val VBool ts) gen_ResponseData (data_val s) = data_val (set_pet_list_of_bool ts s)"
  "set_field 13 (set_val VI32 ws) gen_ResponseData (data_val s) = data_val (set_pet_set_of_i32 ws s)"
  "set_field 14 (set_val es_val es) gen_ResponseData (data_val s) = data_val (set_pet_set_of_struct es s)"
  "set_field 15 (map_val VI32 VString m) gen_ResponseData (data_val s) = data_val (set_pet_map_i32_string m s)"
  "set_field 16 (map_val VString es_val em) gen_ResponseData (data_val s) = data_val (set_pet_map_string_struct em s)"
  unfolding set_pet_id_def set_pet_name_def set_pet_weight_def set_pet_i8_value_def set_pet_i16_value_def
    set_pet_i64_value_def set_pet_double_value_def set_pet_bool_value_def set_pet_binary_value_def
    set_pet_embedded_struct_def set_pet_list_i32_def set_pet_list_of_struct_def set_pet_list_of_bool_def
    set_pet_set_of_i32_def set_pet_set_of_struct_def set_pet_map_i32_string_def set_pet_map_string_struct_def
  by (simp_all add: set_field_def gen_ResponseData_def data_val_def data_vals_def data_issets_def Let_def)

lemma data_print:
  "print_to to_str ''ResponseData'' gen_ResponseData (data_val s)
     = ''ResponseData(, '' @ drop 13 (ResponseData_printTo to_str s)"
  by (simp add: print_to_def print_field_def gen_ResponseData_def data_val_def data_vals_def data_issets_def Let_def
      ResponseData_printTo_def)

text \<open>
  C16: The class \<^verbatim>\<open>ResponseData\<close> that the thrift compiler wrote out member by member, with its seven
  container loops, and the members the macros assemble from the declaration of the same fields, do
  the same: they read any input alike, exceptions and skipped fields included, write the same bytes,
  and compare alike.
\<close>
theorem generated_class_is_declaration:
  assumes "user_less L = EmbeddedStruct_less"
  shows "read_val L GEN_DATA (data_val s) = mapT data_val (ResponseData_read L s)
    \<and> write_val L GEN_DATA (data_val s) = ResponseData_write L s
    \<and> val_eq L GEN_DATA (data_val s) (data_val s') = ResponseData_eq L s s'"
  using data_read [OF assms] data_write data_eq by blast

theorem generated_class_is_declaration_witness:
  "read_val sample_lib GEN_DATA (data_val new_ResponseData) = mapT data_val (ResponseData_read sample_lib new_ResponseData)
    \<and> write_val sample_lib GEN_DATA (data_val new_ResponseData) = ResponseData_write sample_lib new_ResponseData
    \<and> val_eq sample_lib GEN_DATA (data_val new_ResponseData) (data_val (set_pet_id 5 new_ResponseData))
        = ResponseData_eq sample_lib new_ResponseData (set_pet_id 5 new_ResponseData)"
  by (rule generated_class_is_declaration) (simp add: sample_lib_def)

end

