(* ===== verification/ThriftTests.thy ===== *)
theory ThriftTests
  imports ResponseData Stub
begin

text \<open>
  The tests of \<^verbatim>\<open>test/test_thrift_struct.cpp\<close>: objects of the classes of the thrift compiler and of
  \<^verbatim>\<open>demo_service.api\<close> go through \<^verbatim>\<open>ThriftEncoder\<close> and \<^verbatim>\<open>ThriftDecoder\<close> from one class to the other and
  back.  The way back is shown for every object and every protocol first, and the tests are instances.
\<close>

section \<open>The codec of the four classes\<close>

text \<open>An object is the name of its class and its value; \<open>read\<close> fills a new object.\<close>

type_synonym object = "string \<times> tval"

definition test_classes :: "(string \<times> ftype) list" where
  "test_classes =
     [(''thrift::SingleOptionalFieldStruct'', SOF), (''demo::SingleOptionalFieldStruct'', SOF),
      (''thrift::ResponseData'', GEN_DATA), (''demo::ResponseData'', DEMO_DATA)]"

definition object_write :: "thrift_lib \<Rightarrow> object \<Rightarrow> bytes option" where
  "object_write L = (\<lambda>(cls, v). map_option (\<lambda>t. write_val L t v) (map_of test_classes cls))"

definition object_read :: "thrift_lib \<Rightarrow> string \<Rightarrow> bytes \<Rightarrow> (object \<times> nat) option" where
  "object_read L cls bs =
     (case map_of test_classes cls of
        None \<Rightarrow> None
      | Some t \<Rightarrow> map_option (\<lambda>(v, n, rest). ((cls, v), unat n)) (read_val L t (default_val t) bs))"

definition object_eq :: "thrift_lib \<Rightarrow> object \<Rightarrow> object \<Rightarrow> bool" where
  "object_eq L a b =
     (case map_of test_classes (fst a) of None \<Rightarrow> False | Some t \<Rightarrow> fst a = fst b \<and> val_eq L t (snd a) (snd b))"

text \<open>
  \<^verbatim>\<open>expect_thrift_encoded_buffer__can_decoded_by_msgrpc_____and_vise_versa\<close>: whether every \<^verbatim>\<open>EXPECT\<close> holds.
\<close>

definition expect_decoded_and_vise_versa ::
  "thrift_lib \<Rightarrow> (object, 'r) env \<Rightarrow> object \<Rightarrow> string \<Rightarrow> (object, 'r) rt \<Rightarrow> fault + bool \<times> (object, 'r) rt" where
  "expect_decoded_and_vise_versa L E t m_class rt =
     bindR (do_encode E t rt) (\<lambda>(pbuf, rt).
     case pbuf of None \<Rightarrow> Inr (False, rt) | Some buf \<Rightarrow>
     bindR (do_decode E m_class buf rt) (\<lambda>m.
     case m of None \<Rightarrow> Inr (False, rt) | Some m \<Rightarrow>
     bindR (do_encode E m rt) (\<lambda>(pbuf, rt).
     case pbuf of None \<Rightarrow> Inr (False, rt) | Some buf \<Rightarrow>
     bindR (do_decode E (fst t) buf rt) (\<lambda>t2.
     Inr (case t2 of None \<Rightarrow> False | Some t2 \<Rightarrow> object_eq L t t2, rt)))))"

text \<open>An environment with the protocol of \<open>L\<close>, and what it takes for an object to be sent.\<close>

definition encodes_objects :: "thrift_lib \<Rightarrow> (object, 'r) env \<Rightarrow> bool" where
  "encodes_objects L E \<longleftrightarrow> protocol_ok L \<and> thrift_write E = object_write L \<and> thrift_read E = object_read L"

definition countable_bytes :: "bytes \<Rightarrow> bool" where
  "countable_bytes bs \<longleftrightarrow> (of_nat (length bs) :: 32 word) \<noteq> 0"

lemma countable_not_empty: "countable_bytes bs \<Longrightarrow> bs \<noteq> [] \<and> 0 < unat (of_nat (length bs) :: 32 word)"
  by (auto simp: countable_bytes_def unat_gt_0)

lemma countable_by_length: "0 < length bs \<Longrightarrow> length bs < 2 ^ 32 \<Longrightarrow> countable_bytes bs"
  by (simp add: countable_bytes_def word_of_nat_eq_0_iff nat_dvd_not_less)

lemma object_encoded:
  assumes "encodes_objects L E" and "map_of test_classes cls = Some t" and "countable_bytes (write_val L t v)"
  shows "\<exists>rt'. do_encode E (cls, v) rt = Inr (Some (write_val L t v), rt')"
  using assms countable_not_empty by (simp add: encodes_objects_def object_write_def do_encode_def Let_def)

lemma object_decoded:
  assumes "encodes_objects L E" and "map_of test_classes cls = Some u" and "countable_bytes bs"
    and "read_val L u (default_val u) bs = Some (v, of_nat (length bs), [])"
  shows "do_decode E cls bs rt = Inr (Some (cls, v))"
  using assms countable_not_empty by (simp add: encodes_objects_def object_read_def do_decode_def)

text \<open>Whatever the object, the expectations hold.\<close>

lemma expectations_hold:
  assumes E: "encodes_objects L E"
    and classes: "map_of test_classes cls = Some (STRUCT n fs)" "map_of test_classes m_class = Some (STRUCT m gs)"
    and compat: "compat (STRUCT n fs) (STRUCT m gs)" "compat (STRUCT m gs) (STRUCT n fs)"
    and accepts: "list_all2 (field_accepts L) fs gs"
    and v: "fits L (STRUCT n fs) (canon (STRUCT n fs) v)" "val_eq L (STRUCT n fs) v v"
    and count: "countable_bytes (write_val L (STRUCT n fs) v)"
      "countable_bytes (write_val L (STRUCT m gs) (canon (STRUCT n fs) v))"
  shows "\<exists>rt'. expect_decoded_and_vise_versa L E (cls, v) m_class rt = Inr (True, rt')"
proof -
  let ?t = "STRUCT n fs" and ?u = "STRUCT m gs"
  let ?w = "canon ?t v"
  from E have L: "protocol_ok L" by (simp add: encodes_objects_def)
  obtain rt1 where f: "do_encode E (cls, v) rt = Inr (Some (write_val L ?t v), rt1)"
    using object_encoded [OF E classes(1) count(1)] by blast
  have there: "do_decode E m_class (write_val L ?t v) st = Inr (Some (m_class, ?w))" for st
    by (rule object_decoded [OF E classes(2) count(1) read_canon [OF L compat(1) v(1) struct_accepts(1) [OF accepts]]])
  obtain rt2 where g: "do_encode E (m_class, ?w) rt1 = Inr (Some (write_val L ?u ?w), rt2)"
    using object_encoded [OF E classes(2) count(2)] by blast
  have again: "read_val L ?t (default_val ?t) (write_val L ?u ?w @ []) = Some (?w, of_nat (length (write_val L ?u ?w)), [])"
    by (rule readsD [OF reads_written(1) [OF L compat(2) struct_accepts(2) [OF accepts v(1)] accepts_canon(1)]])
  have returned: "do_decode E cls (write_val L ?u ?w) st = Inr (Some (cls, ?w))" for st
    by (rule object_decoded [OF E classes(1) count(2) again [unfolded append_Nil2]])
  have "object_eq L (cls, v) (cls, ?w)"
    unfolding object_eq_def fst_conv snd_conv classes(1) option.case using val_eq_canon(1) [OF v(2)] by blast
  then show ?thesis
    unfolding expect_decoded_and_vise_versa_def f there g returned bindR_Inr prod.case option.case fst_conv by blast
qed

section \<open>The objects\<close>

text \<open>
  The tests assign members directly or by a setter, append with \<^verbatim>\<open>push_back\<close>, insert into sets, and
  store into maps with \<open>[]\<close>; a direct assignment leaves \<^verbatim>\<open>__isset\<close> as it was.
\<close>

definition ascii :: "string \<Rightarrow> bytes" where "ascii s = map (of_nat \<circ> of_char) s"

definition es1 :: gen_EmbeddedStruct where "es1 = new_EmbeddedStruct\<lparr>es_i8 := 97, es_i16 := 116\<rparr>"
definition es2 :: gen_EmbeddedStruct where "es2 = new_EmbeddedStruct\<lparr>es_i8 := 98, es_i16 := 216\<rparr>"

definition complex_data :: ResponseData where
  "complex_data =
     new_ResponseData
       \<lparr>pet_id := 11, pet_name := ascii ''pet_name_foo'', pet_weight := 32, pet_i8_value := 8, pet_i16_value := 16,
        pet_i64_value := 64, pet_double_value := 0x400A666666666666, pet_bool_value := True,
        pet_binary_value := ascii ''abcd'',
        pet_embedded_struct := (set_es_i8 99 (new_EmbeddedStruct\<lparr>es_i8 := 99\<rparr>))\<lparr>es_i16 := 1616\<rparr>,
        pet_list_i32 := [] @ [9] @ [10],
        pet_list_of_struct := [] @ [es1] @ [es2],
        pet_list_of_bool := [] @ [True] @ [False] @ [True],
        pet_set_of_i32 := set_insert i32_less 102 (set_insert i32_less 101 (set_insert i32_less 100 [])),
        pet_set_of_struct := set_insert gen_EmbeddedStruct_less es2 (set_insert gen_EmbeddedStruct_less es1 []),
        pet_map_i32_string :=
          map_store i32_less 201 (ascii ''world'') (map_store i32_less 200 (ascii ''hello'') []),
        pet_map_string_struct :=
          map_store string_less (ascii ''bar'') es2 (map_store string_less (ascii ''foo'') es1 [])\<rparr>"

definition large_data :: "nat \<Rightarrow> ResponseData" where
  "large_data n =
     ((\<lambda>s. s\<lparr>pet_list_of_struct := pet_list_of_struct s @ [es1] @ [es2]\<rparr>) ^^ n) new_ResponseData"

section \<open>The tests\<close>

definition should_decoded_failed_if_required_field_are_not_setted ::
  "thrift_lib \<Rightarrow> (object, 'r) env \<Rightarrow> (object, 'r) rt \<Rightarrow> fault + bool \<times> (object, 'r) rt" where
  "should_decoded_failed_if_required_field_are_not_setted L E rt =
     expect_decoded_and_vise_versa L E
       (''thrift::SingleOptionalFieldStruct'', sof_val (set_sof_value 100 new_SingleOptionalFieldStruct))
       ''demo::SingleOptionalFieldStruct'' rt"

definition should_decoded_failed_if_required_field_are_not_setted____reversed ::
  "thrift_lib \<Rightarrow> (object, 'r) env \<Rightarrow> (object, 'r) rt \<Rightarrow> fault + bool \<times> (object, 'r) rt" where
  "should_decoded_failed_if_required_field_are_not_setted____reversed L E rt =
     expect_decoded_and_vise_versa L E
       (''demo::SingleOptionalFieldStruct'', set_field 0 (VI16 100) SingleOptionalFieldStruct (default_val SOF))
       ''thrift::SingleOptionalFieldStruct'' rt"

definition test_complex_data_types ::
  "thrift_lib \<Rightarrow> (object, 'r) env \<Rightarrow> (object, 'r) rt \<Rightarrow> fault + bool \<times> (object, 'r) rt" where
  "test_complex_data_types L E rt =
     expect_decoded_and_vise_versa L E (''thrift::ResponseData'', data_val complex_data) ''demo::ResponseData'' rt"

definition test_should_able_to__encode_and_decode___large_object ::
  "thrift_lib \<Rightarrow> (object, 'r) env \<Rightarrow> (object, 'r) rt \<Rightarrow> fault + bool \<times> (object, 'r) rt" where
  "test_should_able_to__encode_and_decode___large_object L E rt =
     expect_decoded_and_vise_versa L E (''thrift::ResponseData'', data_val (large_data 1000)) ''demo::ResponseData'' rt"

text \<open>Whether \<^verbatim>\<open>foo.get_value()\<close> of a new object ends in a failed assertion.\<close>

definition access_to_optional_field_which_has__NO_value____will_get_an_assertion_failure :: bool where
  "access_to_optional_field_which_has__NO_value____will_get_an_assertion_failure =
     (get_field 0 SingleOptionalFieldStruct (default_val SOF) = None)"

text \<open>The first object is the one the codec's theorems were tried on.\<close>

lemma complex_data_val: "data_val complex_data = test_data"
  by (simp add: complex_data_def test_data_def data_val_def data_vals_def data_issets_def new_ResponseData_def Let_def
      list_val_def set_val_def map_val_def es_val_def embedded_def es1_def es2_def new_EmbeddedStruct_def set_es_i8_def
      i32_less_def gen_EmbeddedStruct_less_def ascii_def)

lemma large_data_fields:
  "large_data n = new_ResponseData\<lparr>pet_list_of_struct := concat (replicate n [es1, es2])\<rparr>"
proof -
  have "large_data n = new_ResponseData\<lparr>pet_list_of_struct := concat (replicate n [es1, es2])\<rparr>
    \<and> concat (replicate n [es1, es2]) @ [es1, es2] = concat (replicate (Suc n) [es1, es2])"
    by (induction n) (simp_all add: large_data_def new_ResponseData_def)
  then show ?thesis ..
qed

text \<open>An object of the compiler's \<^verbatim>\<open>ResponseData\<close> whose fields fit passes.\<close>

lemma data_expectations:
  assumes "encodes_objects sample_lib E"
    and "fits sample_lib GEN_DATA (canon GEN_DATA v)" "val_eq sample_lib GEN_DATA v v"
    and "countable_bytes (write_val sample_lib GEN_DATA v)" "countable_bytes (write_val sample_lib DEMO_DATA (canon GEN_DATA v))"
  shows "\<exists>rt'. expect_decoded_and_vise_versa sample_lib E (''thrift::ResponseData'', v) ''demo::ResponseData'' rt = Inr (True, rt')"
  by (rule expectations_hold [OF assms(1) _ _ compat_data gen_to_demo assms(2-5)]) (simp_all add: test_classes_def)

lemma complex_passes:
  assumes "encodes_objects sample_lib E"
  shows "\<exists>rt'. test_complex_data_types sample_lib E rt = Inr (True, rt')"
  unfolding test_complex_data_types_def complex_data_val
proof (rule data_expectations [OF assms test_data_fits test_data_eq])
  show "countable_bytes (write_val sample_lib GEN_DATA test_data)"
    by (simp add: countable_bytes_def test_data_def embedded_def gen_ResponseData_def EmbeddedStruct_def sample_lib_def)
  show "countable_bytes (write_val sample_lib DEMO_DATA (canon GEN_DATA test_data))"
    by (simp add: countable_bytes_def test_data_def embedded_def gen_ResponseData_def demo_ResponseData_def
        EmbeddedStruct_def sample_lib_def)
qed

lemma sof_accepts: "list_all2 (field_accepts L) SingleOptionalFieldStruct SingleOptionalFieldStruct"
  by (simp add: SingleOptionalFieldStruct_def field_accepts_def)

lemma small_expectations:
  assumes "encodes_objects sample_lib E"
    and "map_of test_classes cls = Some SOF" "map_of test_classes m_class = Some SOF"
  shows "\<exists>rt'. expect_decoded_and_vise_versa sample_lib E (cls, VStruct [(True, VI16 w), (True, VI64 u)]) m_class rt = Inr (True, rt')"
  by (rule expectations_hold [OF assms(1-3) _ _ sof_accepts])
    (simp_all add: countable_bytes_def SingleOptionalFieldStruct_def sample_lib_def)

lemma small_pass:
  assumes "encodes_objects sample_lib E"
  shows "\<exists>rt'. should_decoded_failed_if_required_field_are_not_setted sample_lib E rt = Inr (True, rt')"
    and "\<exists>rt'. should_decoded_failed_if_required_field_are_not_setted____reversed sample_lib E rt = Inr (True, rt')"
  unfolding should_decoded_failed_if_required_field_are_not_setted_def
    should_decoded_failed_if_required_field_are_not_setted____reversed_def
  using small_expectations [OF assms]
  by (simp_all add: test_classes_def sof_val_def set_sof_value_def new_SingleOptionalFieldStruct_def set_field_def
      SingleOptionalFieldStruct_def)

text \<open>The large object: two structs, a thousand times.\<close>

definition pairs :: "nat \<Rightarrow> tval list" where
  "pairs n = concat (replicate n [embedded 97 116, embedded 98 216])"

lemma pairs_simps [simp]:
  "length (pairs n) = n * 2"
  "list_all (fits sample_lib EMBEDDED) (map (canon EMBEDDED) (pairs n))"
  "list_all2 (val_eq sample_lib EMBEDDED) (pairs n) (pairs n)"
  "length (concat (map (write_val sample_lib EMBEDDED) (pairs n))) = n * 10"
  "length (concat (map (write_val sample_lib EMBEDDED \<circ> canon EMBEDDED) (pairs n))) = n * 10"
  unfolding pairs_def
  by (induction n) (simp_all add: embedded_def EmbeddedStruct_def sample_lib_def)

definition large_vals :: "nat \<Rightarrow> tval list" where
  "large_vals n = (data_vals new_ResponseData)[11 := VList (pairs n)]"

lemma large_data_val: "data_val (large_data n) = VStruct (map (Pair False) (large_vals n))"
proof -
  have "map es_val (concat (replicate n [es1, es2])) = pairs n"
    by (simp add: pairs_def map_concat es_val_def embedded_def es1_def es2_def new_EmbeddedStruct_def)
  then show ?thesis
    by (simp add: large_data_fields large_vals_def data_val_def data_vals_def data_issets_def new_ResponseData_def Let_def
        list_val_def)
qed

lemma new_embedded [simp]:
  "es_val new_EmbeddedStruct = embedded 0 0" "canon EMBEDDED (embedded 0 0) = embedded 0 0"
  "fits sample_lib EMBEDDED (embedded 0 0)" "val_eq sample_lib EMBEDDED (embedded 0 0) (embedded 0 0)"
  "length (write_val sample_lib EMBEDDED (embedded 0 0)) = 5"
  by (simp_all add: es_val_def new_EmbeddedStruct_def embedded_def EmbeddedStruct_def sample_lib_def)

lemma sample_sizes:
  "resize_ok sample_lib n" "double_eq sample_lib = ieee_eq" "writeStructBegin sample_lib s = []" "writeStructEnd sample_lib = []"
  "length (writeFieldBegin sample_lib s t i) = 3" "writeFieldEnd sample_lib = []" "writeFieldStop sample_lib = [0]"
  "length (writeBool sample_lib b) = 1" "length (writeByte sample_lib c) = 1" "length (writeI16 sample_lib h) = 2"
  "length (writeI32 sample_lib w) = 4" "length (writeI64 sample_lib u) = 8" "length (writeDouble sample_lib u) = 8"
  "length (writeString sample_lib bs) = 4 + length bs" "length (writeBinary sample_lib bs) = 4 + length bs"
  "length (writeListBegin sample_lib t w) = 5" "writeListEnd sample_lib = []" "length (writeSetBegin sample_lib t w) = 5"
  "writeSetEnd sample_lib = []" "length (writeMapBegin sample_lib t t' w) = 6" "writeMapEnd sample_lib = []"
  by (simp_all add: sample_lib_def le16_def le32_def le64_def)

lemmas large_defs = gen_ResponseData_def demo_ResponseData_def large_vals_def data_vals_def new_ResponseData_def list_val_def
  set_val_def map_val_def sample_sizes

lemma large_fits:
  assumes "n \<le> 1000"
  shows "fits sample_lib GEN_DATA (canon GEN_DATA (VStruct (map (Pair False) (large_vals n))))"
    and "val_eq sample_lib GEN_DATA (VStruct (map (Pair False) (large_vals n))) (VStruct (map (Pair False) (large_vals n)))"
  unfolding fits.simps(12) canon.simps(12) val_eq.simps(12)
  using assms
  by (simp_all add: large_defs ieee_eq_def is_nan_def max_size_def
      del: fits.simps(12) canon.simps(12) val_eq.simps(12))

lemma large_countable:
  assumes "n \<le> 1000"
  shows "countable_bytes (write_val sample_lib GEN_DATA (VStruct (map (Pair False) (large_vals n))))"
    and "countable_bytes (write_val sample_lib DEMO_DATA (canon GEN_DATA (VStruct (map (Pair False) (large_vals n)))))"
  unfolding write_val.simps(12) canon.simps(12)
  using assms
  by (intro countable_by_length; simp add: large_defs del: write_val.simps(12) canon.simps(12))+

lemma large_passes:
  assumes "encodes_objects sample_lib E"
  shows "\<exists>rt'. test_should_able_to__encode_and_decode___large_object sample_lib E rt = Inr (True, rt')"
  unfolding test_should_able_to__encode_and_decode___large_object_def large_data_val
  using large_fits [OF order_refl] large_countable [OF order_refl] by (intro data_expectations [OF assms])

text \<open>The tests run in any environment, with the sample protocol as its codec.\<close>

definition with_protocol :: "thrift_lib \<Rightarrow> (object, 'r) env \<Rightarrow> (object, 'r) env" where
  "with_protocol L E = E\<lparr>thrift_write := object_write L, thrift_read := object_read L\<rparr>"

text \<open>
  Every test passes: an object of either class of \<^verbatim>\<open>SingleOptionalFieldStruct\<close>, the \<^verbatim>\<open>ResponseData\<close> with
  every kind of field, and the one with two thousand structs come back equal, and reading the
  unset field is refused.  The required field that the first two leave alone does not make the
  decoding fail, as the names of these tests say: it is written with its default.
\<close>

theorem thrift_struct_tests_pass:
  fixes E :: "(object, 'r) env" and rt :: "(object, 'r) rt"
  shows "(\<exists>rt'. should_decoded_failed_if_required_field_are_not_setted sample_lib (with_protocol sample_lib E) rt = Inr (True, rt'))
   \<and> (\<exists>rt'. should_decoded_failed_if_required_field_are_not_setted____reversed sample_lib (with_protocol sample_lib E) rt = Inr (True, rt'))
   \<and> (\<exists>rt'. test_complex_data_types sample_lib (with_protocol sample_lib E) rt = Inr (True, rt'))
   \<and> (\<exists>rt'. test_should_able_to__encode_and_decode___large_object sample_lib (with_protocol sample_lib E) rt = Inr (True, rt'))
   \<and> access_to_optional_field_which_has__NO_value____will_get_an_assertion_failure"
proof -
  have E: "encodes_objects sample_lib (with_protocol sample_lib E)"
    by (simp add: encodes_objects_def with_protocol_def sample_protocol_ok)
  have "access_to_optional_field_which_has__NO_value____will_get_an_assertion_failure"
    by (simp add: access_to_optional_field_which_has__NO_value____will_get_an_assertion_failure_def get_field_def
        SingleOptionalFieldStruct_def)
  then show ?thesis using small_pass [OF E] complex_passes [OF E] large_passes [OF E] by blast
qed

end
