(* ===== verification/Spec2Isabelle.thy ===== *)
theory Spec2Isabelle
  imports Services StartUp Processes Network LibraryTests ThriftTests
begin

text \<open>
  \<^bold>\<open>msgrpc\<close> is a C++ library for remote calls between single-threaded services that talk in messages.
  A call made through a generated stub returns a \<^emph>\<open>cell\<close>; further cells and actions are derived from
  cells, and when a response or a timeout comes in, the cells that depend on it are evaluated again.
  Structs are encoded with thrift, services find each other through zookeeper, and the library leaves
  messages, timers and logging to adapters.  This development models the library
  (\<^verbatim>\<open>include/msgrpc\<close>, \<^verbatim>\<open>src/msgrpc\<close>), its example adapters (\<^verbatim>\<open>adapter_example\<close>), the code the thrift
  compiler generated for its demo API (\<^verbatim>\<open>demo/gen1\<close>) and the example services (\<^verbatim>\<open>demo_services\<close>).
  Paths below are relative to \<^verbatim>\<open>src/msgrpc\<close>, core headers to \<^verbatim>\<open>include/msgrpc/core\<close>.

  \<^bold>\<open>Parts and theories.\<close>
  \<^item> \<^emph>\<open>Shared.\<close> \<open>Prelude\<close>: results with errors (\<open>bindR\<close>, \<open>foldR\<close>), the judgement \<open>outcome\<close>, sorted
    sets.  \<open>Types\<close>: result codes, headers and their bytes, endpoints (\<^verbatim>\<open>types.h\<close>, \<^verbatim>\<open>rpc_result.h\<close>,
    \<^verbatim>\<open>typedefs.h\<close>).  \<open>SeqId\<close>: \<^verbatim>\<open>rpc_sequence_id.cpp\<close>, for one caller and for threads that
    interleave.  \<open>Config\<close>: \<^verbatim>\<open>adapter/config.cpp\<close>.
  \<^item> \<^emph>\<open>The runtime of one thread.\<close> \<open>Runtime\<close> is its state: a store of cells and actions with
    addresses (the code shares them through raw pointers), the contexts that own them, the table of
    pending responses, the id counter, scheduled tasks, and the effects so far (\<open>trace\<close>).
    \<open>Registry\<close>: the table (\<^verbatim>\<open>rsp_msg_handler.cpp\<close>, \<^verbatim>\<open>rsp_cell_base.cpp\<close>).  \<open>Lifetime\<close>: destructors
    (\<^verbatim>\<open>rpc_context.h\<close>, \<^verbatim>\<open>cell/*.h\<close>).  \<open>Stub\<close>: encoding and sending requests
    (\<^verbatim>\<open>iface_stub_base\<close>, \<^verbatim>\<open>msg_sender.cpp\<close>, \<^verbatim>\<open>thrift_codec.h\<close>).  \<open>Cells\<close>: the reactive cells
    (\<^verbatim>\<open>cell_base.h\<close>, \<^verbatim>\<open>derived_*.h\<close>, \<^verbatim>\<open>timeout_cell.h\<close>, \<^verbatim>\<open>si_base.h\<close>).  \<open>Dispatch\<close>: incoming messages,
    interfaces and tasks (\<^verbatim>\<open>msg_handlers/*.cpp\<close>, \<^verbatim>\<open>iface_repository.cpp\<close>,
    \<^verbatim>\<open>api_interface_impl_define.h\<close>, \<^verbatim>\<open>task_run_on_main_queue\<close>).
  \<^item> \<^emph>\<open>Its invariant.\<close> \<open>Graph\<close> (who listens to whom), \<open>Invariant\<close> (pins and elementary steps),
    \<open>Requests\<close>, \<open>Updates\<close>, \<open>Knot\<close>, \<open>Interactions\<close>, \<open>Handlers\<close>: every operation keeps it, under the
    contract \<open>virtual_update\<close> for the virtual method \<^verbatim>\<open>update\<close> and \<open>service_code\<close> for the program's own
    methods and tasks.  \<open>Runs\<close>: any sequence of calls and messages (\<open>reach\<close>) and what holds of all;
    \<open>Retry\<close>: the retry protocol; \<open>Protocol\<close>: client and server together; \<open>Network\<close>: both on a network that
    loses, repeats and reorders messages (\<open>net_step\<close>), with the contract \<open>survives_calls\<close> for what every
    call keeps.
  \<^item> \<^emph>\<open>Thrift.\<close> \<open>Readers\<close> is the monad of the decoders, \<open>ReaderSim\<close> a simulation between two of them.
    \<open>Thrift\<close> gives the members that \<^verbatim>\<open>thrift_struct_declare.h\<close>, \<^verbatim>\<open>thrift_struct_define.h\<close> and
    \<^verbatim>\<open>thrift_types.h\<close> generate as functions of the list of fields; \<open>ThriftRoundTrip\<close> and \<open>ThriftCanon\<close>:
    what is written is read back, and what of a value the encoding keeps.  \<open>WellFormed\<close>: whatever
    bytes come in, an object keeps its declared type and its sets and maps their order.  \<open>DemoApi\<close>: the
    declarations of \<^verbatim>\<open>demo_service.api\<close>.  \<open>ApiTypes\<close> and \<open>ResponseData\<close>: the classes of \<^verbatim>\<open>gen1/api_types.cpp\<close>, member
    by member, and their equivalence with the declared ones.
  \<^item> \<^emph>\<open>Discovery.\<close> \<open>Endpoints\<close>: the names of instances in zookeeper.  \<open>ServiceRegister\<close>:
    \<^verbatim>\<open>zk_service_register.cpp\<close>, whose watchers run on the zookeeper client's thread and hand tasks to
    the main one.  \<open>Discovery\<close> and \<open>Watches\<close>: its runs (\<open>reg_step\<close>), their invariant, and what a change on
    the server leads to.  \<open>Resolvers\<close>: the contract \<open>service_resolver\<close>, which
    \<^verbatim>\<open>service_resolvers.h\<close> builds from resolvers that keep it, and those of \<^verbatim>\<open>service_x\<close>.
  \<^item> \<^emph>\<open>Adapters.\<close> \<open>Adapters\<close>: datagrams (\<^verbatim>\<open>UdpChannel.h\<close>, \<^verbatim>\<open>udp_msg_channel.h\<close>), timers
    (\<^verbatim>\<open>simple_timer_adapter.h\<close>, \<^verbatim>\<open>set_timer_handler.h\<close>), the loop (\<^verbatim>\<open>msgrpc_test_loop.h\<close>) and the logger.
    \<open>Processes\<close>: the runtime behind these adapters, which refines \<open>reach\<close>, and a call through both.
  \<^item> \<^emph>\<open>Programs.\<close> \<open>ApiMessages\<close>: the messages of the example interfaces, the contract \<open>message_codec\<close>
    between them and a protocol, and a small protocol that computes, on which programs are run.
    \<open>Services\<close>: \<^verbatim>\<open>service_x\<close>, \<^verbatim>\<open>service_y\<close>, \<^verbatim>\<open>service_z\<close> and \<^verbatim>\<open>service_k\<close> with their methods and
    interactions, on a network that delivers what is sent.  \<open>StartUp\<close>: their initialisers and
    the list of test cases; what \<^verbatim>\<open>service_x\<close> finds when the others have started.  \<open>LibraryTests\<close>: the
    programs of \<^verbatim>\<open>test/test_async_rpc.cpp\<close>, run by evaluation over threads that exchange datagrams and
    timers.  \<open>ThriftTests\<close>: those of \<^verbatim>\<open>test/test_thrift_struct.cpp\<close>, instances of what is shown there of
    every object that goes through the encoder and decoder from one class to the other and back.

  \<^bold>\<open>What the lemmas show.\<close>  For every run of a thread: no operation nests without end, a response or
  timeout reaches the one live cell that waits for it and only once, settled cells stay settled, a
  client without final actions never touches deleted memory, and a cell that waits sends exactly its
  retries and then fails.  A server answers each request by exactly one message with the right ids and
  result, and whatever the network does to messages, the answer a call gets is the one to its own
  request.  Encoded structs are read back under every compatible declaration.  Listeners and resolvers of
  the service register see what is cached, and a change on the server reaches the cache.  Where the
  code does not do what it means to, a theorem states what it does: a deleted timeout cell that is
  read (two tests of the library do so), a leak, an id given twice, filters that are not applied to
  updates, sets that shrink or merge, start-up that depends on uninitialised memory, timeouts that are
  lost for good.

  \<^bold>\<open>Faults and bounds.\<close>  An assertion, a null pointer, touching a deleted object and deleting twice are
  values of type \<open>fault\<close>.  Integers have their width (\<open>word\<close>); payloads and buffers are lists of bytes.
  The two virtual methods that recurse, \<^verbatim>\<open>update\<close> and \<^verbatim>\<open>delete\<close>, take fuel; \<open>update\<close> and \<open>delete_obj\<close>
  give them one more than the number of objects ever made, and \<open>every_call_ends\<close> and \<open>delete_obj_total\<close>
  show that this is enough.  The loop that reads fields takes one round per byte of input and one more:
  a round takes at least one byte under any protocol that satisfies \<open>protocol_ok\<close>, which the round trips
  assume.

  \<^bold>\<open>What is outside,\<close> and so an argument: the thrift protocol (\<open>thrift_lib\<close>, and \<open>thrift_read\<close>,
  \<open>thrift_write\<close> for the runtime), the answers of channel and allocator, padding bytes, the layout of
  \<^verbatim>\<open>timer_info\<close> (it holds a Boost endpoint), the zookeeper client and server (\<open>zk_env\<close>, and the tree
  that changes under a register), and what callbacks compute.  \<open>sample_lib\<close>, \<open>sample_env\<close>, \<open>sample_zk\<close>
  and \<open>sample_layout\<close> are concrete instances, on which every hypothesis is shown to hold.

  \<^bold>\<open>Not modelled:\<close> sockets, threads and sleeping (what they deliver is an argument, interleaving is part of
  \<open>SeqId\<close> and of the tasks of \<open>ServiceRegister\<close>); the text of log lines and traces other than their level
  and length; thrift's recursion trackers, which only limit how deep structs nest; an object that a
  decoder has half filled when it throws, since every caller drops it; what \<^verbatim>\<open>main\<close> functions do besides
  the initialisers, which is to construct the loop; the gtest fixture and the exit of a test program; of
  the gtest files the connection test of \<^verbatim>\<open>test_zookeeper.cpp\<close>, which is about the client library (and two
  tests of \<^verbatim>\<open>test_async_rpc.cpp\<close> in which several requests are lost, \<open>case701\<close> and \<open>case1000\<close>, are defined
  but not evaluated, which takes too long); type traits and token-pasting
  macros, which exist only at compile time; and the empty class of generated constants.
\<close>

end
